(* ===== verification/Gateway_Prelude.thy ===== *)
theory Gateway_Prelude
  imports Main "HOL-Library.AList" "HOL-Library.List_Lexorder" "HOL-Library.Char_ord"
    "HOL-Library.Multiset"
begin

text \<open>
  Shared vocabulary of the development: the parts of the language and of its standard library
  that several components use (string prefixes, decimal printing, insertion-ordered maps, indexed
  traversal with collected problems), the lemma collections, and the two generic interfaces
  (insertion-ordered map, transition function) that components instantiate.

  A string of the program is a \<open>string\<close>; comparison of strings is lexicographic on characters
  (\<open>HOL-Library.List_Lexorder\<close>, \<open>HOL-Library.Char_ord\<close>). A moment in time is an \<open>int\<close>, the
  milliseconds since the epoch that \<open>Date.getTime\<close> returns.
\<close>

named_theorems issue_iff \<open>when a checker reports no problem\<close>
named_theorems gateway_defs \<open>definitions unfolded together in evaluations\<close>

type_synonym millis = int

subsection \<open>Strings\<close>

definition startsWith :: "string \<Rightarrow> string \<Rightarrow> bool" where
  "startsWith s p \<longleftrightarrow> take (length p) s = p"

definition endsWith :: "string \<Rightarrow> string \<Rightarrow> bool" where
  "endsWith s p \<longleftrightarrow> length p \<le> length s \<and> drop (length s - length p) s = p"

lemma startsWith_iff: "startsWith s p \<longleftrightarrow> (\<exists>t. s = p @ t)"
  unfolding startsWith_def by (metis append_take_drop_id append_eq_conv_conj)

lemma startsWith_refl [simp]: "startsWith s s"
  by (simp add: startsWith_def)

lemma startsWith_append [simp]: "startsWith (p @ t) p"
  by (simp add: startsWith_def)

lemma startsWith_trans: "startsWith s p \<Longrightarrow> startsWith p q \<Longrightarrow> startsWith s q"
  by (auto simp: startsWith_iff)

lemma startsWith_linear:
  "startsWith s p \<Longrightarrow> startsWith s q \<Longrightarrow> startsWith p q \<or> startsWith q p"
  by (auto simp: startsWith_iff append_eq_append_conv2)

lemma endsWith_iff: "endsWith s p \<longleftrightarrow> (\<exists>t. s = t @ p)"
proof
  assume "endsWith s p"
  then have "s = take (length s - length p) s @ p"
    unfolding endsWith_def by (metis append_take_drop_id)
  then show "\<exists>t. s = t @ p" by blast
qed (auto simp: endsWith_def)

text \<open>Decimal digits of a natural number, as a template literal prints it.\<close>

fun show_nat :: "nat \<Rightarrow> string" where
  "show_nat n = (if n < 10 then [char_of (48 + n)] else show_nat (n div 10) @ [char_of (48 + n mod 10)])"

declare show_nat.simps [simp del]

text \<open>\<open>Array.prototype.join\<close>.\<close>

fun js_join :: "string \<Rightarrow> string list \<Rightarrow> string" where
  "js_join sep [] = []"
| "js_join sep [x] = x"
| "js_join sep (x # y # ys) = x @ sep @ js_join sep (y # ys)"

text \<open>\<open>s.split(c)\<close> for a one-character separator: always at least one piece.\<close>

fun js_split :: "char \<Rightarrow> string \<Rightarrow> string list" where
  "js_split c [] = [[]]"
| "js_split c (x # xs) =
    (if x = c then [] # js_split c xs
     else (case js_split c xs of [] \<Rightarrow> [[x]] | p # ps \<Rightarrow> (x # p) # ps))"

lemma js_split_not_Nil [simp]: "js_split c s \<noteq> []"
  by (induction s) (auto split: list.splits)

lemma js_split_no_sep: "c \<notin> set s \<Longrightarrow> js_split c s = [s]"
  by (induction s) auto

lemma js_split_Cons_sep: "c \<notin> set s \<Longrightarrow> js_split c (s @ c # t) = s # js_split c t"
  by (induction s) auto

lemma js_join_split: "js_join [c] (js_split c s) = s"
proof (induction s)
  case Nil
  then show ?case by simp
next
  case (Cons x s)
  then show ?case
    by (cases "js_split c s"; cases "tl (js_split c s)") auto
qed

lemma js_split_single: "js_split c s = [x] \<Longrightarrow> s = x"
  using js_join_split [of c s] by simp

lemma js_split_append_sep: "js_split c (s @ c # t) = js_split c s @ js_split c t"
  by (induction s) (auto split: list.splits simp: Cons_eq_append_conv)

lemma js_split_join:
  "xs \<noteq> [] \<Longrightarrow> \<forall>x \<in> set xs. c \<notin> set x \<Longrightarrow> js_split c (js_join [c] xs) = xs"
  by (induction xs rule: induct_list012) (simp_all add: js_split_no_sep js_split_Cons_sep)

lemma js_split_last: "\<exists>u. s = u @ last (js_split c s)"
proof (induction s)
  case (Cons x s)
  then obtain u where u: "s = u @ last (js_split c s)" by blast
  show ?case
  proof (cases "x \<noteq> c \<and> tl (js_split c s) = []")
    case True
    then have "last (js_split c (x # s)) = x # s"
      by (cases "js_split c s") (auto dest: js_split_single)
    then show ?thesis by auto
  next
    case False
    then have "last (js_split c (x # s)) = last (js_split c s)"
      by (cases "js_split c s") auto
    with u show ?thesis by (metis append_Cons)
  qed
qed simp

lemma js_split_snoc:
  "js_split c s = bs @ [x] \<Longrightarrow> bs \<noteq> [] \<Longrightarrow> \<exists>q. s = q @ c # x \<and> js_split c q = bs"
proof (induction s arbitrary: bs)
  case Nil
  then show ?case by (cases bs) auto
next
  case (Cons y s)
  show ?case
  proof (cases "y = c")
    case True
    with Cons.prems obtain bs' where bs: "bs = [] # bs'" and s: "js_split c s = bs' @ [x]"
      by (cases bs) auto
    show ?thesis
    proof (cases "bs' = []")
      case True
      with s have "s = x" by (intro js_split_single) simp
      with True bs \<open>y = c\<close> show ?thesis by (intro exI [of _ "[]"]) simp
    next
      case False
      with Cons.IH [OF s] obtain q where "s = q @ c # x" "js_split c q = bs'" by blast
      with bs \<open>y = c\<close> show ?thesis by (intro exI [of _ "c # q"]) simp
    qed
  next
    case False
    with Cons.prems obtain p ps where s: "js_split c s = p # ps" and bs: "(y # p) # ps = bs @ [x]"
      by (auto split: list.splits)
    with Cons.prems(2) obtain bs' where b: "bs = (y # p) # bs'" "ps = bs' @ [x]" by (cases bs) auto
    with s have "js_split c s = (p # bs') @ [x]" by simp
    from Cons.IH [OF this] obtain q where "s = q @ c # x" "js_split c q = p # bs'" by blast
    with False b show ?thesis by (intro exI [of _ "y # q"]) simp
  qed
qed

text \<open>Character classes of the program's regular expressions.\<close>

definition is_lower :: "char \<Rightarrow> bool" where
  "is_lower c \<longleftrightarrow> CHR ''a'' \<le> c \<and> c \<le> CHR ''z''"

definition is_upper :: "char \<Rightarrow> bool" where
  "is_upper c \<longleftrightarrow> CHR ''A'' \<le> c \<and> c \<le> CHR ''Z''"

definition is_digit :: "char \<Rightarrow> bool" where
  "is_digit c \<longleftrightarrow> CHR ''0'' \<le> c \<and> c \<le> CHR ''9''"

definition is_lower_alnum :: "char \<Rightarrow> bool" where
  "is_lower_alnum c \<longleftrightarrow> is_lower c \<or> is_digit c"

lemmas char_class_defs = is_lower_def is_upper_def is_digit_def is_lower_alnum_def less_eq_char_def

subsection \<open>Decimal numerals\<close>

text \<open>The number a string of decimal digits denotes (\<open>Number\<close>, \<open>parseInt(_, 10)\<close>).\<close>

definition dec_val :: "string \<Rightarrow> nat" where
  "dec_val s = foldl (\<lambda>n c. 10 * n + (of_char c - 48)) 0 s"

lemma dec_val_snoc: "dec_val (s @ [c]) = 10 * dec_val s + (of_char c - 48)"
  by (simp add: dec_val_def)

lemma is_digit_iff: "is_digit c \<longleftrightarrow> 48 \<le> (of_char c :: nat) \<and> (of_char c :: nat) \<le> 57"
  by (simp add: is_digit_def less_eq_char_def)

lemma dec_val_bound: "list_all is_digit s \<Longrightarrow> dec_val s < 10 ^ length s"
proof (induction s rule: rev_induct)
  case Nil
  then show ?case by (simp add: dec_val_def)
next
  case (snoc c s)
  then have "dec_val s < 10 ^ length s" and "(of_char c :: nat) - 48 \<le> 9"
    by (auto simp: is_digit_iff)
  then show ?case by (simp add: dec_val_snoc)
qed

lemma digit_split: "10 * (a::nat) + x = 10 * b + y \<Longrightarrow> x < 10 \<Longrightarrow> y < 10 \<Longrightarrow> a = b \<and> x = y"
  by arith

lemma dec_val_inj_length:
  assumes "length s = length t" and "list_all is_digit s" and "list_all is_digit t"
    and "dec_val s = dec_val t"
  shows "s = t"
  using assms
proof (induction s arbitrary: t rule: rev_induct)
  case (snoc c s)
  then obtain t' d where t: "t = t' @ [d]" by (metis length_0_conv length_append_singleton nat.distinct(1) rev_exhaust)
  have dig: "is_digit c" "is_digit d" using snoc.prems t by auto
  then have small: "(of_char c :: nat) - 48 < 10" "(of_char d :: nat) - 48 < 10" by (auto simp: is_digit_iff)
  have "10 * dec_val s + ((of_char c :: nat) - 48) = 10 * dec_val t' + (of_char d - 48)"
    using snoc.prems(4) t by (simp add: dec_val_snoc)
  from digit_split [OF this small] have "dec_val s = dec_val t'" and "(of_char c :: nat) - 48 = of_char d - 48"
    by auto
  moreover have "48 \<le> (of_char c :: nat)" "48 \<le> (of_char d :: nat)"
    using dig by (simp_all add: is_digit_iff)
  ultimately have "(of_char c :: nat) = of_char d" by linarith
  then have "c = d" by simp
  moreover have "s = t'" using snoc t \<open>dec_val s = dec_val t'\<close> by simp
  ultimately show ?case using t by simp
qed simp

lemma dec_val_leading:
  assumes "list_all is_digit s" and "s \<noteq> []" and "hd s \<noteq> CHR ''0''"
  shows "10 ^ (length s - 1) \<le> dec_val s"
  using assms
proof (induction s rule: rev_induct)
  case (snoc c s)
  show ?case
  proof (cases "s = []")
    case True
    with snoc.prems have "(of_char c :: nat) \<ge> 48" "c \<noteq> CHR ''0''" by (auto simp: is_digit_iff)
    moreover have "(of_char (CHR ''0'') :: nat) = 48" by simp
    ultimately have "(of_char c :: nat) \<noteq> 48" by (metis of_char_eq_iff)
    with True \<open>(of_char c :: nat) \<ge> 48\<close> show ?thesis by (simp add: dec_val_def)
  next
    case False
    with snoc have "10 ^ (length s - 1) \<le> dec_val s" by simp
    then have "10 * 10 ^ (length s - 1) \<le> 10 * dec_val s" by simp
    moreover have "10 * 10 ^ (length s - 1) = (10::nat) ^ length s"
      using False by (cases s) auto
    ultimately show ?thesis by (simp add: dec_val_snoc)
  qed
qed simp

lemma show_nat_small: "n < 10 \<Longrightarrow> show_nat n = [char_of (48 + n)]"
  by (subst show_nat.simps) simp

lemma show_nat_big: "\<not> n < 10 \<Longrightarrow> show_nat n = show_nat (n div 10) @ [char_of (48 + n mod 10)]"
  by (subst show_nat.simps) simp

lemma dec_val_show_nat [simp]: "dec_val (show_nat n) = n"
proof (induction n rule: show_nat.induct)
  case (1 n)
  show ?case
  proof (cases "n < 10")
    case True
    then show ?thesis by (simp add: show_nat_small dec_val_def)
  next
    case False
    with 1 show ?thesis by (simp add: show_nat_big [OF False] dec_val_snoc)
  qed
qed

lemma show_nat_digits: "list_all is_digit (show_nat n)"
proof (induction n rule: show_nat.induct)
  case (1 n)
  show ?case
  proof (cases "n < 10")
    case True
    then show ?thesis by (simp add: show_nat_small is_digit_iff)
  next
    case False
    with 1 show ?thesis by (simp add: show_nat_big [OF False] is_digit_iff)
  qed
qed

lemma show_nat_not_Nil [simp]: "show_nat n \<noteq> []"
  by (subst show_nat.simps) simp

lemma show_nat_hd: "0 < n \<Longrightarrow> hd (show_nat n) \<noteq> CHR ''0''"
proof (induction n rule: show_nat.induct)
  case (1 n)
  show ?case
  proof (cases "n < 10")
    case True
    have e: "(of_char (char_of (48 + n) :: char) :: nat) = 48 + n" using True by simp
    have "char_of (48 + n) \<noteq> CHR ''0''"
    proof
      assume "char_of (48 + n) = CHR ''0''"
      with e have "(of_char (CHR ''0'') :: nat) = 48 + n" by (simp only:)
      with 1(2) show False by simp
    qed
    with True show ?thesis by (simp add: show_nat_small)
  next
    case False
    with 1 show ?thesis by (simp add: show_nat_big [OF False])
  qed
qed

subsection \<open>Messages\<close>

text \<open>\<open>'${s}'\<close> in a message.\<close>

definition quoted :: "string \<Rightarrow> string" where
  "quoted s = CHR 0x27 # s @ [CHR 0x27]"

subsection \<open>Indexed traversal\<close>

text \<open>
  \<open>xs.forEach((x, i) => ...)\<close> where the callback appends problems to one list: the problems of
  each element in order. \<open>forEach_issues\<close> starts at index \<open>i\<close>.
\<close>

fun forEach_issues :: "nat \<Rightarrow> (nat \<Rightarrow> 'a \<Rightarrow> 'i list) \<Rightarrow> 'a list \<Rightarrow> 'i list" where
  "forEach_issues i f [] = []"
| "forEach_issues i f (x # xs) = f i x @ forEach_issues (Suc i) f xs"

lemma forEach_issues_Nil_iff:
  assumes "\<And>i x. x \<in> set xs \<Longrightarrow> f i x = [] \<longleftrightarrow> P x"
  shows "forEach_issues i f xs = [] \<longleftrightarrow> (\<forall>x\<in>set xs. P x)"
  using assms by (induction xs arbitrary: i) auto

lemma forEach_issues_cong:
  assumes "\<And>i x. x \<in> set xs \<Longrightarrow> f i x = g i x"
  shows "forEach_issues i f xs = forEach_issues i g xs"
  using assms by (induction xs arbitrary: i) auto

lemma concat_map_Nil_iff: "concat (map f xs) = [] \<longleftrightarrow> (\<forall>x\<in>set xs. f x = [])"
  by (induction xs) auto

subsection \<open>Sorting\<close>

lemma sort_key_perm:
  assumes "mset xs = mset ys" and "inj_on f (set xs)"
  shows "sort_key f xs = sort_key f ys"
  using assms by (intro sort_key_inj_key_eq) (auto dest: mset_eq_setD simp: sorted_sort_key)

lemma inj_on_distinct_map: "distinct (map f xs) \<Longrightarrow> inj_on f (set xs)"
  by (simp add: distinct_map)

lemma distinct_filter_map: "distinct (map f xs) \<Longrightarrow> distinct (map f (filter P xs))"
  by (induction xs) auto

lemma distinct_map_sort_key [simp]: "distinct (map f (sort_key g xs)) \<longleftrightarrow> distinct (map f xs)"
proof -
  have "mset (map f (sort_key g xs)) = mset (map f xs)" by simp
  then show ?thesis by (metis mset_eq_imp_distinct_iff)
qed

lemma find_append: "find P (xs @ ys) = (case find P xs of Some x \<Rightarrow> Some x | None \<Rightarrow> find P ys)"
  by (induction xs) auto

lemma find_SomeD: "find P xs = Some x \<Longrightarrow> P x \<and> x \<in> set xs"
  by (induction xs) (auto split: if_splits)

lemma map_of_find: "map_of ps k = map_option snd (find (\<lambda>p. fst p = k) ps)"
  by (induction ps) auto

subsection \<open>Insertion-ordered maps\<close>

text \<open>
  The contract of a \<open>Map\<close>: what a lookup returns after an insertion, which keys it has, and that
  its keys stay distinct. An association list with in-place update provides it.
\<close>

locale ordered_map =
  fixes mget :: "'m \<Rightarrow> 'k \<Rightarrow> 'v option"
    and mset_at :: "'k \<Rightarrow> 'v \<Rightarrow> 'm \<Rightarrow> 'm"
    and mkeys :: "'m \<Rightarrow> 'k list"
  assumes get_set: "mget (mset_at k v m) k' = (if k' = k then Some v else mget m k')"
    and keys_set: "set (mkeys (mset_at k v m)) = insert k (set (mkeys m))"
    and distinct_set: "distinct (mkeys m) \<Longrightarrow> distinct (mkeys (mset_at k v m))"
begin

lemma get_fold:
  "mget (fold (\<lambda>x. mset_at (key x) (val x)) xs m) k =
    (case find (\<lambda>x. key x = k) (rev xs) of Some x \<Rightarrow> Some (val x) | None \<Rightarrow> mget m k)"
proof (induction xs arbitrary: m)
  case Nil
  then show ?case by simp
next
  case (Cons x xs)
  have "find (\<lambda>x. key x = k) (rev (x # xs)) =
      (case find (\<lambda>x. key x = k) (rev xs) of Some y \<Rightarrow> Some y
       | None \<Rightarrow> if key x = k then Some x else None)"
    by (simp add: find_append split: option.splits)
  with Cons show ?case by (auto simp: get_set split: option.splits)
qed

lemma keys_fold:
  "set (mkeys (fold (\<lambda>x. mset_at (key x) (val x)) xs m)) = key ` set xs \<union> set (mkeys m)"
  by (induction xs arbitrary: m) (auto simp: keys_set)

lemma distinct_fold:
  "distinct (mkeys m) \<Longrightarrow> distinct (mkeys (fold (\<lambda>x. mset_at (key x) (val x)) xs m))"
  by (induction xs arbitrary: m) (auto simp: distinct_set)

end

interpretation jsmap: ordered_map map_of AList.update "map fst"
proof unfold_locales
  show "map_of (AList.update k v m) k' = (if k' = k then Some v else map_of m k')"
    for k :: 'k and v :: 'v and m k'
    by (simp add: update_conv')
next
  show "set (map fst (AList.update k v m)) = insert k (set (map fst m))" for k :: 'k and v :: 'v and m
    by (simp add: dom_update)
next
  show "distinct (map fst m) \<Longrightarrow> distinct (map fst (AList.update k v m))" for k :: 'k and v :: 'v and m
    by (rule distinct_update)
qed

text \<open>\<open>new Map(pairs)\<close>: later pairs overwrite earlier values, the first position is kept.\<close>

definition js_map :: "('k \<times> 'v) list \<Rightarrow> ('k \<times> 'v) list" where
  "js_map ps = fold (\<lambda>p. AList.update (fst p) (snd p)) ps []"

lemma js_map_get: "map_of (js_map ps) k = map_of (rev ps) k"
  unfolding js_map_def by (subst jsmap.get_fold) (simp add: map_of_find split: option.splits)

lemma js_map_keys [simp]: "fst ` set (js_map ps) = fst ` set ps"
  using jsmap.keys_fold [of fst snd ps "[]"] by (simp add: js_map_def)

lemma js_map_distinct [simp]: "distinct (map fst (js_map ps))"
  unfolding js_map_def by (rule jsmap.distinct_fold) simp

lemma map_of_js_map: "distinct (map fst ps) \<Longrightarrow> map_of (js_map ps) = map_of ps"
  using map_of_inject_set [of "rev ps" ps] by (auto simp: rev_map [symmetric] js_map_get)

text \<open>\<open>[...new Set(xs)]\<close>: every element once, at its first position.\<close>

definition js_set :: "'a list \<Rightarrow> 'a list" where
  "js_set xs = rev (remdups (rev xs))"

lemma set_js_set [simp]: "set (js_set xs) = set xs"
  by (simp add: js_set_def)

lemma distinct_js_set [simp]: "distinct (js_set xs)"
  by (simp add: js_set_def)

lemma js_set_distinct: "distinct xs \<Longrightarrow> js_set xs = xs"
  by (simp add: js_set_def distinct_remdups_id)

text \<open>\<open>set.add(x)\<close>.\<close>

definition js_add :: "'a \<Rightarrow> 'a list \<Rightarrow> 'a list" where
  "js_add x xs = (if x \<in> set xs then xs else xs @ [x])"

lemma set_js_add [simp]: "set (js_add x xs) = insert x (set xs)"
  by (auto simp: js_add_def)

lemma distinct_js_add [simp]: "distinct (js_add x xs) \<longleftrightarrow> distinct xs"
  by (auto simp: js_add_def)

subsection \<open>Transition functions\<close>

text \<open>
  A component whose state moves by a partial transition function: \<open>None\<close> where the code refuses.
  Runs, reachable states, and invariants along runs are shared by every such component.
\<close>

locale transition_function =
  fixes next_state :: "'s \<Rightarrow> 't \<Rightarrow> 's option"
begin

fun run :: "'s \<Rightarrow> 't list \<Rightarrow> 's option" where
  "run s [] = Some s"
| "run s (t # ts) = (case next_state s t of None \<Rightarrow> None | Some s' \<Rightarrow> run s' ts)"

lemma run_append: "run s (ts @ us) = (case run s ts of None \<Rightarrow> None | Some s' \<Rightarrow> run s' us)"
  by (induction ts arbitrary: s) (auto split: option.splits)

lemma run_invariant:
  assumes "\<And>s t s'. I s \<Longrightarrow> next_state s t = Some s' \<Longrightarrow> I s'"
    and "I s" and "run s ts = Some s'"
  shows "I s'"
  using assms(2,3) by (induction ts arbitrary: s) (auto split: option.splits intro: assms(1))

lemma run_escape:
  assumes step: "\<And>s t s'. I s \<Longrightarrow> t \<notin> E \<Longrightarrow> next_state s t = Some s' \<Longrightarrow> I s'"
    and "I s" and "run s ts = Some s'" and "\<not> I s'"
  shows "\<exists>t\<in>set ts. t \<in> E"
proof (rule ccontr)
  assume none: "\<not> (\<exists>t\<in>set ts. t \<in> E)"
  have "I s'"
    using \<open>I s\<close> \<open>run s ts = Some s'\<close> none
    by (induction ts arbitrary: s) (auto split: option.splits intro: step)
  with \<open>\<not> I s'\<close> show False by simp
qed

end

end
