(* ===== verification/Tool_Patterns.thy ===== *)
theory Tool_Patterns
  imports Gateway_Prelude
begin

text \<open>
  Tool names and tool patterns, \<open>packages/contracts/src/common.ts\<close>. A pattern is a concrete tool
  name or a wildcard in the last segment. The two comparisons are proved to mean what their
  comments say, in terms of the tools a pattern matches; the covering relation is the interface
  (\<open>pattern_cover\<close>) the policy components rely on.
\<close>

definition is_segment_char :: "char \<Rightarrow> bool" where
  "is_segment_char c \<longleftrightarrow> is_lower_alnum c \<or> c = CHR ''-''"

text \<open>\<open>[a-z][a-z0-9-]*\<close>\<close>

definition tool_segment :: "string \<Rightarrow> bool" where
  "tool_segment s \<longleftrightarrow> s \<noteq> [] \<and> is_lower (hd s) \<and> list_all is_segment_char s"

definition ToolNameSchema :: "string \<Rightarrow> bool" where
  "ToolNameSchema s \<longleftrightarrow>
    (let parts = js_split (CHR ''.'') s in 2 \<le> length parts \<and> list_all tool_segment parts)"

definition ToolPatternSchema :: "string \<Rightarrow> bool" where
  "ToolPatternSchema s \<longleftrightarrow>
    (let parts = js_split (CHR ''.'') s in
     2 \<le> length parts \<and> list_all tool_segment (butlast parts) \<and>
     (tool_segment (last parts) \<or> last parts = ''*''))"

definition FINANCE_TOOLS :: string where
  "FINANCE_TOOLS = ''finance.*''"

definition toolPatternCovers :: "string \<Rightarrow> string \<Rightarrow> bool" where
  "toolPatternCovers pat other =
    (if \<not> endsWith pat ''.*'' then pat = other
     else other = pat \<or> startsWith other (butlast pat))"

definition toolPatternsOverlap :: "string \<Rightarrow> string \<Rightarrow> bool" where
  "toolPatternsOverlap a b \<longleftrightarrow> toolPatternCovers a b \<or> toolPatternCovers b a"

text \<open>The permission lists in the order of the object's entries; one message per overlapping pair.\<close>

fun overlap_pairs :: "(string \<times> string) list \<Rightarrow> (string \<times> string) list" where
  "overlap_pairs [] = []"
| "overlap_pairs (a # rest) =
    map (\<lambda>b. (fst b, ''tool pattern '' @ quoted (snd b) @ '' in '' @ fst b @ '' overlaps '' @
                quoted (snd a) @ '' in '' @ fst a))
      (filter (\<lambda>b. toolPatternsOverlap (snd a) (snd b)) rest) @ overlap_pairs rest"

definition toolPatternOverlaps :: "(string \<times> string list) list \<Rightarrow> (string \<times> string) list" where
  "toolPatternOverlaps permission_lists =
    overlap_pairs (concat (map (\<lambda>(l, patterns). map (\<lambda>p. (l, p)) patterns) permission_lists))"

subsection \<open>The interface of a covering relation\<close>

text \<open>What a policy relies on: covering is reflexive and transitive, a wildcard-free name covers
  only itself.\<close>

locale pattern_cover =
  fixes covers_rel :: "'p \<Rightarrow> 'p \<Rightarrow> bool" and concrete :: "'p \<Rightarrow> bool"
  assumes cover_refl: "covers_rel p p"
    and cover_trans: "covers_rel p q \<Longrightarrow> covers_rel q r \<Longrightarrow> covers_rel p r"
    and concrete_only: "concrete p \<Longrightarrow> covers_rel p q \<Longrightarrow> q = p"
begin

lemma list_covers_mono:
  "\<forall>p\<in>set ps. \<exists>q\<in>set qs. covers_rel q p \<Longrightarrow> \<exists>p\<in>set ps. covers_rel p n \<Longrightarrow> \<exists>q\<in>set qs. covers_rel q n"
  using cover_trans by blast

lemma list_covers_concrete:
  "\<forall>p\<in>set ps. concrete p \<Longrightarrow> (\<exists>p\<in>set ps. covers_rel p n) \<longleftrightarrow> n \<in> set ps"
  using cover_refl concrete_only by blast

end

lemma wildcard_decomp: "endsWith p ''.*'' \<longleftrightarrow> (\<exists>q. p = q @ ''.*'')"
  by (auto simp: endsWith_iff)

lemma covers_wildcard:
  "toolPatternCovers (q @ ''.*'') n \<longleftrightarrow> n = q @ ''.*'' \<or> startsWith n (q @ ''.'')"
  by (auto simp: toolPatternCovers_def wildcard_decomp butlast_append)

lemma covers_wildcard': "toolPatternCovers (q @ ''.*'') n \<longleftrightarrow> startsWith n (q @ ''.'')"
  unfolding covers_wildcard by (auto simp: startsWith_iff)

lemma covers_concrete: "\<not> endsWith p ''.*'' \<Longrightarrow> toolPatternCovers p n \<longleftrightarrow> p = n"
  by (simp add: toolPatternCovers_def)

interpretation tool_cover: pattern_cover toolPatternCovers "\<lambda>p. \<not> endsWith p ''.*''"
proof unfold_locales
  show "toolPatternCovers p p" for p by (simp add: toolPatternCovers_def)
next
  fix p q r
  assume pq: "toolPatternCovers p q" and qr: "toolPatternCovers q r"
  show "toolPatternCovers p r"
  proof (cases "endsWith p ''.*''")
    case False
    with pq qr show ?thesis by (simp add: covers_concrete)
  next
    case True
    then obtain p' where p: "p = p' @ ''.*''" by (auto simp: wildcard_decomp)
    with pq have "startsWith q (p' @ ''.'')" by (simp add: covers_wildcard')
    moreover have "r = q \<or> startsWith r (butlast q)" using qr by (auto simp: toolPatternCovers_def split: if_splits)
    moreover have "startsWith (butlast q) (p' @ ''.'')" if "endsWith q ''.*''"
    proof -
      from that obtain q' where q: "q = q' @ ''.*''" by (auto simp: wildcard_decomp)
      with \<open>startsWith q (p' @ ''.'')\<close> obtain t where t: "q' @ ''.*'' = p' @ ''.'' @ t"
        by (auto simp: startsWith_iff)
      then have "t \<noteq> []"
      proof -
        have "last (q' @ ''.*'') = CHR ''*''" by simp
        then show ?thesis using t by auto
      qed
      then have "butlast (q' @ ''.*'') = p' @ ''.'' @ butlast t" using t by (simp add: butlast_append)
      then show ?thesis using q by (auto simp: startsWith_iff)
    qed
    ultimately have "startsWith r (p' @ ''.'')"
      using qr by (auto simp: toolPatternCovers_def intro: startsWith_trans split: if_splits)
    then show ?thesis by (simp add: p covers_wildcard')
  qed
next
  show "\<not> endsWith p ''.*'' \<Longrightarrow> toolPatternCovers p q \<Longrightarrow> q = p" for p q
    by (simp add: covers_concrete)
qed


subsection \<open>What patterns match\<close>

lemma not_segment_star [simp]: "\<not> tool_segment ''*''"
  by code_simp

lemma segment_a: "tool_segment ''a''" and segment_b: "tool_segment ''b''"
  by code_simp+

lemma js_split_star [simp]: "js_split (CHR ''.'') (q @ ''.*'') = js_split (CHR ''.'') q @ [''*'']"
  using js_split_append_sep [of "CHR ''.''" q "''*''"] by simp

lemma name_not_wildcard: "ToolNameSchema n \<Longrightarrow> \<not> endsWith n ''.*''"
  by (auto simp: ToolNameSchema_def wildcard_decomp Let_def)

lemma pattern_cases:
  assumes "ToolPatternSchema p"
  obtains (name) "ToolNameSchema p" "\<not> endsWith p ''.*''"
  | (wildcard) q where "p = q @ ''.*''" "list_all tool_segment (js_split (CHR ''.'') q)"
proof -
  let ?parts = "js_split (CHR ''.'') p"
  have len: "2 \<le> length ?parts" and segs: "list_all tool_segment (butlast ?parts)"
    and lst: "tool_segment (last ?parts) \<or> last ?parts = ''*''"
    using assms by (auto simp: ToolPatternSchema_def Let_def)
  have parts: "?parts = butlast ?parts @ [last ?parts]" by simp
  show thesis
  proof (cases "last ?parts = ''*''")
    case True
    have ne: "butlast ?parts \<noteq> []" using len by (cases ?parts) auto
    from js_split_snoc [OF parts ne] obtain q where q: "p = q @ CHR ''.'' # last ?parts"
      and b: "js_split (CHR ''.'') q = butlast ?parts" by blast
    from q True have "p = q @ ''.*''" by simp
    moreover have "list_all tool_segment (js_split (CHR ''.'') q)" using segs by (subst b)
    ultimately show ?thesis by (rule wildcard)
  next
    case False
    then have "list_all tool_segment (butlast ?parts) \<and> list_all tool_segment [last ?parts]"
      using segs lst by simp
    then have "list_all tool_segment ?parts" by (subst parts) (simp only: list_all_append)
    then have "ToolNameSchema p" using len by (simp add: ToolNameSchema_def)
    then show ?thesis by (intro name name_not_wildcard)
  qed
qed

lemma extension_is_name:
  assumes "list_all tool_segment (js_split (CHR ''.'') q)" and "tool_segment s" and "CHR ''.'' \<notin> set s"
  shows "ToolNameSchema (q @ ''.'' @ s)"
proof -
  have "js_split (CHR ''.'') (q @ CHR ''.'' # s) = js_split (CHR ''.'') q @ [s]"
    using assms(3) by (simp add: js_split_append_sep js_split_no_sep)
  moreover have "length (js_split (CHR ''.'') q) \<noteq> 0" by simp
  ultimately show ?thesis using assms by (simp add: ToolNameSchema_def Let_def Suc_le_eq)
qed

lemma pattern_matches_some:
  assumes "ToolPatternSchema p"
  shows "\<exists>n. ToolNameSchema n \<and> toolPatternCovers p n"
  using assms
proof (cases p rule: pattern_cases)
  case name
  then show ?thesis using tool_cover.cover_refl by blast
next
  case (wildcard q)
  then have "ToolNameSchema (q @ ''.'' @ ''a'')" by (intro extension_is_name segment_a) auto
  moreover have "startsWith (q @ ''.'' @ ''a'') (q @ ''.'')"
    using startsWith_append [of "q @ ''.''" "''a''"] by simp
  ultimately show ?thesis using wildcard by (auto simp: covers_wildcard')
qed

text \<open>The first of two one-letter extensions: a wildcard's matches are never a single name, and a
  prefix of all of them is a prefix of the wildcard's own stem.\<close>

lemma stem_prefix:
  assumes "startsWith (q @ ''.a'') r" and "startsWith (q @ ''.b'') r"
  shows "startsWith (q @ ''.'') r"
proof -
  from assms obtain s t where s: "q @ ''.a'' = r @ s" and t: "q @ ''.b'' = r @ t"
    by (auto simp: startsWith_iff)
  have "s \<noteq> []"
  proof
    assume "s = []"
    with s t have "q @ ''.b'' = (q @ ''.a'') @ t" by simp
    then show False by simp
  qed
  then obtain s' where s': "s = s' @ ''a''" using s
    by (metis append_butlast_last_id last_append last_snoc append_Cons append_Nil append_assoc)
  have "(q @ ''.'') @ ''a'' = (r @ s') @ ''a''" using s s' by simp
  then have "q @ ''.'' = r @ s'" by (simp only: append_same_eq)
  then show ?thesis by (auto simp: startsWith_iff)
qed

lemma covers_if_matches_subset:
  assumes p: "ToolPatternSchema p" and q: "ToolPatternSchema q"
    and sub: "\<And>n. ToolNameSchema n \<Longrightarrow> toolPatternCovers q n \<Longrightarrow> toolPatternCovers p n"
  shows "toolPatternCovers p q"
  using q
proof (cases q rule: pattern_cases)
  case name
  then show ?thesis using sub tool_cover.cover_refl by blast
next
  case (wildcard r)
  have a: "toolPatternCovers p (r @ ''.a'')" and b: "toolPatternCovers p (r @ ''.b'')"
    using sub extension_is_name [OF wildcard(2) segment_a] extension_is_name [OF wildcard(2) segment_b]
    by (auto simp: wildcard(1) covers_wildcard' startsWith_iff)
  have "endsWith p ''.*''"
  proof (rule ccontr)
    assume "\<not> endsWith p ''.*''"
    with a b have "r @ ''.a'' = r @ ''.b''" by (simp add: covers_concrete)
    then show False by simp
  qed
  then obtain s where s: "p = s @ ''.*''" by (auto simp: wildcard_decomp)
  with a b have "startsWith (r @ ''.'') (s @ ''.'')"
    by (intro stem_prefix) (simp_all add: covers_wildcard')
  then have "startsWith (r @ ''.*'') (s @ ''.'')" by (auto simp: startsWith_iff) (metis append.assoc append_Cons append_Nil)
  then show ?thesis by (simp add: s wildcard(1) covers_wildcard')
qed

lemma overlap_if_common:
  assumes "ToolNameSchema n" and "toolPatternCovers a n" and "toolPatternCovers b n"
  shows "toolPatternsOverlap a b"
proof (cases "endsWith a ''.*'' \<and> endsWith b ''.*''")
  case False
  with assms show ?thesis by (auto simp: toolPatternsOverlap_def covers_concrete)
next
  case True
  then obtain a' b' where ab: "a = a' @ ''.*''" "b = b' @ ''.*''" by (auto simp: wildcard_decomp)
  with assms have "startsWith n (a' @ ''.'')" "startsWith n (b' @ ''.'')" by (auto simp: covers_wildcard')
  then have "startsWith (a' @ ''.'') (b' @ ''.'') \<or> startsWith (b' @ ''.'') (a' @ ''.'')"
    by (rule startsWith_linear)
  moreover have "startsWith (x @ ''.*'') (y @ ''.'')" if "startsWith (x @ ''.'') (y @ ''.'')" for x y
    using that startsWith_append [of "x @ ''.''" "''*''"] startsWith_trans by fastforce
  ultimately show ?thesis by (auto simp: toolPatternsOverlap_def ab covers_wildcard')
qed

lemma overlap_pairs_Nil_iff:
  "overlap_pairs es = [] \<longleftrightarrow> sorted_wrt (\<lambda>a b. \<not> toolPatternsOverlap (snd a) (snd b)) es"
  by (induction es) (auto simp: filter_empty_conv)

text \<open>\<open>toolPatternCovers\<close> means what its comment says. For valid patterns, one covers the other
  exactly when it matches every tool name the other matches; and two valid patterns overlap
  exactly when some tool name is matched by both.\<close>

theorem tool_pattern_semantics:
  assumes "ToolPatternSchema p" and "ToolPatternSchema q"
  shows "(toolPatternCovers p q \<longleftrightarrow>
      (\<forall>n. ToolNameSchema n \<longrightarrow> toolPatternCovers q n \<longrightarrow> toolPatternCovers p n)) \<and>
    (toolPatternsOverlap p q \<longleftrightarrow>
      (\<exists>n. ToolNameSchema n \<and> toolPatternCovers p n \<and> toolPatternCovers q n))"
proof -
  have "\<exists>n. ToolNameSchema n \<and> toolPatternCovers p n \<and> toolPatternCovers q n"
    if "toolPatternsOverlap p q"
    using that pattern_matches_some [OF assms(1)] pattern_matches_some [OF assms(2)]
      tool_cover.cover_trans by (auto simp: toolPatternsOverlap_def)
  then show ?thesis
    using covers_if_matches_subset [OF assms] overlap_if_common tool_cover.cover_trans by blast
qed

end
