(* ===== verification/Contracts.thy ===== *)
theory Contracts
  imports Gateway_Prelude
begin

text \<open>
  The shared contracts the control plane reads: identifiers and enums of
  \<open>packages/contracts/src/common.ts\<close>, event types and Mattermost post data of
  \<open>packages/contracts/src/event.ts\<close>, wait conditions of \<open>packages/contracts/src/wait.ts\<close>, and the
  event helpers of \<open>packages/events/src/envelope.ts\<close>.

  A JSON value keeps its object members in order; every number the modelled code writes or reads
  is an integer. A \<open>Timestamp\<close> string is modelled by the instant it denotes. Zod's \<open>strictObject\<close>
  accepts exactly the declared keys. Zod's \<open>uuid\<close> check is third-party code and is the parameter
  \<open>uuid_ok\<close> of what uses it.
\<close>

subsection \<open>JSON values\<close>

datatype json =
    JNull
  | JBool bool
  | JNum int
  | JStr string
  | JArr "json list"
  | JObj "(string \<times> json) list"

subsection \<open>Identifiers\<close>

definition BROADCAST_MENTIONS :: "string list" where
  "BROADCAST_MENTIONS = [''all'', ''here'', ''channel'']"

text \<open>\<open>/^[a-z][a-z0-9]*(-[a-z0-9]+)*$/\<close>: hyphen-separated alphanumeric pieces, the first starting
  with a letter.\<close>

definition hyphenated :: "string \<Rightarrow> bool" where
  "hyphenated s \<longleftrightarrow>
    (case js_split (CHR ''-'') s of
       [] \<Rightarrow> False
     | p # ps \<Rightarrow> p \<noteq> [] \<and> is_lower (hd p) \<and> list_all is_lower_alnum p \<and>
         list_all (\<lambda>q. q \<noteq> [] \<and> list_all is_lower_alnum q) ps)"

definition AgentIdSchema :: "string \<Rightarrow> bool" where
  "AgentIdSchema s \<longleftrightarrow>
    2 \<le> length s \<and> length s \<le> 32 \<and> hyphenated s \<and> s \<notin> set BROADCAST_MENTIONS"

definition MattermostIdSchema :: "string \<Rightarrow> bool" where
  "MattermostIdSchema s \<longleftrightarrow> length s = 26 \<and> list_all is_lower_alnum s"

subsection \<open>Trust levels, runtime adapters, risk\<close>

datatype trust_level = SystemTrusted | HumanTrusted | InternalUntrusted | ExternalUntrusted

datatype runtime_adapter_id = Mock | Codex | ClaudeCode | Grok | Kiro | OpencodeGo | Hermes

datatype risk_level = RLow | RMedium | RHigh | RCritical

datatype visibility = VPrivate | VShared | VPublic

text \<open>An agent's own namespace stays private; shared namespaces are never private.\<close>

definition memoryVisibilityIssue :: "string \<Rightarrow> visibility \<Rightarrow> string option" where
  "memoryVisibilityIssue namespace v =
    (let isPrivateNamespace = startsWith namespace ''agents/'' in
     if isPrivateNamespace = (v = VPrivate) then None
     else if isPrivateNamespace then Some ''memory in 'agents/<id>' must be private''
     else Some ''memory in a shared namespace cannot be private'')"

subsection \<open>Event types\<close>

datatype gateway_event_type =
    MmPostCreated | MmPostEdited | MmPostDeleted | MmPostRecovered | MmAgentMentioned
  | MmThreadReply | AgentRunRequested | AgentRunStarted | AgentRunCompleted | AgentRunFailed
  | AgentWaitCreated | AgentWaitMatched | AgentWaitTimeout | AgentMessageRequested
  | AgentMessagePosted | ApprovalRequested | ApprovalGranted | ApprovalDenied | ApprovalResolved
  | GmailNotificationReceived | GmailMessageReceived | TimerFired | GatewayControlPause
  | GatewayControlResume | GatewayControlKillAll

primrec event_type_name :: "gateway_event_type \<Rightarrow> string" where
  "event_type_name MmPostCreated = ''mattermost.post.created''"
| "event_type_name MmPostEdited = ''mattermost.post.edited''"
| "event_type_name MmPostDeleted = ''mattermost.post.deleted''"
| "event_type_name MmPostRecovered = ''mattermost.post.recovered''"
| "event_type_name MmAgentMentioned = ''mattermost.agent.mentioned''"
| "event_type_name MmThreadReply = ''mattermost.thread.reply''"
| "event_type_name AgentRunRequested = ''agent.run.requested''"
| "event_type_name AgentRunStarted = ''agent.run.started''"
| "event_type_name AgentRunCompleted = ''agent.run.completed''"
| "event_type_name AgentRunFailed = ''agent.run.failed''"
| "event_type_name AgentWaitCreated = ''agent.wait.created''"
| "event_type_name AgentWaitMatched = ''agent.wait.matched''"
| "event_type_name AgentWaitTimeout = ''agent.wait.timeout''"
| "event_type_name AgentMessageRequested = ''agent.message.requested''"
| "event_type_name AgentMessagePosted = ''agent.message.posted''"
| "event_type_name ApprovalRequested = ''approval.requested''"
| "event_type_name ApprovalGranted = ''approval.granted''"
| "event_type_name ApprovalDenied = ''approval.denied''"
| "event_type_name ApprovalResolved = ''approval.resolved''"
| "event_type_name GmailNotificationReceived = ''google.gmail.notification.received''"
| "event_type_name GmailMessageReceived = ''google.gmail.message.received''"
| "event_type_name TimerFired = ''timer.fired''"
| "event_type_name GatewayControlPause = ''gateway.control.pause''"
| "event_type_name GatewayControlResume = ''gateway.control.resume''"
| "event_type_name GatewayControlKillAll = ''gateway.control.kill_all''"

definition isReservedEventType :: "gateway_event_type \<Rightarrow> bool" where
  "isReservedEventType t \<longleftrightarrow>
    startsWith (event_type_name t) ''agent.'' \<or> startsWith (event_type_name t) ''approval.'' \<or>
    startsWith (event_type_name t) ''gateway.control.'' \<or> t = TimerFired"

definition isRecordOnlyEventType :: "gateway_event_type \<Rightarrow> bool" where
  "isRecordOnlyEventType t \<longleftrightarrow>
    t = MmPostEdited \<or> t = MmPostDeleted \<or> t = MmPostRecovered \<or> t = GmailNotificationReceived"

definition MATTERMOST_POST_EVENT_TYPES :: "gateway_event_type list" where
  "MATTERMOST_POST_EVENT_TYPES =
    [MmPostCreated, MmPostEdited, MmPostDeleted, MmPostRecovered, MmAgentMentioned, MmThreadReply]"

definition MATTERMOST_POST_TRUST_LEVELS :: "trust_level list" where
  "MATTERMOST_POST_TRUST_LEVELS = [HumanTrusted, InternalUntrusted]"

definition mattermostPostTrustIssue :: "trust_level \<Rightarrow> bool \<Rightarrow> string option" where
  "mattermostPostTrustIssue trust authoredByAgent =
    (if trust \<notin> set MATTERMOST_POST_TRUST_LEVELS
     then Some ''Mattermost posts are human-trusted or internal-untrusted''
     else if authoredByAgent \<and> trust \<noteq> InternalUntrusted
     then Some ''posts by agent bots are internal-untrusted''
     else None)"

subsection \<open>Mattermost post data\<close>

record mattermost_post_data =
  post_id :: string
  root_id :: "string option"
  channel_id :: string
  user_id :: string
  sender_agent_id :: "string option"
  target_agent_ids :: "string list"
  message :: string

fun json_string :: "(string \<Rightarrow> bool) \<Rightarrow> json \<Rightarrow> string option" where
  "json_string ok (JStr s) = (if ok s then Some s else None)"
| "json_string ok _ = None"

fun json_nullable_string :: "(string \<Rightarrow> bool) \<Rightarrow> json \<Rightarrow> string option option" where
  "json_nullable_string ok JNull = Some None"
| "json_nullable_string ok v = map_option Some (json_string ok v)"

fun those_strings :: "(string \<Rightarrow> bool) \<Rightarrow> json list \<Rightarrow> string list option" where
  "those_strings ok [] = Some []"
| "those_strings ok (v # vs) =
    (case json_string ok v of None \<Rightarrow> None
     | Some s \<Rightarrow> map_option (Cons s) (those_strings ok vs))"

fun json_string_array :: "(string \<Rightarrow> bool) \<Rightarrow> nat \<Rightarrow> json \<Rightarrow> string list option" where
  "json_string_array ok mx (JArr vs) = (if length vs \<le> mx then those_strings ok vs else None)"
| "json_string_array ok mx _ = None"

text \<open>A required member of a strict object.\<close>

definition json_field :: "(string \<times> json) list \<Rightarrow> string \<Rightarrow> (json \<Rightarrow> 'a option) \<Rightarrow> 'a option" where
  "json_field obj key schema = Option.bind (map_of obj key) schema"

definition strict_keys :: "string list \<Rightarrow> (string \<times> json) list \<Rightarrow> bool" where
  "strict_keys ks obj \<longleftrightarrow> list_all (\<lambda>p. fst p \<in> set ks) obj"

definition MattermostPostDataSchema ::
    "(string \<times> json) list \<Rightarrow> mattermost_post_data option" where
  "MattermostPostDataSchema obj =
    (if \<not> strict_keys [''post_id'', ''root_id'', ''channel_id'', ''user_id'', ''sender_agent_id'',
          ''target_agent_ids'', ''message''] obj then None
     else
       Option.bind (json_field obj ''post_id'' (json_string MattermostIdSchema)) (\<lambda>p.
       Option.bind (json_field obj ''root_id'' (json_nullable_string MattermostIdSchema)) (\<lambda>r.
       Option.bind (json_field obj ''channel_id'' (json_string MattermostIdSchema)) (\<lambda>c.
       Option.bind (json_field obj ''user_id'' (json_string MattermostIdSchema)) (\<lambda>u.
       Option.bind (json_field obj ''sender_agent_id'' (json_nullable_string AgentIdSchema)) (\<lambda>s.
       Option.bind (json_field obj ''target_agent_ids'' (json_string_array AgentIdSchema 8)) (\<lambda>t.
       Option.bind (json_field obj ''message'' (json_string (\<lambda>m. length m \<le> 16383))) (\<lambda>m.
         Some \<lparr>post_id = p, root_id = r, channel_id = c, user_id = u, sender_agent_id = s,
               target_agent_ids = t, message = m\<rparr>))))))))"

subsection \<open>The event envelope\<close>

record gateway_event =
  ev_id :: string
  ev_source :: string
  ev_type :: gateway_event_type
  ev_time :: millis
  ev_subject :: "string option"
  ev_correlationid :: string
  ev_causationid :: "string option"
  ev_traceparent :: "string option"
  ev_trustlevel :: trust_level
  ev_hop :: nat
  ev_data :: "(string \<times> json) list"

definition GATEWAY_SOURCE :: string where
  "GATEWAY_SOURCE = ''gateway://controller''"

definition mattermostPost :: "gateway_event \<Rightarrow> mattermost_post_data option" where
  "mattermostPost e =
    (if ev_type e \<notin> set MATTERMOST_POST_EVENT_TYPES then None
     else MattermostPostDataSchema (ev_data e))"

definition eventTargets :: "gateway_event \<Rightarrow> string list" where
  "eventTargets e = (case mattermostPost e of None \<Rightarrow> [] | Some p \<Rightarrow> target_agent_ids p)"

definition eventSenderAgentId :: "gateway_event \<Rightarrow> string option" where
  "eventSenderAgentId e = (case mattermostPost e of None \<Rightarrow> None | Some p \<Rightarrow> sender_agent_id p)"

definition newPostEventType :: "string option \<Rightarrow> string list \<Rightarrow> gateway_event_type" where
  "newPostEventType rootId targets =
    (if rootId \<noteq> None then MmThreadReply
     else if targets \<noteq> [] then MmAgentMentioned else MmPostCreated)"

text \<open>\<open>internalEvent\<close>: an event the Gateway emits itself; always system-trusted.\<close>

definition internalEvent ::
    "string \<Rightarrow> gateway_event_type \<Rightarrow> millis \<Rightarrow> string option \<Rightarrow> string \<Rightarrow> string option \<Rightarrow> nat \<Rightarrow>
     (string \<times> json) list \<Rightarrow> string option \<Rightarrow> gateway_event" where
  "internalEvent i t time subject correlationid causationid hop data traceparent =
    \<lparr>ev_id = i, ev_source = GATEWAY_SOURCE, ev_type = t, ev_time = time, ev_subject = subject,
     ev_correlationid = correlationid, ev_causationid = causationid, ev_traceparent = traceparent,
     ev_trustlevel = SystemTrusted, ev_hop = hop, ev_data = data\<rparr>"

subsection \<open>Waits\<close>

record wait_condition =
  wc_eventType :: gateway_event_type
  wc_correlationId :: string
  wc_expectedSenderAgentIds :: "string list"
  wc_expectedSenderUserIds :: "string list"
  wc_requireTargetAgentId :: "string option"
  wc_timeoutAt :: millis

definition WAITABLE_EVENT_TYPES :: "gateway_event_type list" where
  "WAITABLE_EVENT_TYPES =
    [MmThreadReply, MmAgentMentioned, ApprovalResolved, ApprovalGranted, ApprovalDenied,
     GmailMessageReceived, TimerFired]"

definition SENDER_REQUIRED :: "gateway_event_type list" where
  "SENDER_REQUIRED = [MmThreadReply, MmAgentMentioned]"

definition WaitConditionSchema :: "wait_condition \<Rightarrow> bool" where
  "WaitConditionSchema c \<longleftrightarrow>
    wc_eventType c \<in> set WAITABLE_EVENT_TYPES \<and>
    1 \<le> length (wc_correlationId c) \<and> length (wc_correlationId c) \<le> 512 \<and>
    list_all AgentIdSchema (wc_expectedSenderAgentIds c) \<and> length (wc_expectedSenderAgentIds c) \<le> 8 \<and>
    list_all MattermostIdSchema (wc_expectedSenderUserIds c) \<and>
    length (wc_expectedSenderUserIds c) \<le> 8 \<and>
    (case wc_requireTargetAgentId c of None \<Rightarrow> True | Some a \<Rightarrow> AgentIdSchema a) \<and>
    \<not> (wc_eventType c \<in> set SENDER_REQUIRED \<and> wc_expectedSenderAgentIds c = [] \<and>
       wc_expectedSenderUserIds c = [])"

text \<open>\<open>data\<close> of an \<open>agent.wait.timeout\<close> event: the agent id and the wait id.\<close>

definition WaitTimeoutDataSchema ::
    "(string \<Rightarrow> bool) \<Rightarrow> (string \<times> json) list \<Rightarrow> (string \<times> string) option" where
  "WaitTimeoutDataSchema uuid_ok obj =
    (if \<not> strict_keys [''agent_id'', ''wait_id''] obj then None
     else Option.bind (json_field obj ''agent_id'' (json_string AgentIdSchema)) (\<lambda>a.
          Option.bind (json_field obj ''wait_id'' (json_string uuid_ok)) (\<lambda>w. Some (a, w))))"

subsection \<open>Basic facts\<close>

lemma reserved_not_post: "isReservedEventType t \<Longrightarrow> t \<notin> set MATTERMOST_POST_EVENT_TYPES"
  by (auto simp: isReservedEventType_def MATTERMOST_POST_EVENT_TYPES_def startsWith_def)

lemma mattermostPost_SomeD:
  "mattermostPost e = Some p \<Longrightarrow> ev_type e \<in> set MATTERMOST_POST_EVENT_TYPES"
  by (auto simp: mattermostPost_def split: if_splits)

lemma reserved_no_post: "isReservedEventType (ev_type e) \<Longrightarrow> mattermostPost e = None"
  by (simp add: mattermostPost_def reserved_not_post)

lemma those_strings_ok: "those_strings ok vs = Some ss \<Longrightarrow> list_all ok ss \<and> length ss = length vs"
proof (induction vs arbitrary: ss)
  case (Cons v vs)
  then show ?case by (cases v) (auto split: if_splits)
qed auto

lemma post_targets_ok:
  assumes "mattermostPost e = Some p"
  shows "list_all AgentIdSchema (target_agent_ids p) \<and> length (target_agent_ids p) \<le> 8"
proof -
  from assms obtain j where
    "json_string_array AgentIdSchema 8 j = Some (target_agent_ids p)"
    by (auto simp: mattermostPost_def MattermostPostDataSchema_def json_field_def
        split: if_splits Option.bind_splits)
  then show ?thesis by (cases j) (auto dest: those_strings_ok split: if_splits)
qed

end
