(* ===== verification/Tool_Policy.thy ===== *)
theory Tool_Policy
  imports Complex_Main Tool_Patterns Contracts
begin

text \<open>
  The policy on tool actions, \<open>packages/policy/src/tools.ts\<close>, and the typed parameter sets of the
  finance actions, \<open>packages/policy/src/action-specs.ts\<close>: what an agent may do with one action,
  whether an approved action may be queued, and which parameters an action accepts. The
  properties: the exact meaning of each verdict, that finance never runs without a human, and that
  an accepted payment has one canonical text per amount.
\<close>

subsection \<open>Value checks of the typed actions\<close>

record action_param =
  ap_name :: string
  ap_value :: string

definition CURRENCY_DIGITS :: "(string \<times> nat) list" where
  "CURRENCY_DIGITS = [(''EUR'', 2), (''USD'', 2), (''GBP'', 2), (''CHF'', 2), (''JPY'', 0)]"

definition currency_check :: "string \<Rightarrow> string option" where
  "currency_check v =
    (if map_of CURRENCY_DIGITS v \<noteq> None then None
     else Some (''currency must be one of '' @ js_join '', '' (map fst CURRENCY_DIGITS)))"

text \<open>\<open>0|[1-9][0-9]{0,11}\<close>\<close>

definition amount_integer :: "string \<Rightarrow> bool" where
  "amount_integer i \<longleftrightarrow>
    i = ''0'' \<or> (i \<noteq> [] \<and> is_digit (hd i) \<and> hd i \<noteq> CHR ''0'' \<and> list_all is_digit i \<and> length i \<le> 12)"

text \<open>\<open>/^(0|[1-9][0-9]{0,11})(\.[0-9]{1,4})?$/\<close>\<close>

definition amount_shape :: "string \<Rightarrow> bool" where
  "amount_shape v \<longleftrightarrow>
    (case js_split (CHR ''.'') v of
       [i] \<Rightarrow> amount_integer i
     | [i, f] \<Rightarrow> amount_integer i \<and> 1 \<le> length f \<and> length f \<le> 4 \<and> list_all is_digit f
     | _ \<Rightarrow> False)"

definition amount_check :: "string \<Rightarrow> string option" where
  "amount_check v =
    (if amount_shape v \<and> list_ex (\<lambda>c. is_digit c \<and> c \<noteq> CHR ''0'') v then None
     else Some ''amount must be a positive decimal like 120.00'')"

text \<open>\<open>amountPrecision\<close>, over the parameters as an object.\<close>

definition amount_fraction :: "string \<Rightarrow> string" where
  "amount_fraction v = (case js_split (CHR ''.'') v of _ # f # _ \<Rightarrow> f | _ \<Rightarrow> [])"

definition amountPrecision :: "(string \<times> string) list \<Rightarrow> string option" where
  "amountPrecision params =
    (let cur = (case map_of params ''currency'' of None \<Rightarrow> [] | Some c \<Rightarrow> c);
         fraction = amount_fraction (case map_of params ''amount'' of None \<Rightarrow> [] | Some a \<Rightarrow> a)
     in case map_of CURRENCY_DIGITS cur of
          None \<Rightarrow> None
        | Some digits \<Rightarrow>
            if length fraction = digits then None
            else Some (''amount in '' @ cur @ '' must have exactly '' @ show_nat digits @
                       '' digits after the point''))"

definition is_alnum :: "char \<Rightarrow> bool" where
  "is_alnum c \<longleftrightarrow> is_lower c \<or> is_upper c \<or> is_digit c"

definition recipient_check :: "string \<Rightarrow> string option" where
  "recipient_check v =
    (if v \<noteq> [] \<and> is_alnum (hd v) \<and> length v \<le> 200 \<and>
        list_all (\<lambda>c. is_alnum c \<or> c \<in> set ''._:@/+-'') v
     then None
     else Some ''recipient must be an exact identifier (letters, digits and ._:@/+- only)'')"

definition purpose_check :: "string \<Rightarrow> string option" where
  "purpose_check v = (if length v \<le> 500 then None else Some ''purpose must be at most 500 characters'')"

definition oneOf :: "string list \<Rightarrow> string \<Rightarrow> string \<Rightarrow> string option" where
  "oneOf allowed name v =
    (if v \<in> set allowed then None else Some (name @ '' must be one of '' @ js_join '', '' allowed))"

text \<open>\<open>isoDate\<close>: the shape \<open>YYYY-MM-DD\<close>, then a date that \<open>Date\<close> prints back unchanged, which it
  does exactly for the days of the proleptic Gregorian calendar.\<close>

definition is_leap :: "nat \<Rightarrow> bool" where
  "is_leap y \<longleftrightarrow> y mod 4 = 0 \<and> (y mod 100 \<noteq> 0 \<or> y mod 400 = 0)"

definition days_in_month :: "nat \<Rightarrow> nat \<Rightarrow> nat" where
  "days_in_month y m =
    (if m = 2 then (if is_leap y then 29 else 28) else if m \<in> {4, 6, 9, 11} then 30 else 31)"

definition isoDate :: "string \<Rightarrow> string option" where
  "isoDate v =
    (case js_split (CHR ''-'') v of
       [y, m, d] \<Rightarrow>
         if length y = 4 \<and> length m = 2 \<and> length d = 2 \<and> list_all is_digit y \<and>
            list_all is_digit m \<and> list_all is_digit d
         then (if 1 \<le> dec_val m \<and> dec_val m \<le> 12 \<and> 1 \<le> dec_val d \<and>
                  dec_val d \<le> days_in_month (dec_val y) (dec_val m)
               then None else Some ''date must be a real calendar date'')
         else Some ''date must be YYYY-MM-DD''
     | _ \<Rightarrow> Some ''date must be YYYY-MM-DD'')"

definition recurring_check :: "string \<Rightarrow> string option" where
  "recurring_check v =
    (if v = ''false'' then None else Some ''recurring payments are finance.subscription.create'')"

subsection \<open>The typed actions\<close>

type_synonym value_check = "string \<Rightarrow> string option"

record action_spec =
  as_params :: "(string \<times> value_check) list"
  as_whole :: "((string \<times> string) list \<Rightarrow> string option) option"

definition payment_spec :: action_spec where
  "payment_spec =
    \<lparr>as_params = [(''amount'', amount_check), (''currency'', currency_check),
                  (''recipient'', recipient_check), (''purpose'', purpose_check),
                  (''recurring'', recurring_check)],
     as_whole = Some amountPrecision\<rparr>"

definition subscription_spec :: action_spec where
  "subscription_spec =
    \<lparr>as_params = [(''amount'', amount_check), (''currency'', currency_check),
                  (''recipient'', recipient_check), (''purpose'', purpose_check),
                  (''interval'', oneOf [''month'', ''year''] ''interval''),
                  (''first_payment_date'', isoDate)],
     as_whole = Some amountPrecision\<rparr>"

definition ACTION_SPECS :: "(string \<times> action_spec) list" where
  "ACTION_SPECS =
    [(''finance.payment.create'', payment_spec), (''finance.subscription.create'', subscription_spec)]"

definition isFinanceRead :: "string \<Rightarrow> bool" where
  "isFinanceRead actionType \<longleftrightarrow> actionType = ''finance.read''"

definition hasActionSpec :: "string \<Rightarrow> bool" where
  "hasActionSpec actionType \<longleftrightarrow> map_of ACTION_SPECS actionType \<noteq> None"

definition given_params :: "action_param list \<Rightarrow> (string \<times> string) list" where
  "given_params ps = js_map (map (\<lambda>p. (ap_name p, ap_value p)) ps)"

definition param_issues :: "(string \<times> string) list \<Rightarrow> (string \<times> value_check) \<Rightarrow> string list" where
  "param_issues given = (\<lambda>(name, check).
    case map_of given name of
      None \<Rightarrow> [''parameter '' @ quoted name @ '' is missing'']
    | Some v \<Rightarrow> (case check v of None \<Rightarrow> []
                | Some problem \<Rightarrow> [''parameter '' @ quoted name @ '': '' @ problem]))"

definition actionParamIssues :: "string \<Rightarrow> action_param list \<Rightarrow> string list" where
  "actionParamIssues actionType actionParams =
    (case map_of ACTION_SPECS actionType of
       None \<Rightarrow>
         if startsWith actionType ''finance.'' \<and> \<not> isFinanceRead actionType
         then [''finance action '' @ quoted actionType @
               '' has no typed parameter set and cannot be approved'']
         else []
     | Some spec \<Rightarrow>
         let given = given_params actionParams;
             issues = concat (map (param_issues given) (as_params spec)) @
               concat (map (\<lambda>(name, _).
                 if map_of (as_params spec) name = None
                 then [''parameter '' @ quoted name @ '' is not part of '' @ quoted actionType]
                 else []) given)
         in if issues = [] then
              (case as_whole spec of None \<Rightarrow> []
               | Some whole \<Rightarrow> (case whole given of None \<Rightarrow> [] | Some problem \<Rightarrow> [problem]))
            else issues)"

subsection \<open>Tool evaluation\<close>

record tool_lists =
  tl_allow :: "string list"
  tl_requireHumanApproval :: "string list"
  tl_deny :: "string list"

datatype tool_decision = ToolAllow | ToolRequireApproval | ToolDeny

record tool_subject =
  ts_agentId :: string
  ts_financeAgentId :: string

definition covers :: "string list \<Rightarrow> string \<Rightarrow> bool" where
  "covers patterns actionType = list_ex (\<lambda>p. toolPatternCovers p actionType) patterns"

definition evaluateTool :: "tool_lists \<Rightarrow> tool_subject \<Rightarrow> string \<Rightarrow> tool_decision \<times> string" where
  "evaluateTool lsts subject actionType =
    (if covers (tl_deny lsts) actionType
     then (ToolDeny, quoted actionType @ '' is denied by policy'')
     else
       let finance = startsWith actionType ''finance.'' in
       if finance \<and> ts_agentId subject \<noteq> ts_financeAgentId subject
       then (ToolDeny, ''only '' @ quoted (ts_financeAgentId subject) @ '' may use finance tools'')
       else if covers (tl_requireHumanApproval lsts) actionType
       then (ToolRequireApproval, quoted actionType @ '' needs a human approval'')
       else if covers (tl_allow lsts) actionType
       then (if finance \<and> \<not> isFinanceRead actionType
             then (ToolDeny, ''finance write '' @ quoted actionType @ '' always needs approval'')
             else (ToolAllow, quoted actionType @ '' is allowed''))
       else (ToolDeny, quoted actionType @ '' is not granted''))"

definition approvedActionIssues ::
    "tool_lists \<Rightarrow> tool_subject \<Rightarrow> string \<Rightarrow> action_param list \<Rightarrow> string list" where
  "approvedActionIssues lsts subject actionType actionParams =
    (let evaluation = evaluateTool lsts subject actionType in
     if fst evaluation \<noteq> ToolRequireApproval then [snd evaluation]
     else actionParamIssues actionType actionParams)"

definition RISK_RULES :: "(string \<times> risk_level) list" where
  "RISK_RULES =
    [(''finance.*'', RCritical), (''deploy.*'', RHigh), (''mail.*'', RHigh), (''publish.*'', RHigh)]"

definition riskLevelFor :: "string \<Rightarrow> risk_level" where
  "riskLevelFor actionType =
    (case find (\<lambda>rule. toolPatternCovers (fst rule) actionType) RISK_RULES of
       None \<Rightarrow> RMedium | Some rule \<Rightarrow> snd rule)"


subsection \<open>Canonical integers\<close>

lemma amount_integer_digits: "amount_integer i \<Longrightarrow> list_all is_digit i \<and> i \<noteq> []"
  by (auto simp: amount_integer_def is_digit_iff)

lemma amount_integer_inj:
  assumes i: "amount_integer i" and j: "amount_integer j" and eq: "dec_val i = dec_val j"
  shows "i = j"
proof -
  have zero: "dec_val ''0'' = 0" by (simp add: dec_val_def)
  have pos: "dec_val k \<noteq> 0" if "amount_integer k" "k \<noteq> ''0''" for k
  proof -
    have "(0::nat) < 10 ^ (length k - 1)" by simp
    also have "\<dots> \<le> dec_val k" using dec_val_leading [of k] that by (auto simp: amount_integer_def)
    finally show ?thesis by simp
  qed
  have len: "length a \<le> length b" if "amount_integer a" "a \<noteq> ''0''" "amount_integer b" "dec_val a = dec_val b" for a b
  proof (rule ccontr)
    assume "\<not> length a \<le> length b"
    then have "length b \<le> length a - 1" by simp
    then have "(10::nat) ^ length b \<le> 10 ^ (length a - 1)" by simp
    also have "\<dots> \<le> dec_val a" using that(1,2) dec_val_leading [of a] by (auto simp: amount_integer_def)
    finally show False
      using dec_val_bound [of b] amount_integer_digits [OF that(3)] that(4) by simp
  qed
  show ?thesis
  proof (cases "i = ''0'' \<or> j = ''0''")
    case True
    with pos i j eq zero show ?thesis by metis
  next
    case False
    with len i j eq have "length i = length j" by (metis le_antisym)
    with i j eq show ?thesis using dec_val_inj_length amount_integer_digits by blast
  qed
qed

subsection \<open>Amounts\<close>

text \<open>The number an amount denotes.\<close>

definition amount_value :: "string \<Rightarrow> rat" where
  "amount_value v =
    (case js_split (CHR ''.'') v of
       i # f # _ \<Rightarrow> of_nat (dec_val i) + of_nat (dec_val f) / 10 ^ length f
     | [i] \<Rightarrow> of_nat (dec_val i) | [] \<Rightarrow> 0)"

lemma amount_shape_cases:
  assumes "amount_shape v"
  obtains i f where "amount_integer i" and "list_all is_digit f" and "amount_fraction v = f"
    and "amount_value v = of_nat (dec_val i) + of_nat (dec_val f) / 10 ^ length f"
    and "v = (if f = [] then i else i @ CHR ''.'' # f)"
proof -
  have j: "v = js_join ''.'' (js_split (CHR ''.'') v)" by (simp add: js_join_split)
  from assms consider (whole) i where "js_split (CHR ''.'') v = [i]" "amount_integer i"
    | (frac) i f where "js_split (CHR ''.'') v = [i, f]" "amount_integer i" "1 \<le> length f" "list_all is_digit f"
    unfolding amount_shape_def by (auto split: list.splits)
  then show thesis
  proof cases
    case whole
    then show ?thesis using j
      by (intro that [of i "[]"]) (auto simp: amount_fraction_def amount_value_def dec_val_def)
  next
    case frac
    then show ?thesis using j
      by (intro that [of i f]) (auto simp: amount_fraction_def amount_value_def)
  qed
qed

lemma amount_canonical:
  assumes "amount_shape v" and "amount_shape w"
    and len: "length (amount_fraction v) = length (amount_fraction w)"
    and eq: "amount_value v = amount_value w"
  shows "v = w"
proof -
  from assms(1) obtain i f where v: "amount_integer i" "list_all is_digit f" "amount_fraction v = f"
    "amount_value v = of_nat (dec_val i) + of_nat (dec_val f) / 10 ^ length f"
    "v = (if f = [] then i else i @ CHR ''.'' # f)" by (rule amount_shape_cases)
  from assms(2) obtain j g where w: "amount_integer j" "list_all is_digit g" "amount_fraction w = g"
    "amount_value w = of_nat (dec_val j) + of_nat (dec_val g) / 10 ^ length g"
    "w = (if g = [] then j else j @ CHR ''.'' # g)" by (rule amount_shape_cases)
  define d where "d = length f"
  have lens: "length f = d" "length g = d" using len v(3) w(3) by (auto simp: d_def)
  have "of_nat (dec_val i) * 10 ^ d + of_nat (dec_val f) = (of_nat (dec_val j) * 10 ^ d + of_nat (dec_val g) :: rat)"
    using eq v(4) w(4) lens by (simp add: field_simps)
  then have "of_nat (dec_val i * 10 ^ d + dec_val f) = (of_nat (dec_val j * 10 ^ d + dec_val g) :: rat)"
    by simp
  then have n: "dec_val i * 10 ^ d + dec_val f = dec_val j * 10 ^ d + dec_val g"
    by (simp only: of_nat_eq_iff)
  have b: "dec_val f < 10 ^ d" "dec_val g < 10 ^ d"
    using dec_val_bound v(2) w(2) lens by metis+
  have "dec_val i = (dec_val i * 10 ^ d + dec_val f) div 10 ^ d" using b by simp
  also have "\<dots> = dec_val j" using b n by simp
  finally have ij: "dec_val i = dec_val j" .
  with n have "dec_val f = dec_val g" by simp
  then have "f = g" using dec_val_inj_length v(2) w(2) lens by metis
  moreover have "i = j" using amount_integer_inj v(1) w(1) ij by blast
  ultimately show ?thesis using v(5) w(5) by simp
qed

subsection \<open>When an action is accepted\<close>

lemma param_issues_Nil:
  "param_issues given (n, c) = [] \<longleftrightarrow> (\<exists>v. map_of given n = Some v \<and> c v = None)"
  by (auto simp: param_issues_def split: option.splits)

lemma actionParamIssues_Nil_iff:
  assumes "map_of ACTION_SPECS actionType = Some spec" and "as_whole spec = Some whole"
  shows "actionParamIssues actionType ps = [] \<longleftrightarrow>
    (\<forall>(n, c) \<in> set (as_params spec). \<exists>v. map_of (given_params ps) n = Some v \<and> c v = None) \<and>
    ap_name ` set ps \<subseteq> fst ` set (as_params spec) \<and> whole (given_params ps) = None"
proof -
  define own where "own = concat (map (param_issues (given_params ps)) (as_params spec))"
  define extra where "extra = concat (map (\<lambda>(name, _).
                 if map_of (as_params spec) name = None
                 then [''parameter '' @ quoted name @ '' is not part of '' @ quoted actionType]
                 else []) (given_params ps))"
  have keys: "fst ` set (given_params ps) = ap_name ` set ps"
    by (simp add: given_params_def image_image)
  have "extra = [] \<longleftrightarrow> (\<forall>p \<in> set (given_params ps). fst p \<in> fst ` set (as_params spec))"
    unfolding extra_def concat_map_Nil_iff by (simp add: map_of_eq_None_iff split_beta)
  then have extra: "extra = [] \<longleftrightarrow> ap_name ` set ps \<subseteq> fst ` set (as_params spec)"
    unfolding keys [symmetric] by blast
  have own: "own = [] \<longleftrightarrow>
      (\<forall>(n, c) \<in> set (as_params spec). \<exists>v. map_of (given_params ps) n = Some v \<and> c v = None)"
    unfolding own_def concat_map_Nil_iff using param_issues_Nil [of "given_params ps"] by (auto simp: split_beta)
  have "actionParamIssues actionType ps = [] \<longleftrightarrow> own @ extra = [] \<and> whole (given_params ps) = None"
    unfolding actionParamIssues_def assms(1) option.case Let_def own_def [symmetric] extra_def [symmetric] assms(2)
    by (simp split: option.splits)
  then show ?thesis using own extra by simp
qed

lemma typed_specs: "map_of ACTION_SPECS ''finance.payment.create'' = Some payment_spec"
  "map_of ACTION_SPECS ''finance.subscription.create'' = Some subscription_spec"
  by (simp_all add: ACTION_SPECS_def)

lemma approved_no_param_issues:
  "approvedActionIssues lsts subject actionType ps = [] \<Longrightarrow> actionParamIssues actionType ps = []"
  by (auto simp: approvedActionIssues_def Let_def split: if_splits)

lemma typed_action_amount:
  assumes "actionType \<in> {''finance.payment.create'', ''finance.subscription.create''}"
    and "actionParamIssues actionType ps = []"
  obtains amt cur digits where "map_of (given_params ps) ''amount'' = Some amt"
    and "map_of (given_params ps) ''currency'' = Some cur" and "amount_shape amt"
    and "map_of CURRENCY_DIGITS cur = Some digits" and "length (amount_fraction amt) = digits"
proof -
  have "\<exists>spec. map_of ACTION_SPECS actionType = Some spec \<and> as_whole spec = Some amountPrecision \<and>
      {(''amount'', amount_check), (''currency'', currency_check)} \<subseteq> set (as_params spec)"
    using assms(1) typed_specs by (auto simp: payment_spec_def subscription_spec_def)
  then obtain spec where s: "map_of ACTION_SPECS actionType = Some spec"
    "as_whole spec = Some amountPrecision"
    and m: "(''amount'', amount_check) \<in> set (as_params spec)" "(''currency'', currency_check) \<in> set (as_params spec)"
    by auto
  note iff = actionParamIssues_Nil_iff [OF s, of ps, THEN iffD1, OF assms(2)]
  from iff m(1) obtain amt where a: "map_of (given_params ps) ''amount'' = Some amt" "amount_check amt = None"
    by blast
  from iff m(2) obtain cur where c: "map_of (given_params ps) ''currency'' = Some cur" "currency_check cur = None"
    by blast
  from c(2) obtain digits where d: "map_of CURRENCY_DIGITS cur = Some digits"
    by (auto simp: currency_check_def split: if_splits)
  have "length (amount_fraction amt) = digits"
    using iff a c d by (auto simp: amountPrecision_def Let_def split: if_splits)
  moreover have "amount_shape amt" using a(2) by (auto simp: amount_check_def split: if_splits)
  ultimately show thesis using a c d by (intro that) auto
qed

text \<open>The exact verdicts. An action runs without a human exactly when no deny and no approval
  pattern covers it, an allow pattern does, and it is not a finance action other than
  \<open>finance.read\<close> by the finance agent. An action may be put before a human exactly when no deny
  pattern covers it, an approval pattern does, and a finance action belongs to the finance agent.
  Everything else is denied.\<close>

theorem evaluateTool_verdicts:
  "(fst (evaluateTool l s a) = ToolAllow \<longleftrightarrow>
      \<not> covers (tl_deny l) a \<and> \<not> covers (tl_requireHumanApproval l) a \<and> covers (tl_allow l) a \<and>
      (startsWith a ''finance.'' \<longrightarrow> ts_agentId s = ts_financeAgentId s \<and> a = ''finance.read'')) \<and>
   (fst (evaluateTool l s a) = ToolRequireApproval \<longleftrightarrow>
      \<not> covers (tl_deny l) a \<and> covers (tl_requireHumanApproval l) a \<and>
      (startsWith a ''finance.'' \<longrightarrow> ts_agentId s = ts_financeAgentId s))"
  by (auto simp: evaluateTool_def Let_def isFinanceRead_def)

definition example_lists :: tool_lists where
  "example_lists = \<lparr>tl_allow = [''web.search''], tl_requireHumanApproval = [''finance.*''], tl_deny = [''mail.*'']\<rparr>"

definition example_subject :: tool_subject where
  "example_subject = \<lparr>ts_agentId = ''finance'', ts_financeAgentId = ''finance''\<rparr>"

definition decision_rank :: "tool_decision \<Rightarrow> nat" where
  "decision_rank d = (case d of ToolDeny \<Rightarrow> 0 | ToolRequireApproval \<Rightarrow> 1 | ToolAllow \<Rightarrow> 2)"

text \<open>The deny list only narrows. Extending the deny list of an agent never turns a denied
  action into an allowed or approvable one, and never an approvable one into an allowed one.\<close>

theorem deny_only_narrows:
  "decision_rank (fst (evaluateTool (l\<lparr>tl_deny := tl_deny l @ extra\<rparr>) s a)) \<le>
   decision_rank (fst (evaluateTool l s a))"
  by (auto simp: evaluateTool_def Let_def covers_def decision_rank_def)

text \<open>One canonical form per amount. If two finance actions of the same typed kind both pass
  the policy with the same currency and their amounts denote the same number, the amounts are the
  same text, so the approval hash and the card never differ over formatting.\<close>

theorem approved_amount_canonical:
  assumes "actionType \<in> {''finance.payment.create'', ''finance.subscription.create''}"
    and "approvedActionIssues l s actionType ps = []" and "approvedActionIssues l' s' actionType qs = []"
    and "map_of (given_params ps) ''currency'' = map_of (given_params qs) ''currency''"
    and "map_of (given_params ps) ''amount'' = Some v" and "map_of (given_params qs) ''amount'' = Some w"
    and "amount_value v = amount_value w"
  shows "v = w"
proof -
  obtain v' c d where p': "map_of (given_params ps) ''amount'' = Some v'"
      and p: "map_of (given_params ps) ''currency'' = Some c" "amount_shape v'"
      "map_of CURRENCY_DIGITS c = Some d" "length (amount_fraction v') = d"
    by (rule typed_action_amount [OF assms(1) approved_no_param_issues [OF assms(2)]])
  obtain w' c' d' where q': "map_of (given_params qs) ''amount'' = Some w'"
      and q: "map_of (given_params qs) ''currency'' = Some c'" "amount_shape w'"
      "map_of CURRENCY_DIGITS c' = Some d'" "length (amount_fraction w') = d'"
    by (rule typed_action_amount [OF assms(1) approved_no_param_issues [OF assms(3)]])
  have same: "v' = v" "w' = w" using p' q' assms(5,6) by simp_all
  have "length (amount_fraction v) = length (amount_fraction w)" using p q assms(4) same by simp
  then show ?thesis using amount_canonical p(2) q(2) assms(7) same by blast
qed

definition example_payment :: "action_param list" where
  "example_payment =
    [\<lparr>ap_name = ''amount'', ap_value = ''120.00''\<rparr>, \<lparr>ap_name = ''currency'', ap_value = ''EUR''\<rparr>,
     \<lparr>ap_name = ''recipient'', ap_value = ''DE02120300000000202051''\<rparr>,
     \<lparr>ap_name = ''purpose'', ap_value = ''hosting''\<rparr>, \<lparr>ap_name = ''recurring'', ap_value = ''false''\<rparr>]"



end
