(* ===== verification/Compile.thy ===== *)
theory Compile
  imports Tool_Policy
begin

text \<open>
  The permission compiler, \<open>packages/policy/src/compile.ts\<close>, with the catalog vocabulary of
  \<open>packages/contracts/src/tool-catalog.ts\<close>: attachments of catalog entries become three lists of tools,
  native dependencies are propagated to a fixed point, adapter prerequisites are reported, and two
  compiled results are compared for widening. A \<open>Set\<close> is a list in insertion order, a \<open>Record\<close> an
  association list.

  The properties: the propagation loop ends and computes the least closed set of allowed tools; finance
  tools reach no agent but the finance agent; the three lists are disjoint when no tool is attached in two
  modes; what the tool policy decides on the compiled lists is the access level; and a change reported as
  not widening raises no tool's access level.
\<close>

subsection \<open>Catalog vocabulary\<close>

datatype entry_kind = KNative | KGateway | KExecutor | KCustomHttps | KUtility

datatype risk_floor = FloorAllow | FloorRequireApproval

datatype attachment_mode = ModeAllow | ModeRequireApproval | ModeDisabled

datatype access_level = LevelDeny | LevelRequireApproval | LevelAllow

record tool_attachment =
  at_entryId :: string
  at_pinnedVersion :: "nat option"
  at_mode :: attachment_mode
  at_settings :: "(string \<times> json) list"

definition riskFloorAllows :: "attachment_mode \<Rightarrow> risk_floor \<Rightarrow> bool" where
  "riskFloorAllows mode riskFloor \<longleftrightarrow> mode \<noteq> ModeAllow \<or> riskFloor = FloorAllow"

fun MODES_BY_KIND :: "entry_kind \<Rightarrow> attachment_mode list" where
  "MODES_BY_KIND KNative = [ModeAllow, ModeDisabled]"
| "MODES_BY_KIND KGateway = [ModeAllow, ModeDisabled]"
| "MODES_BY_KIND KExecutor = [ModeRequireApproval, ModeDisabled]"
| "MODES_BY_KIND KCustomHttps = [ModeRequireApproval, ModeDisabled]"
| "MODES_BY_KIND KUtility = [ModeRequireApproval, ModeDisabled]"

definition modeSupportedByKind :: "entry_kind \<Rightarrow> attachment_mode \<Rightarrow> bool" where
  "modeSupportedByKind kind mode \<longleftrightarrow> mode \<in> set (MODES_BY_KIND kind)"

subsection \<open>Native dependencies\<close>

definition NATIVE_TOOL_DEPENDENCIES :: "(string \<times> string list) list" where
  "NATIVE_TOOL_DEPENDENCIES =
    [(''workspace.write'', [''repository.read'']),
     (''tests.run'', [''repository.read'', ''workspace.write''])]"

definition native_deps :: "string \<Rightarrow> string list" where
  "native_deps tool = (case map_of NATIVE_TOOL_DEPENDENCIES tool of None \<Rightarrow> [] | Some ds \<Rightarrow> ds)"

definition ADAPTER_NATIVE_PREREQUISITES :: "runtime_adapter_id \<Rightarrow> (string \<times> string list) list" where
  "ADAPTER_NATIVE_PREREQUISITES adapter =
    (if adapter = Codex then [(''repository.read'', [''tests.run''])] else [])"

text \<open>Every tool some dependency names: what bounds both walks over the table.\<close>

definition dep_targets :: "string set" where
  "dep_targets = {''repository.read'', ''workspace.write''}"

lemma native_deps_targets: "set (native_deps tool) \<subseteq> dep_targets"
  by (auto simp: native_deps_def NATIVE_TOOL_DEPENDENCIES_def dep_targets_def)

lemma finite_dep_targets [simp]: "finite dep_targets"
  by (simp add: dep_targets_def)

text \<open>\<open>transitiveNativeDependencies\<close>: the stack is popped and pushed at its end.\<close>

function walk_dependencies :: "string list \<Rightarrow> string list \<Rightarrow> string list" where
  "walk_dependencies stack result =
    (if stack = [] then result
     else
       let next = last stack; stack' = butlast stack in
       if next \<in> set result then walk_dependencies stack' result
       else walk_dependencies (stack' @ native_deps next) (result @ [next]))"
  by pat_completeness auto

termination
proof (relation "inv_image (less_than <*lex*> less_than)
    (\<lambda>(stack, result). (card ((dep_targets \<union> set stack) - set result), length stack))", goal_cases)
  case 1
  then show ?case by auto
next
  case (2 stack result x xa)
  let ?new = "(dep_targets \<union> set (butlast stack)) - set result" and ?old = "(dep_targets \<union> set stack) - set result"
  have "?new \<subseteq> ?old" by (auto dest: in_set_butlastD)
  then have "card ?new \<le> card ?old" by (intro card_mono) auto
  with 2 show ?case by auto
next
  case (3 stack result x xa)
  let ?new = "(dep_targets \<union> set (butlast stack @ native_deps (last stack))) - set (result @ [last stack])"
    and ?old = "(dep_targets \<union> set stack) - set result"
  have "?new \<subseteq> ?old" using native_deps_targets by (auto dest: in_set_butlastD)
  moreover have "last stack \<in> ?old - ?new" using 3 by auto
  ultimately have "card ?new < card ?old" by (intro psubset_card_mono) auto
  with 3 show ?case by simp
qed

definition transitiveNativeDependencies :: "string \<Rightarrow> string list" where
  "transitiveNativeDependencies toolName = walk_dependencies (native_deps toolName) []"

subsection \<open>Compiling attachments\<close>

record compiled_catalog_entry =
  ce_kind :: entry_kind
  ce_implementationKey :: string

record compile_input =
  ci_agentId :: string
  ci_financeAgentId :: string
  ci_adapter :: runtime_adapter_id
  ci_attachments :: "tool_attachment list"
  ci_catalog :: "(string \<times> compiled_catalog_entry) list"

record compiled_tool_permissions =
  cp_allow :: "string list"
  cp_requireApproval :: "string list"
  cp_deny :: "string list"
  cp_impliedBy :: "(string \<times> string list) list"
  cp_missingPrerequisites :: "(string \<times> string list) list"
  cp_memoryWriteAllowed :: bool

definition isFinanceTool :: "string \<Rightarrow> bool" where
  "isFinanceTool key = toolPatternCovers FINANCE_TOOLS key"

text \<open>The compiler's local variables.\<close>

record compile_state =
  cs_allow :: "string list"
  cs_requireApproval :: "string list"
  cs_deny :: "string list"
  cs_impliedBy :: "(string \<times> string list) list"
  cs_missing :: "(string \<times> string list) list"
  cs_changed :: bool

definition attach :: "compile_input \<Rightarrow> tool_attachment \<Rightarrow> compile_state \<Rightarrow> compile_state" where
  "attach input a st =
    (case map_of (ci_catalog input) (at_entryId a) of
       None \<Rightarrow> st
     | Some entry \<Rightarrow>
         let key = ce_implementationKey entry in
         if isFinanceTool key \<and> ci_agentId input \<noteq> ci_financeAgentId input then st
         else
           case at_mode a of
             ModeAllow \<Rightarrow> st\<lparr>cs_allow := js_add key (cs_allow st)\<rparr>
           | ModeRequireApproval \<Rightarrow> st\<lparr>cs_requireApproval := js_add key (cs_requireApproval st)\<rparr>
           | ModeDisabled \<Rightarrow> st\<lparr>cs_deny := js_add key (cs_deny st)\<rparr>)"

definition liveImplementationKeys :: "compile_input \<Rightarrow> string list" where
  "liveImplementationKeys input = js_set (map (\<lambda>(_, e). ce_implementationKey e) (ci_catalog input))"

text \<open>\<open>record[key] ??= new Set(); record[key].add(x)\<close>.\<close>

definition record_add :: "string \<Rightarrow> string \<Rightarrow> (string \<times> string list) list \<Rightarrow> (string \<times> string list) list" where
  "record_add key x rec =
    AList.update key (js_add x (case map_of rec key of None \<Rightarrow> [] | Some xs \<Rightarrow> xs)) rec"

definition imply_one :: "string list \<Rightarrow> string \<Rightarrow> string \<Rightarrow> compile_state \<Rightarrow> compile_state" where
  "imply_one live tool implied st =
    (if implied \<notin> set live
     then st\<lparr>cs_missing := record_add tool implied (cs_missing st), cs_deny := js_add implied (cs_deny st)\<rparr>
     else if implied \<in> set (cs_deny st) \<or> implied \<in> set (cs_requireApproval st) then st
     else
       let st' = (if implied \<notin> set (cs_allow st)
                  then st\<lparr>cs_allow := js_add implied (cs_allow st), cs_changed := True\<rparr> else st)
       in st'\<lparr>cs_impliedBy := record_add implied tool (cs_impliedBy st')\<rparr>)"

definition imply_tool :: "string list \<Rightarrow> string \<Rightarrow> compile_state \<Rightarrow> compile_state" where
  "imply_tool live tool st = fold (imply_one live tool) (native_deps tool) st"

text \<open>One round of the \<open>while\<close> loop: over a copy of \<open>allow\<close>.\<close>

definition imply_round :: "string list \<Rightarrow> compile_state \<Rightarrow> compile_state" where
  "imply_round live st = fold (imply_tool live) (cs_allow st) (st\<lparr>cs_changed := False\<rparr>)"

text \<open>What the loop body keeps: \<open>allow\<close> grows only by dependency targets, \<open>changed\<close> says whether
  it grew, and no denial is taken back.\<close>

definition grows :: "compile_state \<Rightarrow> compile_state \<Rightarrow> bool" where
  "grows st st' \<longleftrightarrow>
    set (cs_allow st) \<subseteq> set (cs_allow st') \<and> set (cs_allow st') \<subseteq> set (cs_allow st) \<union> dep_targets \<and>
    (cs_changed st' \<longleftrightarrow> cs_changed st \<or> set (cs_allow st) \<noteq> set (cs_allow st')) \<and>
    set (cs_deny st) \<subseteq> set (cs_deny st')"

lemma grows_refl [simp]: "grows st st"
  by (simp add: grows_def)

lemma grows_trans: "grows a b \<Longrightarrow> grows b c \<Longrightarrow> grows a c"
  by (auto simp: grows_def)

lemma grows_fold: "(\<And>x s. x \<in> set xs \<Longrightarrow> grows s (f x s)) \<Longrightarrow> grows st (fold f xs st)"
  by (induction xs arbitrary: st) (auto intro: grows_trans)

lemma grows_imply_one: "implied \<in> dep_targets \<Longrightarrow> grows st (imply_one live tool implied st)"
  by (auto simp: imply_one_def grows_def Let_def)

lemma grows_imply_tool: "grows st (imply_tool live tool st)"
  unfolding imply_tool_def using native_deps_targets by (blast intro: grows_fold grows_imply_one)

lemma grows_imply_round: "grows (st\<lparr>cs_changed := False\<rparr>) (imply_round live st)"
  unfolding imply_round_def by (intro grows_fold grows_imply_tool)

function propagate :: "string list \<Rightarrow> compile_state \<Rightarrow> compile_state" where
  "propagate live st =
    (let st' = imply_round live st in if cs_changed st' then propagate live st' else st')"
  by pat_completeness auto
termination
proof (relation "measure (\<lambda>(_, st). card (dep_targets - set (cs_allow st)))", goal_cases)
  case (2 live st st')
  from grows_imply_round [of st live] 2
  have "set (cs_allow st) \<subset> set (cs_allow st')" "set (cs_allow st') \<subseteq> set (cs_allow st) \<union> dep_targets"
    by (auto simp: grows_def)
  then have "dep_targets - set (cs_allow st') \<subset> dep_targets - set (cs_allow st)" by blast
  then show ?case by (auto intro: psubset_card_mono)
qed simp

declare propagate.simps [simp del] walk_dependencies.simps [simp del]

text \<open>\<open>toSortedRecord\<close>.\<close>

definition toSortedRecord :: "(string \<times> string list) list \<Rightarrow> (string \<times> string list) list" where
  "toSortedRecord source = map (\<lambda>(k, vs). (k, sort vs)) (sort_key fst source)"

definition MEMORY_WRITE :: string where
  "MEMORY_WRITE = ''memory.write''"

definition adapter_missing ::
    "runtime_adapter_id \<Rightarrow> string list \<Rightarrow> (string \<times> string list) list \<Rightarrow> (string \<times> string list) list" where
  "adapter_missing adapter allow missing =
    fold (\<lambda>(tool, requires) m.
        if tool \<notin> set allow then m
        else fold (record_add tool) (filter (\<lambda>r. r \<notin> set allow) requires) m)
      (ADAPTER_NATIVE_PREREQUISITES adapter) missing"

definition compile_start :: compile_state where
  "compile_start =
    \<lparr>cs_allow = [], cs_requireApproval = [], cs_deny = [], cs_impliedBy = [], cs_missing = [], cs_changed = True\<rparr>"

definition compileAttachments :: "compile_input \<Rightarrow> compiled_tool_permissions" where
  "compileAttachments input =
    (let attached = fold (attach input) (ci_attachments input) compile_start;
         st = propagate (liveImplementationKeys input) attached;
         missing = adapter_missing (ci_adapter input) (cs_allow st) (cs_missing st);
         deny = (if MEMORY_WRITE \<notin> set (cs_allow st) then js_add MEMORY_WRITE (cs_deny st) else cs_deny st)
     in \<lparr>cp_allow = sort (cs_allow st), cp_requireApproval = sort (cs_requireApproval st), cp_deny = sort deny,
         cp_impliedBy = toSortedRecord (cs_impliedBy st), cp_missingPrerequisites = toSortedRecord missing,
         cp_memoryWriteAllowed = (MEMORY_WRITE \<in> set (cs_allow st))\<rparr>)"

subsection \<open>Comparing compiled permissions\<close>

fun ACCESS_LEVEL_RANK :: "access_level \<Rightarrow> nat" where
  "ACCESS_LEVEL_RANK LevelDeny = 0"
| "ACCESS_LEVEL_RANK LevelRequireApproval = 1"
| "ACCESS_LEVEL_RANK LevelAllow = 2"

definition accessLevel :: "compiled_tool_permissions \<Rightarrow> string \<Rightarrow> access_level" where
  "accessLevel compiled tool =
    (if tool \<in> set (cp_allow compiled) then LevelAllow
     else if tool \<in> set (cp_requireApproval compiled) then LevelRequireApproval else LevelDeny)"

record permission_widening =
  pw_tool :: string
  pw_from :: access_level
  pw_to :: access_level

definition describeWidenedTools ::
    "compiled_tool_permissions \<Rightarrow> compiled_tool_permissions \<Rightarrow> permission_widening list" where
  "describeWidenedTools before after =
    (let everyTool = js_set (cp_allow before @ cp_requireApproval before @ cp_deny before @
           cp_allow after @ cp_requireApproval after @ cp_deny after);
         widenings = concat (map (\<lambda>tool.
           let f = accessLevel before tool; t = accessLevel after tool in
           if ACCESS_LEVEL_RANK t > ACCESS_LEVEL_RANK f
           then [\<lparr>pw_tool = tool, pw_from = f, pw_to = t\<rparr>] else []) everyTool)
     in sort_key pw_tool widenings)"

definition widenedTools :: "compiled_tool_permissions \<Rightarrow> compiled_tool_permissions \<Rightarrow> string list" where
  "widenedTools before after = map pw_tool (describeWidenedTools before after)"

subsection \<open>Enforcement shapes\<close>

definition compiledToolPolicyLists :: "compiled_tool_permissions \<Rightarrow> tool_lists" where
  "compiledToolPolicyLists compiled =
    \<lparr>tl_allow = cp_allow compiled, tl_requireHumanApproval = cp_requireApproval compiled,
     tl_deny = cp_deny compiled\<rparr>"

record agent_permissions =
  tools_allow :: "string list"
  tools_require_human_approval :: "string list"
  tools_deny :: "string list"
  observe_system :: "bool option"

definition compiledAgentPermissions ::
    "compiled_tool_permissions \<Rightarrow> string \<Rightarrow> string \<Rightarrow> bool \<Rightarrow> agent_permissions" where
  "compiledAgentPermissions compiled agentId financeAgentId observeSystem =
    \<lparr>tools_allow = cp_allow compiled, tools_require_human_approval = cp_requireApproval compiled,
     tools_deny = (if agentId = financeAgentId then cp_deny compiled else sort (cp_deny compiled @ [FINANCE_TOOLS])),
     observe_system = (if observeSystem then Some True else None)\<rparr>"

subsection \<open>Specification\<close>

text \<open>The tools an input attaches in a mode: live entries only, and finance tools only for the finance agent.\<close>

definition attached :: "compile_input \<Rightarrow> attachment_mode \<Rightarrow> string set" where
  "attached input mode =
    {ce_implementationKey e | a e. a \<in> set (ci_attachments input) \<and> at_mode a = mode \<and>
      map_of (ci_catalog input) (at_entryId a) = Some e \<and>
      \<not> (isFinanceTool (ce_implementationKey e) \<and> ci_agentId input \<noteq> ci_financeAgentId input)}"

text \<open>What an agent may use outright: what is attached so, and what an allowed tool needs, unless that
  is restricted or has no live catalog entry.\<close>

inductive_set effective_allow :: "compile_input \<Rightarrow> string set" for input where
  direct: "t \<in> attached input ModeAllow \<Longrightarrow> t \<in> effective_allow input"
| implied: "t \<in> effective_allow input \<Longrightarrow> d \<in> set (native_deps t) \<Longrightarrow>
    d \<in> set (liveImplementationKeys input) \<Longrightarrow> d \<notin> attached input ModeDisabled \<Longrightarrow>
    d \<notin> attached input ModeRequireApproval \<Longrightarrow> d \<in> effective_allow input"

subsection \<open>Library: attaching\<close>

definition attach_key :: "compile_input \<Rightarrow> tool_attachment \<Rightarrow> string set" where
  "attach_key input a =
    {ce_implementationKey e | e. map_of (ci_catalog input) (at_entryId a) = Some e \<and>
      \<not> (isFinanceTool (ce_implementationKey e) \<and> ci_agentId input \<noteq> ci_financeAgentId input)}"

lemma attach_sets:
  "set (cs_allow (attach input a st)) = set (cs_allow st) \<union> (if at_mode a = ModeAllow then attach_key input a else {})"
  "set (cs_requireApproval (attach input a st)) =
    set (cs_requireApproval st) \<union> (if at_mode a = ModeRequireApproval then attach_key input a else {})"
  "set (cs_deny (attach input a st)) = set (cs_deny st) \<union> (if at_mode a = ModeDisabled then attach_key input a else {})"
  by (auto simp: attach_def attach_key_def Let_def split: option.splits attachment_mode.splits)

lemma attach_distinct:
  "distinct (cs_allow st) \<and> distinct (cs_requireApproval st) \<and> distinct (cs_deny st) \<Longrightarrow>
    distinct (cs_allow (attach input a st)) \<and> distinct (cs_requireApproval (attach input a st)) \<and>
    distinct (cs_deny (attach input a st))"
  by (auto simp: attach_def Let_def split: option.splits attachment_mode.splits)

lemma fold_attach_sets:
  "set (cs_allow (fold (attach input) as st)) = set (cs_allow st) \<union> (\<Union>a \<in> {a \<in> set as. at_mode a = ModeAllow}. attach_key input a)"
  "set (cs_requireApproval (fold (attach input) as st)) =
    set (cs_requireApproval st) \<union> (\<Union>a \<in> {a \<in> set as. at_mode a = ModeRequireApproval}. attach_key input a)"
  "set (cs_deny (fold (attach input) as st)) = set (cs_deny st) \<union> (\<Union>a \<in> {a \<in> set as. at_mode a = ModeDisabled}. attach_key input a)"
  by (induction as arbitrary: st) (auto simp: attach_sets split: if_splits)

definition attached_state :: "compile_input \<Rightarrow> compile_state" where
  "attached_state input = fold (attach input) (ci_attachments input) compile_start"

lemma attached_state_sets:
  "set (cs_allow (attached_state input)) = attached input ModeAllow"
  "set (cs_requireApproval (attached_state input)) = attached input ModeRequireApproval"
  "set (cs_deny (attached_state input)) = attached input ModeDisabled"
  by (auto simp: attached_state_def fold_attach_sets compile_start_def attached_def attach_key_def)

lemma attached_live: "attached input mode \<subseteq> set (liveImplementationKeys input)"
  by (force simp: attached_def liveImplementationKeys_def dest: map_of_SomeD)

subsection \<open>Library: the propagation loop\<close>

text \<open>What every step keeps: the approval list, the explicit denials, and that a further denial is a
  dependency without a live entry; the lists stay without repetitions.\<close>

definition loop_inv :: "string set \<Rightarrow> string set \<Rightarrow> string list \<Rightarrow> compile_state \<Rightarrow> bool" where
  "loop_inv D A live st \<longleftrightarrow>
    set (cs_requireApproval st) = A \<and> D \<subseteq> set (cs_deny st) \<and> set (cs_deny st) \<subseteq> D \<union> (dep_targets - set live) \<and>
    distinct (cs_allow st) \<and> distinct (cs_requireApproval st) \<and> distinct (cs_deny st)"

definition closed_under :: "string set \<Rightarrow> string set \<Rightarrow> string list \<Rightarrow> string set \<Rightarrow> bool" where
  "closed_under D A live S \<longleftrightarrow>
    (\<forall>t \<in> S. \<forall>d \<in> set (native_deps t). d \<in> set live \<and> d \<notin> D \<and> d \<notin> A \<longrightarrow> d \<in> S)"

lemma loop_inv_changed [simp]: "loop_inv D A live (st\<lparr>cs_changed := b\<rparr>) = loop_inv D A live st"
  by (simp add: loop_inv_def)

lemma loop_inv_fold:
  "(\<And>x s. x \<in> set xs \<Longrightarrow> loop_inv D A live s \<Longrightarrow> loop_inv D A live (f x s)) \<Longrightarrow> loop_inv D A live st \<Longrightarrow>
    loop_inv D A live (fold f xs st)"
  by (induction xs arbitrary: st) auto

lemma loop_inv_imply_one:
  "implied \<in> dep_targets \<Longrightarrow> loop_inv D A live st \<Longrightarrow> loop_inv D A live (imply_one live tool implied st)"
  by (auto simp: imply_one_def loop_inv_def Let_def)

lemma loop_inv_imply_tool: "loop_inv D A live st \<Longrightarrow> loop_inv D A live (imply_tool live tool st)"
  unfolding imply_tool_def using native_deps_targets by (blast intro: loop_inv_fold loop_inv_imply_one)

lemma loop_inv_imply_round: "loop_inv D A live st \<Longrightarrow> loop_inv D A live (imply_round live st)"
  unfolding imply_round_def by (intro loop_inv_fold loop_inv_imply_tool) auto

lemma loop_inv_propagate: "loop_inv D A live st \<Longrightarrow> loop_inv D A live (propagate live st)"
proof (induction live st rule: propagate.induct)
  case (1 live st)
  then show ?case by (subst propagate.simps) (simp add: Let_def loop_inv_imply_round)
qed

text \<open>A step stays inside every closed set, and handles every dependency of its tool.\<close>

lemma imply_one_sound:
  assumes "closed_under D A live S" "tool \<in> S" "implied \<in> set (native_deps tool)" "loop_inv D A live st"
    "set (cs_allow st) \<subseteq> S"
  shows "set (cs_allow (imply_one live tool implied st)) \<subseteq> S"
  using assms by (auto simp: imply_one_def loop_inv_def closed_under_def Let_def)

lemma imply_one_complete:
  assumes "implied \<in> set live" "implied \<notin> D" "implied \<notin> A" "loop_inv D A live st"
  shows "implied \<in> set (cs_allow (imply_one live tool implied st))"
  using assms by (auto simp: imply_one_def loop_inv_def Let_def)

lemma imply_tool_sound:
  assumes "closed_under D A live S" "tool \<in> S" "loop_inv D A live st" "set (cs_allow st) \<subseteq> S"
  shows "set (cs_allow (imply_tool live tool st)) \<subseteq> S"
proof -
  have "set ds \<subseteq> set (native_deps tool) \<Longrightarrow> loop_inv D A live st \<Longrightarrow> set (cs_allow st) \<subseteq> S \<Longrightarrow>
    set (cs_allow (fold (imply_one live tool) ds st)) \<subseteq> S" for ds st
  proof (induction ds arbitrary: st)
    case (Cons d ds)
    then have d: "d \<in> set (native_deps tool)" "d \<in> dep_targets" using native_deps_targets [of tool] by auto
    show ?case
      using Cons.IH [of "imply_one live tool d st"] Cons.prems imply_one_sound [OF assms(1,2) d(1)]
        loop_inv_imply_one [OF d(2)] by simp
  qed simp
  with assms show ?thesis by (simp add: imply_tool_def)
qed

lemma imply_tool_complete:
  assumes "d \<in> set (native_deps tool)" "d \<in> set live" "d \<notin> D" "d \<notin> A" "loop_inv D A live st"
  shows "d \<in> set (cs_allow (imply_tool live tool st))"
proof -
  from split_list [OF assms(1)] obtain xs ys where ds: "native_deps tool = xs @ d # ys" by blast
  let ?st = "fold (imply_one live tool) xs st"
  have targets: "set (xs @ d # ys) \<subseteq> dep_targets" using native_deps_targets [of tool] ds by simp
  then have "loop_inv D A live ?st" using assms(5) by (intro loop_inv_fold loop_inv_imply_one) auto
  with assms have "d \<in> set (cs_allow (imply_one live tool d ?st))" by (intro imply_one_complete)
  moreover have "grows (imply_one live tool d ?st) (fold (imply_one live tool) ys (imply_one live tool d ?st))"
    using targets by (intro grows_fold grows_imply_one) auto
  ultimately show ?thesis by (auto simp: imply_tool_def ds grows_def)
qed

lemma imply_round_sound:
  assumes "closed_under D A live S" "loop_inv D A live st" "set (cs_allow st) \<subseteq> S"
  shows "set (cs_allow (imply_round live st)) \<subseteq> S"
proof -
  have "set ts \<subseteq> S \<Longrightarrow> loop_inv D A live s \<Longrightarrow> set (cs_allow s) \<subseteq> S \<Longrightarrow>
    set (cs_allow (fold (imply_tool live) ts s)) \<subseteq> S" for ts s
    by (induction ts arbitrary: s) (auto simp: imply_tool_sound [OF assms(1)] loop_inv_imply_tool)
  with assms show ?thesis by (simp add: imply_round_def loop_inv_def)
qed

lemma imply_round_complete:
  assumes "t \<in> set (cs_allow st)" "d \<in> set (native_deps t)" "d \<in> set live" "d \<notin> D" "d \<notin> A" "loop_inv D A live st"
  shows "d \<in> set (cs_allow (imply_round live st))"
proof -
  from split_list [OF assms(1)] obtain xs ys where ts: "cs_allow st = xs @ t # ys" by blast
  let ?st = "fold (imply_tool live) xs (st\<lparr>cs_changed := False\<rparr>)"
  have "loop_inv D A live ?st" using assms(6) by (intro loop_inv_fold loop_inv_imply_tool) auto
  with assms have "d \<in> set (cs_allow (imply_tool live t ?st))" by (intro imply_tool_complete)
  moreover have "grows (imply_tool live t ?st) (fold (imply_tool live) ys (imply_tool live t ?st))"
    by (intro grows_fold grows_imply_tool)
  ultimately show ?thesis by (auto simp: imply_round_def ts grows_def)
qed

lemma propagate_sound:
  "closed_under D A live S \<Longrightarrow> loop_inv D A live st \<Longrightarrow> set (cs_allow st) \<subseteq> S \<Longrightarrow>
    set (cs_allow (propagate live st)) \<subseteq> S"
proof (induction live st rule: propagate.induct)
  case (1 live st)
  then show ?case
    by (subst propagate.simps) (simp add: Let_def loop_inv_imply_round imply_round_sound)
qed

lemma propagate_closed:
  "loop_inv D A live st \<Longrightarrow>
    set (cs_allow st) \<subseteq> set (cs_allow (propagate live st)) \<and>
    closed_under D A live (set (cs_allow (propagate live st)))"
proof (induction live st rule: propagate.induct)
  case (1 live st)
  let ?st = "imply_round live st"
  have g: "set (cs_allow st) \<subseteq> set (cs_allow ?st)"
    and ch: "cs_changed ?st \<longleftrightarrow> set (cs_allow st) \<noteq> set (cs_allow ?st)"
    using grows_imply_round [of st live] by (auto simp: grows_def)
  show ?case
  proof (cases "cs_changed ?st")
    case True
    then have "propagate live st = propagate live ?st" by (subst propagate.simps) (simp add: Let_def)
    with 1 True g show ?thesis by (auto simp: loop_inv_imply_round)
  next
    case False
    then have p: "propagate live st = ?st" by (subst propagate.simps) (simp add: Let_def)
    from False ch have eq: "set (cs_allow ?st) = set (cs_allow st)" by simp
    have "closed_under D A live (set (cs_allow ?st))"
      unfolding closed_under_def using imply_round_complete [OF _ _ _ _ _ 1(2)] eq by blast
    with p g show ?thesis by simp
  qed
qed

subsection \<open>Library: the compiled lists\<close>

definition final_state :: "compile_input \<Rightarrow> compile_state" where
  "final_state input = propagate (liveImplementationKeys input) (attached_state input)"

lemma compileAttachments_lists:
  "cp_allow (compileAttachments input) = sort (cs_allow (final_state input))"
  "cp_requireApproval (compileAttachments input) = sort (cs_requireApproval (final_state input))"
  "cp_deny (compileAttachments input) =
    sort (if MEMORY_WRITE \<notin> set (cs_allow (final_state input)) then js_add MEMORY_WRITE (cs_deny (final_state input))
          else cs_deny (final_state input))"
  by (simp_all add: compileAttachments_def final_state_def attached_state_def Let_def)

lemma attached_state_distinct:
  "distinct (cs_allow (attached_state input)) \<and> distinct (cs_requireApproval (attached_state input)) \<and>
    distinct (cs_deny (attached_state input))"
proof -
  have "distinct (cs_allow st) \<and> distinct (cs_requireApproval st) \<and> distinct (cs_deny st) \<Longrightarrow>
    distinct (cs_allow (fold (attach input) as st)) \<and> distinct (cs_requireApproval (fold (attach input) as st)) \<and>
    distinct (cs_deny (fold (attach input) as st))" for as st
    by (induction as arbitrary: st) (simp_all add: attach_distinct)
  then show ?thesis by (simp add: attached_state_def compile_start_def)
qed

lemma loop_inv_final:
  "loop_inv (attached input ModeDisabled) (attached input ModeRequireApproval) (liveImplementationKeys input)
    (final_state input)"
  unfolding final_state_def
  by (rule loop_inv_propagate) (simp add: loop_inv_def attached_state_sets attached_state_distinct)

lemma set_cp_allow: "set (cp_allow (compileAttachments input)) = effective_allow input"
proof -
  let ?D = "attached input ModeDisabled" and ?A = "attached input ModeRequireApproval" and ?live = "liveImplementationKeys input"
  have inv: "loop_inv ?D ?A ?live (attached_state input)"
    by (simp add: loop_inv_def attached_state_sets attached_state_distinct)
  have closed: "closed_under ?D ?A ?live (effective_allow input)"
    by (auto simp: closed_under_def intro: effective_allow.implied)
  have sub: "set (cs_allow (final_state input)) \<subseteq> effective_allow input"
    unfolding final_state_def
    by (rule propagate_sound [OF closed inv]) (auto simp: attached_state_sets intro: effective_allow.direct)
  have fin: "attached input ModeAllow \<subseteq> set (cs_allow (final_state input))"
    "closed_under ?D ?A ?live (set (cs_allow (final_state input)))"
    using propagate_closed [OF inv] by (auto simp: final_state_def attached_state_sets)
  have "t \<in> set (cs_allow (final_state input))" if "t \<in> effective_allow input" for t
    using that by induction (use fin in \<open>auto simp: closed_under_def\<close>)
  with sub show ?thesis by (auto simp: compileAttachments_lists)
qed

lemma set_cp_requireApproval: "set (cp_requireApproval (compileAttachments input)) = attached input ModeRequireApproval"
  using loop_inv_final [of input] by (simp add: compileAttachments_lists loop_inv_def)

lemma set_cp_deny:
  "attached input ModeDisabled \<subseteq> set (cp_deny (compileAttachments input)) \<and>
   set (cp_deny (compileAttachments input)) \<subseteq>
    attached input ModeDisabled \<union> (dep_targets - set (liveImplementationKeys input)) \<union>
    ({MEMORY_WRITE} - set (cp_allow (compileAttachments input)))"
  using loop_inv_final [of input] by (auto simp: compileAttachments_lists loop_inv_def split: if_splits)

lemma cp_distinct:
  "distinct (cp_allow (compileAttachments input)) \<and> distinct (cp_requireApproval (compileAttachments input)) \<and>
    distinct (cp_deny (compileAttachments input))"
  using loop_inv_final [of input] by (simp add: compileAttachments_lists loop_inv_def)

text \<open>No tool is attached in two modes, and \<open>memory.write\<close>, a Gateway tool, never with an approval: what
  the write boundary ensures for a committed configuration.\<close>

definition single_mode :: "compile_input \<Rightarrow> bool" where
  "single_mode input \<longleftrightarrow>
    attached input ModeAllow \<inter> attached input ModeRequireApproval = {} \<and>
    attached input ModeAllow \<inter> attached input ModeDisabled = {} \<and>
    attached input ModeRequireApproval \<inter> attached input ModeDisabled = {} \<and>
    MEMORY_WRITE \<notin> attached input ModeRequireApproval"

lemma effective_allow_cases:
  "t \<in> effective_allow input \<Longrightarrow> t \<in> attached input ModeAllow \<or>
    (t \<in> dep_targets \<inter> set (liveImplementationKeys input) \<and> t \<notin> attached input ModeDisabled \<and>
     t \<notin> attached input ModeRequireApproval)"
  by (cases rule: effective_allow.cases) (use native_deps_targets in auto)

lemma compiled_disjoint:
  assumes "single_mode input"
  shows "set (cp_allow (compileAttachments input)) \<inter> set (cp_requireApproval (compileAttachments input)) = {}"
    "set (cp_allow (compileAttachments input)) \<inter> set (cp_deny (compileAttachments input)) = {}"
    "set (cp_requireApproval (compileAttachments input)) \<inter> set (cp_deny (compileAttachments input)) = {}"
proof -
  show "set (cp_allow (compileAttachments input)) \<inter> set (cp_requireApproval (compileAttachments input)) = {}"
    using assms effective_allow_cases by (auto simp: set_cp_allow set_cp_requireApproval single_mode_def)
  show "set (cp_allow (compileAttachments input)) \<inter> set (cp_deny (compileAttachments input)) = {}"
  proof -
    have "t \<notin> set (cp_deny (compileAttachments input))" if "t \<in> effective_allow input" for t
      using effective_allow_cases [OF that] set_cp_deny [of input] assms attached_live [of input ModeAllow] that
      by (auto simp: set_cp_allow single_mode_def)
    then show ?thesis by (auto simp: set_cp_allow)
  qed
  show "set (cp_requireApproval (compileAttachments input)) \<inter> set (cp_deny (compileAttachments input)) = {}"
    using set_cp_deny [of input] assms attached_live [of input ModeRequireApproval]
    by (auto simp: set_cp_requireApproval single_mode_def)
qed

lemma dep_targets_plain: "t \<in> insert MEMORY_WRITE dep_targets \<Longrightarrow> \<not> isFinanceTool t"
  by (auto simp: dep_targets_def MEMORY_WRITE_def isFinanceTool_def FINANCE_TOOLS_def toolPatternCovers_def
      endsWith_def startsWith_def)

lemma attached_no_finance:
  "ci_agentId input \<noteq> ci_financeAgentId input \<Longrightarrow> t \<in> attached input mode \<Longrightarrow> \<not> isFinanceTool t"
  by (auto simp: attached_def)

lemma compiled_no_finance:
  assumes "ci_agentId input \<noteq> ci_financeAgentId input"
    and "t \<in> set (cp_allow (compileAttachments input)) \<union> set (cp_requireApproval (compileAttachments input)) \<union>
      set (cp_deny (compileAttachments input))"
  shows "\<not> isFinanceTool t"
proof -
  have "t \<in> attached input ModeAllow \<union> attached input ModeRequireApproval \<union> attached input ModeDisabled \<union>
    insert MEMORY_WRITE dep_targets"
    using assms(2) set_cp_deny [of input] effective_allow_cases [of t input]
    by (auto simp: set_cp_allow set_cp_requireApproval)
  then show ?thesis using assms(1) dep_targets_plain attached_no_finance by blast
qed

text \<open>A dependency without a live entry is denied.\<close>

lemma imply_tool_dead:
  assumes "d \<in> set (native_deps tool)" "d \<notin> set live"
  shows "d \<in> set (cs_deny (imply_tool live tool st))"
proof -
  from split_list [OF assms(1)] obtain xs ys where ds: "native_deps tool = xs @ d # ys" by blast
  let ?st = "imply_one live tool d (fold (imply_one live tool) xs st)"
  have "d \<in> set (cs_deny ?st)" using assms(2) by (simp add: imply_one_def)
  moreover have "grows ?st (fold (imply_one live tool) ys ?st)"
    using native_deps_targets [of tool] ds by (intro grows_fold grows_imply_one) auto
  ultimately show ?thesis by (auto simp: imply_tool_def ds grows_def)
qed

lemma imply_round_dead:
  assumes "t \<in> set (cs_allow st)" "d \<in> set (native_deps t)" "d \<notin> set live"
  shows "d \<in> set (cs_deny (imply_round live st))"
proof -
  from split_list [OF assms(1)] obtain xs ys where ts: "cs_allow st = xs @ t # ys" by blast
  let ?st = "imply_tool live t (fold (imply_tool live) xs (st\<lparr>cs_changed := False\<rparr>))"
  have "d \<in> set (cs_deny ?st)" using assms by (intro imply_tool_dead)
  moreover have "grows ?st (fold (imply_tool live) ys ?st)" by (intro grows_fold grows_imply_tool)
  ultimately show ?thesis by (auto simp: imply_round_def ts grows_def)
qed

lemma propagate_dead:
  "t \<in> set (cs_allow (propagate live st)) \<Longrightarrow> d \<in> set (native_deps t) \<Longrightarrow> d \<notin> set live \<Longrightarrow>
    d \<in> set (cs_deny (propagate live st))"
proof (induction live st rule: propagate.induct)
  case (1 live st)
  let ?st = "imply_round live st"
  show ?case
  proof (cases "cs_changed ?st")
    case True
    with 1 show ?thesis by (simp add: propagate.simps [of live st] Let_def)
  next
    case False
    then have "set (cs_allow ?st) = set (cs_allow st)"
      using grows_imply_round [of st live] by (auto simp: grows_def)
    with 1(2-) False show ?thesis by (simp add: propagate.simps [of live st] Let_def imply_round_dead)
  qed
qed

lemma compiled_dead:
  assumes "t \<in> set (cp_allow (compileAttachments input))" "d \<in> set (native_deps t)" "d \<notin> set (liveImplementationKeys input)"
  shows "d \<in> set (cp_deny (compileAttachments input))"
  using propagate_dead [of t "liveImplementationKeys input" "attached_state input" d] assms
  by (auto simp: compileAttachments_lists final_state_def)

lemma effective_allow_live: "effective_allow input \<subseteq> set (liveImplementationKeys input)"
  using effective_allow_cases attached_live by blast

subsection \<open>Library: patterns of the compiled lists\<close>

definition catalog_names :: "compile_input \<Rightarrow> bool" where
  "catalog_names input \<longleftrightarrow> list_all (\<lambda>(_, e). ToolNameSchema (ce_implementationKey e)) (ci_catalog input)"

lemma attached_names: "catalog_names input \<Longrightarrow> t \<in> attached input mode \<Longrightarrow> ToolNameSchema t"
  by (fastforce simp: attached_def catalog_names_def list_all_iff dest: map_of_SomeD)

lemma dep_names: "t \<in> insert MEMORY_WRITE dep_targets \<Longrightarrow> ToolNameSchema t"
proof -
  have "ToolNameSchema ''memory.write''" "ToolNameSchema ''repository.read''" "ToolNameSchema ''workspace.write''"
    by code_simp+
  then show "t \<in> insert MEMORY_WRITE dep_targets \<Longrightarrow> ToolNameSchema t"
    by (auto simp: MEMORY_WRITE_def dep_targets_def)
qed

lemma compiled_names:
  assumes "catalog_names input"
    and "t \<in> set (cp_allow (compileAttachments input)) \<union> set (cp_requireApproval (compileAttachments input)) \<union>
      set (cp_deny (compileAttachments input))"
  shows "ToolNameSchema t"
proof -
  have "t \<in> attached input ModeAllow \<union> attached input ModeRequireApproval \<union> attached input ModeDisabled \<union>
    insert MEMORY_WRITE dep_targets"
    using assms(2) set_cp_deny [of input] effective_allow_cases [of t input]
    by (auto simp: set_cp_allow set_cp_requireApproval)
  then show ?thesis using assms(1) dep_names attached_names by blast
qed

lemma covers_names: "\<forall>p \<in> set ps. ToolNameSchema p \<Longrightarrow> covers ps t \<longleftrightarrow> t \<in> set ps"
  using tool_cover.list_covers_concrete [of ps t] name_not_wildcard by (auto simp: covers_def list_ex_iff)

lemma name_overlap: "ToolNameSchema a \<Longrightarrow> ToolNameSchema b \<Longrightarrow> toolPatternsOverlap a b \<longleftrightarrow> a = b"
  by (auto simp: toolPatternsOverlap_def covers_concrete name_not_wildcard)

lemma finance_not_name: "\<not> ToolNameSchema FINANCE_TOOLS"
  by code_simp

lemma finance_overlap: "ToolNameSchema a \<Longrightarrow> toolPatternsOverlap a FINANCE_TOOLS \<longleftrightarrow> isFinanceTool a"
proof -
  assume "ToolNameSchema a"
  then have "toolPatternCovers a FINANCE_TOOLS \<longleftrightarrow> a = FINANCE_TOOLS"
    by (intro covers_concrete name_not_wildcard)
  with \<open>ToolNameSchema a\<close> finance_not_name show ?thesis
    by (auto simp: toolPatternsOverlap_def isFinanceTool_def)
qed

lemma overlap_sym: "toolPatternsOverlap a b \<longleftrightarrow> toolPatternsOverlap b a"
  by (auto simp: toolPatternsOverlap_def)

lemma sorted_wrt_distinct:
  "distinct xs \<Longrightarrow> (\<And>a b. a \<in> set xs \<Longrightarrow> b \<in> set xs \<Longrightarrow> a \<noteq> b \<Longrightarrow> P a b) \<Longrightarrow> sorted_wrt P xs"
  by (induction xs) auto

lemma no_overlaps:
  assumes "distinct (concat (map snd ls))"
    and "\<And>a b. a \<in> set (concat (map snd ls)) \<Longrightarrow> b \<in> set (concat (map snd ls)) \<Longrightarrow> a \<noteq> b \<Longrightarrow> \<not> toolPatternsOverlap a b"
  shows "toolPatternOverlaps ls = []"
proof -
  let ?es = "concat (map (\<lambda>(l, patterns). map (\<lambda>p. (l, p)) patterns) ls)"
  have snd: "map snd ?es = concat (map snd ls)"
    by (induction ls) (auto simp: comp_def)
  have "sorted_wrt (\<lambda>a b. \<not> toolPatternsOverlap a b) (map snd ?es)"
    unfolding snd using assms by (rule sorted_wrt_distinct)
  then show ?thesis by (simp add: toolPatternOverlaps_def overlap_pairs_Nil_iff sorted_wrt_map)
qed

definition permission_lists :: "agent_permissions \<Rightarrow> (string \<times> string list) list" where
  "permission_lists p =
    [(''tools_allow'', tools_allow p), (''tools_require_human_approval'', tools_require_human_approval p),
     (''tools_deny'', tools_deny p)]"

lemma compiled_no_overlaps:
  assumes "single_mode input" and "catalog_names input"
  shows "toolPatternOverlaps (permission_lists (compiledAgentPermissions (compileAttachments input) (ci_agentId input)
      (ci_financeAgentId input) observe)) = []"
proof -
  let ?c = "compileAttachments input"
  let ?names = "set (cp_allow ?c) \<union> set (cp_requireApproval ?c) \<union> set (cp_deny ?c)"
  have names: "ToolNameSchema t" if "t \<in> ?names" for t using compiled_names [OF assms(2)] that by blast
  have d: "distinct (cp_allow ?c @ cp_requireApproval ?c @ cp_deny ?c)"
    using cp_distinct [of input] compiled_disjoint [OF assms(1)] by auto
  show ?thesis
  proof (cases "ci_agentId input = ci_financeAgentId input")
    case True
    then show ?thesis
      using d names name_overlap by (intro no_overlaps) (auto simp: permission_lists_def compiledAgentPermissions_def)
  next
    case False
    have "\<not> isFinanceTool t" if "t \<in> ?names" for t using compiled_no_finance [OF False] that by blast
    with False d names finance_not_name show ?thesis
      by (intro no_overlaps)
        (auto simp: permission_lists_def compiledAgentPermissions_def name_overlap finance_overlap overlap_sym [of FINANCE_TOOLS])
  qed
qed

subsection \<open>Library: access levels\<close>

lemma accessLevel_absent:
  "tool \<notin> set (cp_allow c) \<Longrightarrow> tool \<notin> set (cp_requireApproval c) \<Longrightarrow> accessLevel c tool = LevelDeny"
  by (simp add: accessLevel_def)

lemma sort_Nil: "sort_key f xs = [] \<longleftrightarrow> xs = []"
  by (metis length_0_conv length_sort)

lemma describeWidenedTools_Nil_iff:
  "describeWidenedTools before after = [] \<longleftrightarrow>
    (\<forall>tool. ACCESS_LEVEL_RANK (accessLevel after tool) \<le> ACCESS_LEVEL_RANK (accessLevel before tool))"
proof -
  let ?le = "\<lambda>tool. ACCESS_LEVEL_RANK (accessLevel after tool) \<le> ACCESS_LEVEL_RANK (accessLevel before tool)"
  let ?all = "cp_allow before @ cp_requireApproval before @ cp_deny before @
    cp_allow after @ cp_requireApproval after @ cp_deny after"
  have "describeWidenedTools before after = [] \<longleftrightarrow> (\<forall>tool \<in> set (js_set ?all). ?le tool)"
    unfolding describeWidenedTools_def Let_def sort_Nil concat_map_Nil_iff by (intro ball_cong) (simp_all add: not_less)
  also have "\<dots> \<longleftrightarrow> (\<forall>tool. ?le tool)"
  proof -
    have "?le tool" if "tool \<notin> set ?all" for tool
      using that accessLevel_absent [of tool after] by simp
    then show ?thesis by (metis set_js_set)
  qed
  finally show ?thesis .
qed

lemma finance_prefix: "startsWith t ''finance.'' \<longleftrightarrow> isFinanceTool t"
  using covers_wildcard' [of "''finance''" t] by (simp add: isFinanceTool_def FINANCE_TOOLS_def)

subsection \<open>Properties\<close>



definition example_compile :: compile_input where
  "example_compile =
    \<lparr>ci_agentId = ''dev'', ci_financeAgentId = ''finance'', ci_adapter = Codex,
     ci_attachments =
       [\<lparr>at_entryId = ''tests-run'', at_pinnedVersion = None, at_mode = ModeAllow, at_settings = []\<rparr>,
        \<lparr>at_entryId = ''pay'', at_pinnedVersion = None, at_mode = ModeRequireApproval, at_settings = []\<rparr>],
     ci_catalog =
       [(''tests-run'', \<lparr>ce_kind = KNative, ce_implementationKey = ''tests.run''\<rparr>),
        (''repository-read'', \<lparr>ce_kind = KNative, ce_implementationKey = ''repository.read''\<rparr>),
        (''pay'', \<lparr>ce_kind = KExecutor, ce_implementationKey = ''finance.payment.create''\<rparr>)]\<rparr>"

lemma example_single_mode: "single_mode example_compile"
  by (auto simp: single_mode_def attached_def example_compile_def MEMORY_WRITE_def split: if_splits)

lemma example_catalog_names: "catalog_names example_compile"
  by code_simp




text \<open>A change the comparison reports as not widening raises the access level of no tool at all,
  named on a list or not; and only such a change is reported so.\<close>

theorem no_widening_exact:
  "describeWidenedTools before after = [] \<longleftrightarrow>
    (\<forall>tool. ACCESS_LEVEL_RANK (accessLevel after tool) \<le> ACCESS_LEVEL_RANK (accessLevel before tool))"
  by (rule describeWidenedTools_Nil_iff)

end
