(* ===== verification/Ip_Guard.thy ===== *)
theory Ip_Guard
  imports Gateway_Prelude "HOL-Library.Word"
begin

unbundle bit_operations_syntax

text \<open>
  The egress address classifier, \<open>packages/policy/src/ip-guard.ts\<close>: the numeric IPv4 forms of
  \<open>inet_aton\<close>, the IPv4 deny-list, the IPv6 group parser and its allow-list. The 32-bit integer
  operations of the source are \<open>32 word\<close> operations. \<open>isIP\<close> of \<open>node:net\<close> is a parameter
  of \<open>parseIpLiteral\<close>; addresses handed to the classifier are what it or \<open>parseIpv4Literal\<close>
  accepted, so an IPv4 address is dotted decimal and an IPv6 group starts with hexadecimal digits.

  The properties: the bit-level parser computes the \<open>inet_aton\<close> number, a dotted address is a fixed
  point of it, the deny-list is exactly fifteen address intervals, and the IPv6 test admits exactly
  a part of \<open>2000::/3\<close>.
\<close>

subsection \<open>Numeric IPv4 forms\<close>

definition is_hex_digit :: "char \<Rightarrow> bool" where
  "is_hex_digit c \<longleftrightarrow> is_digit c \<or> (CHR ''a'' \<le> c \<and> c \<le> CHR ''f'') \<or> (CHR ''A'' \<le> c \<and> c \<le> CHR ''F'')"

definition hex_digit_val :: "char \<Rightarrow> nat" where
  "hex_digit_val c =
    (if is_digit c then of_char c - 48 else if CHR ''a'' \<le> c then of_char c - 87 else of_char c - 55)"

definition hex_val :: "string \<Rightarrow> nat" where
  "hex_val s = foldl (\<lambda>n c. 16 * n + hex_digit_val c) 0 s"

definition oct_val :: "string \<Rightarrow> nat" where
  "oct_val s = foldl (\<lambda>n c. 8 * n + (of_char c - 48)) 0 s"

definition is_oct_digit :: "char \<Rightarrow> bool" where
  "is_oct_digit c \<longleftrightarrow> CHR ''0'' \<le> c \<and> c \<le> CHR ''7''"

text \<open>One dot-separated part: hexadecimal, octal or decimal; \<open>None\<close> for any other text and for a
  value that is not a safe integer.\<close>

definition part_value :: "string \<Rightarrow> nat option" where
  "part_value part =
    (let v =
       (if (startsWith part ''0x'' \<or> startsWith part ''0X'') \<and> drop 2 part \<noteq> [] \<and>
           list_all is_hex_digit (drop 2 part)
        then Some (hex_val (drop 2 part))
        else if startsWith part ''0'' \<and> drop 1 part \<noteq> [] \<and> list_all is_oct_digit (drop 1 part)
        then Some (oct_val part)
        else if part = ''0'' \<or>
                (part \<noteq> [] \<and> is_digit (hd part) \<and> hd part \<noteq> CHR ''0'' \<and> list_all is_digit part)
        then Some (dec_val part)
        else None)
     in case v of None \<Rightarrow> None | Some n \<Rightarrow> if n < 2 ^ 53 then Some n else None)"

fun part_values :: "string list \<Rightarrow> nat list option" where
  "part_values [] = Some []"
| "part_values (p # ps) =
    (case part_value p of None \<Rightarrow> None | Some v \<Rightarrow> map_option (Cons v) (part_values ps))"

definition maxForLastPart :: "nat list" where
  "maxForLastPart = [0xffffffff, 0xffffff, 0xffff, 0xff]"

text \<open>\<open>combined |= value << (8 * (3 - i))\<close> for every part but the last.\<close>

fun combine_parts :: "nat \<Rightarrow> nat list \<Rightarrow> 32 word \<Rightarrow> 32 word" where
  "combine_parts i [] acc = acc"
| "combine_parts i (v # vs) acc = combine_parts (Suc i) vs (acc OR push_bit (8 * (3 - i)) (of_nat v))"

definition octets :: "32 word \<Rightarrow> nat list" where
  "octets w =
    [unat (drop_bit 24 w AND 255), unat (drop_bit 16 w AND 255), unat (drop_bit 8 w AND 255),
     unat (w AND 255)]"

definition dotted :: "32 word \<Rightarrow> string" where
  "dotted w = js_join ''.'' (map show_nat (octets w))"

definition literal_chars :: "string \<Rightarrow> bool" where
  "literal_chars host \<longleftrightarrow>
    host \<noteq> [] \<and> list_all (\<lambda>c. is_hex_digit c \<or> c = CHR ''x'' \<or> c = CHR ''.'') host"

definition parseIpv4Literal :: "string \<Rightarrow> string option" where
  "parseIpv4Literal host =
    (if \<not> literal_chars host \<or> length host > 79 then None
     else
       let parts = js_split (CHR ''.'') host in
       if length parts = 0 \<or> length parts > 4 \<or> list_ex (\<lambda>p. p = []) parts then None
       else
         case part_values parts of
           None \<Rightarrow> None
         | Some values \<Rightarrow>
             let lastIndex = length values - 1; l = values ! lastIndex in
             if list_ex (\<lambda>v. v > 255) (take lastIndex values) then None
             else if l > maxForLastPart ! lastIndex then None
             else Some (dotted (combine_parts 0 (take lastIndex values) 0 OR of_nat l)))"

datatype ip_family = IPv4 | IPv6

record parsed_ip =
  ip_family :: ip_family
  ip_address :: string

definition to_lower :: "char \<Rightarrow> char" where
  "to_lower c = (if is_upper c then char_of ((of_char c :: nat) + 32) else c)"

text \<open>\<open>isIP\<close> returns 4, 6 or 0.\<close>

definition parseIpLiteral :: "(string \<Rightarrow> nat) \<Rightarrow> string \<Rightarrow> parsed_ip option" where
  "parseIpLiteral isIP host =
    (if isIP host = 6 then Some \<lparr>ip_family = IPv6, ip_address = map to_lower host\<rparr>
     else if isIP host = 4 then Some \<lparr>ip_family = IPv4, ip_address = host\<rparr>
     else (case parseIpv4Literal host of None \<Rightarrow> None
           | Some v4 \<Rightarrow> Some \<lparr>ip_family = IPv4, ip_address = v4\<rparr>))"

subsection \<open>IPv4 deny-list\<close>

definition nth_or_0 :: "nat list \<Rightarrow> nat \<Rightarrow> nat" where
  "nth_or_0 xs i = (if i < length xs then xs ! i else 0)"

definition ipv4ToInt :: "string \<Rightarrow> 32 word" where
  "ipv4ToInt address =
    (let os = map dec_val (js_split (CHR ''.'') address) in
     push_bit 24 (of_nat (nth_or_0 os 0)) OR push_bit 16 (of_nat (nth_or_0 os 1)) OR
     push_bit 8 (of_nat (nth_or_0 os 2)) OR of_nat (nth_or_0 os 3))"

definition IPV4_BLOCKED_RANGES :: "(string \<times> nat \<times> string) list" where
  "IPV4_BLOCKED_RANGES =
    [(''0.0.0.0'', 8, '''this network' (RFC 791)''),
     (''10.0.0.0'', 8, ''private (RFC 1918)''),
     (''100.64.0.0'', 10, ''carrier-grade NAT (RFC 6598)''),
     (''127.0.0.0'', 8, ''loopback''),
     (''169.254.0.0'', 16, ''link-local''),
     (''172.16.0.0'', 12, ''private (RFC 1918)''),
     (''192.0.0.0'', 24, ''IETF protocol assignments (RFC 6890)''),
     (''192.0.2.0'', 24, ''documentation (TEST-NET-1)''),
     (''192.168.0.0'', 16, ''private (RFC 1918)''),
     (''198.18.0.0'', 15, ''benchmarking (RFC 2544)''),
     (''198.51.100.0'', 24, ''documentation (TEST-NET-2)''),
     (''203.0.113.0'', 24, ''documentation (TEST-NET-3)''),
     (''224.0.0.0'', 4, ''multicast''),
     (''255.255.255.255'', 32, ''broadcast''),
     (''240.0.0.0'', 4, ''reserved'')]"

definition range_mask :: "nat \<Rightarrow> 32 word" where
  "range_mask bits = (if bits = 0 then 0 else push_bit (32 - bits) 0xffffffff)"

definition in_range :: "32 word \<Rightarrow> string \<times> nat \<times> string \<Rightarrow> bool" where
  "in_range v = (\<lambda>(base, bits, _). v AND range_mask bits = ipv4ToInt base AND range_mask bits)"

definition ipv4BlockedReason :: "string \<Rightarrow> string option" where
  "ipv4BlockedReason address =
    map_option (\<lambda>(_, _, label). label) (find (in_range (ipv4ToInt address)) IPV4_BLOCKED_RANGES)"

subsection \<open>IPv6\<close>

text \<open>\<open>working.lastIndexOf(':')\<close> splits the address into the text up to and including the last
  colon, and the tail; without a colon everything is tail.\<close>

definition after_last_colon :: "string \<Rightarrow> string" where
  "after_last_colon s = rev (takeWhile (\<lambda>c. c \<noteq> CHR '':'') (rev s))"

definition upto_last_colon :: "string \<Rightarrow> string" where
  "upto_last_colon s = take (length s - length (after_last_colon s)) s"

text \<open>\<open>indexOf('::')\<close>: the text before and after the first double colon.\<close>

fun split_double_colon :: "string \<Rightarrow> (string \<times> string) option" where
  "split_double_colon (x # y # s) =
    (if x = CHR '':'' \<and> y = CHR '':'' then Some ([], s)
     else map_option (\<lambda>(h, t). (x # h, t)) (split_double_colon (y # s)))"
| "split_double_colon _ = None"

text \<open>\<open>parseInt(part, 16)\<close>: the number of the leading hexadecimal digits, \<open>None\<close> for \<open>NaN\<close>.\<close>

definition parse_hex :: "string \<Rightarrow> nat option" where
  "parse_hex part =
    (let ds = takeWhile is_hex_digit part in if ds = [] then None else Some (hex_val ds))"

fun hex_groups :: "string list \<Rightarrow> nat list option" where
  "hex_groups [] = Some []"
| "hex_groups (p # ps) =
    (case parse_hex p of
       None \<Rightarrow> None
     | Some g \<Rightarrow> if g > 0xffff then None else map_option (Cons g) (hex_groups ps))"

definition colon_parts :: "string \<Rightarrow> string list" where
  "colon_parts s = (if s = [] then [] else js_split (CHR '':'') s)"

definition ipv6_parts :: "string \<Rightarrow> string list option" where
  "ipv6_parts working =
    (case split_double_colon working of
       None \<Rightarrow> (let headParts = colon_parts working in if length headParts \<noteq> 8 then None else Some headParts)
     | Some (h, t) \<Rightarrow>
         (let headParts = colon_parts h; tailParts = colon_parts t in
          if length headParts + length tailParts > 8 then None
          else Some (headParts @ replicate (8 - length headParts - length tailParts) ''0'' @ tailParts)))"

definition ipv6Groups :: "string \<Rightarrow> nat list option" where
  "ipv6Groups address =
    (let tail = after_last_colon address in
     if CHR ''.'' \<in> set tail then
       (case parseIpv4Literal tail of
          None \<Rightarrow> None
        | Some v4 \<Rightarrow>
            let em = map dec_val (js_split (CHR ''.'') v4) in
            (case Option.bind (ipv6_parts (upto_last_colon address @ ''0:0'')) hex_groups of
               None \<Rightarrow> None
             | Some groups \<Rightarrow>
                 Some (groups[6 := (256 * nth_or_0 em 0 + nth_or_0 em 1) mod 65536,
                              7 := (256 * nth_or_0 em 2 + nth_or_0 em 3) mod 65536])))
     else Option.bind (ipv6_parts address) hex_groups)"

definition ipv6BlockedReason :: "string \<Rightarrow> string option" where
  "ipv6BlockedReason address =
    (case ipv6Groups address of
       None \<Rightarrow> Some ''unparseable''
     | Some groups \<Rightarrow>
         let g0 = groups ! 0; g1 = groups ! 1; g2 = groups ! 2; g3 = groups ! 3; g4 = groups ! 4;
             g5 = groups ! 5; g6 = groups ! 6; g7 = groups ! 7 in
         if list_all (\<lambda>g. g = 0) groups then Some ''unspecified''
         else if g0 = 0 \<and> g1 = 0 \<and> g2 = 0 \<and> g3 = 0 \<and> g4 = 0 \<and> g5 = 0 \<and> g6 = 0 \<and> g7 = 1
         then Some ''loopback''
         else if g0 = 0 \<and> g1 = 0 \<and> g2 = 0 \<and> g3 = 0 \<and> g4 = 0 \<and> g5 = 0xffff then Some ''IPv4-mapped''
         else if g0 = 0 \<and> g1 = 0 \<and> g2 = 0 \<and> g3 = 0 \<and> g4 = 0xffff \<and> g5 = 0
         then Some (''IPv4-translated (SIIT, RFC 6052 '' @ [CHR 0xA7] @ ''2.2)'')
         else if g0 = 0 \<and> g1 = 0 \<and> g2 = 0 \<and> g3 = 0 \<and> g4 = 0 \<and> g5 = 0
         then Some ''IPv4-compatible (deprecated, RFC 4291)''
         else if g0 AND 0xfe00 = 0xfc00 then Some ''unique local (RFC 4193)''
         else if g0 AND 0xffc0 = 0xfe80 then Some ''link-local''
         else if g0 AND 0xffc0 = 0xfec0 then Some ''site-local (deprecated, RFC 3879)''
         else if g0 AND 0xff00 = 0xff00 then Some ''multicast''
         else if g0 = 0x2001 \<and> g1 = 0x0db8 then Some ''documentation (RFC 3849)''
         else if g0 = 0x2001 \<and> g1 = 0 then Some ''Teredo (RFC 4380)''
         else if g0 = 0x2001 \<and> g1 AND 0xfff0 = 0x0020 then Some ''ORCHIDv2 (RFC 7343)''
         else if g0 = 0x2001 \<and> g1 = 2 \<and> g2 = 0 then Some ''benchmarking (RFC 5180)''
         else if g0 = 0x2002 then Some ''6to4 (RFC 3056)''
         else if g0 = 0x64 \<and> g1 = 0xff9b \<and> g2 = 0 \<and> g3 = 0 \<and> g4 = 0 \<and> g5 = 0
         then Some ''NAT64 (RFC 6052)''
         else if g0 = 0x64 \<and> g1 = 0xff9b \<and> g2 = 1 then Some ''NAT64 local-use (RFC 8215)''
         else if g0 = 0x100 \<and> g1 = 0 \<and> g2 = 0 \<and> g3 = 0 then Some ''discard-only (RFC 7707)''
         else if g0 AND 0xe000 \<noteq> 0x2000 then Some ''not global unicast (outside '2000::/3')''
         else None)"

definition blockedAddressReason :: "parsed_ip \<Rightarrow> string option" where
  "blockedAddressReason p =
    (if ip_family p = IPv4 then ipv4BlockedReason (ip_address p) else ipv6BlockedReason (ip_address p))"

definition isPublicAddress :: "parsed_ip \<Rightarrow> bool" where
  "isPublicAddress p \<longleftrightarrow> blockedAddressReason p = None"

subsection \<open>Specification\<close>

text \<open>The number \<open>inet_aton\<close> gives a list of parts, and the blocks of special-purpose IPv4 addresses as
  closed intervals.\<close>

primrec inet_aton :: "nat \<Rightarrow> nat list \<Rightarrow> nat" where
  "inet_aton i [] = 0"
| "inet_aton i (v # vs) = (if vs = [] then v else v * 256 ^ (3 - i) + inet_aton (Suc i) vs)"

definition ip4 :: "nat \<Rightarrow> nat \<Rightarrow> nat \<Rightarrow> nat \<Rightarrow> nat" where
  "ip4 a b c d = ((a * 256 + b) * 256 + c) * 256 + d"

definition special_ipv4 :: "(nat \<times> nat) list" where
  "special_ipv4 =
    [(ip4 0 0 0 0, ip4 0 255 255 255), (ip4 10 0 0 0, ip4 10 255 255 255),
     (ip4 100 64 0 0, ip4 100 127 255 255), (ip4 127 0 0 0, ip4 127 255 255 255),
     (ip4 169 254 0 0, ip4 169 254 255 255), (ip4 172 16 0 0, ip4 172 31 255 255),
     (ip4 192 0 0 0, ip4 192 0 0 255), (ip4 192 0 2 0, ip4 192 0 2 255),
     (ip4 192 168 0 0, ip4 192 168 255 255), (ip4 198 18 0 0, ip4 198 19 255 255),
     (ip4 198 51 100 0, ip4 198 51 100 255), (ip4 203 0 113 0, ip4 203 0 113 255),
     (ip4 224 0 0 0, ip4 255 255 255 255)]"

subsection \<open>Octets and words\<close>

lemma word_255: "(255::32 word) = mask 8"
  by (simp add: mask_eq_exp_minus_1)

lemma unat_take_bit: "unat (take_bit n w) = unat w mod 2 ^ n" for w :: "32 word"
  by (metis of_nat_unat take_bit_nat_def unsigned_take_bit_eq take_bit_eq_mod)

lemma octets_arith:
  "octets w = [unat w div 2 ^ 24 mod 256, unat w div 2 ^ 16 mod 256, unat w div 2 ^ 8 mod 256, unat w mod 256]"
  by (simp add: octets_def word_255 flip: take_bit_eq_mask)
     (simp add: unat_take_bit drop_bit_eq_div unat_div)

lemma unat_or_disjoint:
  "unat (a OR b) = unat a + unat b" if "a AND b = 0" for a b :: "32 word"
  using that apply (simp add: unsigned_or_eq )
  by (metis disjunctive_add_eq_or unsigned_0 unsigned_and_eq)

lemma push_or:
  "unat (push_bit n (of_nat a) OR (w :: 32 word)) = a * 2 ^ n + unat w"
  if "unat w < 2 ^ n" "n \<le> 32" "a < 2 ^ (32 - n)"
proof -
  have w: "take_bit n w = w" using that(1) by (simp add: word_eq_iff_unsigned [where ?'a = nat] unat_take_bit)
  have "push_bit n (of_nat a) AND w = 0"
    by (rule bit_word_eqI) (metis w bit_take_bit_iff bit_and_iff bit_push_bit_iff bit_0_eq not_le bot_apply bot_bool_def)
  moreover have "unat (push_bit n (of_nat a) :: 32 word) = a * 2 ^ n"
  proof -
    have "a * 2 ^ n < 2 ^ 32" using that(2,3) 
      by (metis le_add_diff_inverse2 mult_less_cancel2 power_add zero_less_numeral zero_less_power)
    moreover have "(push_bit n (of_nat a) :: 32 word) = of_nat (a * 2 ^ n)"
      by (simp add: push_bit_eq_mult)
    ultimately show ?thesis by (simp add: unsigned_of_nat take_bit_nat_eq_self del: of_nat_mult)
  qed
  ultimately show ?thesis by (simp add: unat_or_disjoint)
qed

lemma unat_of_nat_small: "n < 2 ^ 32 \<Longrightarrow> unat (of_nat n :: 32 word) = n"
  by (simp add: unsigned_of_nat take_bit_nat_eq_self)

lemma combine_parts_inet_aton:
  assumes "vs \<noteq> []" "length vs \<le> 4" "\<forall>v \<in> set (butlast vs). v \<le> 255"
    and "last vs \<le> maxForLastPart ! (length vs - 1)"
  shows "unat (combine_parts 0 (butlast vs) 0 OR of_nat (last vs)) = inet_aton 0 vs \<and> inet_aton 0 vs < 2 ^ 32"
proof -
  from assms(1,2) consider a where "vs = [a]" | a b where "vs = [a, b]" | a b c where "vs = [a, b, c]"
    | a b c d where "vs = [a, b, c, d]"
    by (cases vs rule: remdups_adj.cases; cases "tl (tl vs)"; cases "tl (tl (tl vs))") auto
  then show ?thesis
    using assms(3,4)
    by cases (auto simp: maxForLastPart_def push_or unat_of_nat_small or.assoc)
qed

lemma show_nat_no_dot: "CHR ''.'' \<notin> set (show_nat n)"
  using show_nat_digits [of n] by (auto simp: list_all_iff is_digit_def)

lemma split_dotted: "js_split (CHR ''.'') (dotted w) = map show_nat (octets w)"
  unfolding dotted_def by (rule js_split_join) (auto simp: octets_def show_nat_no_dot)

lemma octet_sum:
  "n div 16777216 * 16777216 + (n div 65536 mod 256 * 65536 + (n div 256 mod 256 * 256 + n mod 256)) = (n :: nat)"
proof -
  have d: "n div 65536 = n div 256 div 256" "n div 16777216 = n div 256 div 256 div 256"
    by (simp_all flip: div_mult2_eq)
  obtain a b c where m: "n mod 256 = a" "n div 256 mod 256 = b" "n div 256 div 256 mod 256 = c" by blast
  have "256 * (n div 256) + a = n" "256 * (n div 256 div 256) + b = n div 256"
    "256 * (n div 256 div 256 div 256) + c = n div 256 div 256"
    by (simp_all flip: m)
  thus ?thesis unfolding d m by (simp only: mult.commute [of _ 256] mult.commute [of _ 65536] mult.commute [of _ 16777216])
qed

lemma ipv4ToInt_dotted [simp]: "ipv4ToInt (dotted w) = w"
proof -
  have "unat w < 2 ^ 32" using unsigned_less [of w] by simp
  hence "unat (ipv4ToInt (dotted w)) = unat w"
    by (simp add: ipv4ToInt_def split_dotted octets_arith nth_or_0_def push_or unat_of_nat_small octet_sum)
  thus ?thesis by (simp add: word_eq_iff_unsigned [where ?'a = nat])
qed

lemma part_value_show_nat: "n < 2 ^ 53 \<Longrightarrow> part_value (show_nat n) = Some n"
proof (cases "n = 0")
  case True
  have "show_nat 0 = ''0''" by code_simp
  with True show ?thesis by (simp add: part_value_def startsWith_def dec_val_def)
next
  case False
  assume "n < 2 ^ 53"
  from False have hd: "hd (show_nat n) \<noteq> CHR ''0''" by (intro show_nat_hd) simp
  obtain c cs where c: "show_nat n = c # cs" by (cases "show_nat n") auto
  have "dec_val (c # cs) = n" "list_all is_digit (c # cs)"
    using dec_val_show_nat [of n] show_nat_digits [of n] by (simp_all only: c)
  with hd \<open>n < 2 ^ 53\<close> show ?thesis by (simp add: c part_value_def startsWith_def)
qed

lemma show_nat_octet_length: "n < 256 \<Longrightarrow> length (show_nat n) \<le> 3"
  by (cases "n < 10"; cases "n < 100") (simp_all add: show_nat_small show_nat_big)

lemma show_nat_literal_chars:
  "list_all (\<lambda>c. is_hex_digit c \<or> c = CHR ''x'' \<or> c = CHR ''.'') (show_nat n)"
  using show_nat_digits [of n] by (auto simp: list_all_iff is_hex_digit_def)

lemma parseIpv4Literal_values:
  assumes "parseIpv4Literal host = Some a"
  obtains vs where "part_values (js_split (CHR ''.'') host) = Some vs" "vs \<noteq> []" "length vs \<le> 4"
    "\<forall>v \<in> set (butlast vs). v \<le> 255" "last vs \<le> maxForLastPart ! (length vs - 1)"
    "a = dotted (combine_parts 0 (butlast vs) 0 OR of_nat (last vs))"
proof -
  have len: "part_values ps = Some ws \<Longrightarrow> length ws = length ps" for ps ws
    by (induction ps arbitrary: ws) (auto split: option.splits)
  from assms obtain vs where vs: "part_values (js_split (CHR ''.'') host) = Some vs"
    and *: "length (js_split (CHR ''.'') host) \<le> 4" "\<not> list_ex (\<lambda>v. v > 255) (take (length vs - 1) vs)"
      "vs ! (length vs - 1) \<le> maxForLastPart ! (length vs - 1)"
      "a = dotted (combine_parts 0 (take (length vs - 1) vs) 0 OR of_nat (vs ! (length vs - 1)))"
    by (auto simp: parseIpv4Literal_def Let_def split: if_splits option.splits)
  from len [OF vs] have "vs \<noteq> []" by auto
  with * vs len [OF vs] show thesis
    by (intro that) (auto simp: butlast_conv_take last_conv_nth list_ex_iff not_less)
qed


lemma parseIpv4Literal_dotted: "parseIpv4Literal (dotted w) = Some (dotted w)"
proof -
  obtain a b c d where o: "octets w = [a, b, c, d]" and lt: "a < 256" "b < 256" "c < 256" "d < 256"
    by (simp add: octets_arith)
  have "length (dotted w) \<le> 79"
    using lt [THEN show_nat_octet_length] by (simp add: dotted_def o)
  moreover have "literal_chars (dotted w)"
    by (simp add: literal_chars_def dotted_def o show_nat_literal_chars)
  moreover have "part_values (map show_nat [a, b, c, d]) = Some [a, b, c, d]"
    using lt by (simp add: part_value_show_nat)
  moreover have "combine_parts 0 [a, b, c] 0 OR of_nat d = w"
    using ipv4ToInt_dotted [of w]
    by (simp add: ipv4ToInt_def split_dotted o nth_or_0_def or.assoc del: ipv4ToInt_dotted)
  ultimately show ?thesis
    using lt by (simp add: parseIpv4Literal_def split_dotted o maxForLastPart_def)
qed

subsection \<open>Masks\<close>

lemma range_mask_eq_iff:
  "v AND range_mask bits = u AND range_mask bits \<longleftrightarrow>
    unat v div 2 ^ (32 - bits) = unat u div 2 ^ (32 - bits)" if "0 < bits" 
proof -
  let ?k = "32 - bits"
  have all: "(0xffffffff :: 32 word) = mask 32" by (simp add: mask_eq_exp_minus_1)
  have m: "x AND range_mask bits = push_bit ?k (drop_bit ?k x)" for x
    using that by (intro bit_word_eqI) (auto simp: range_mask_def all bit_simps)
  have drop_push: "drop_bit ?k (push_bit ?k (drop_bit ?k x)) = drop_bit ?k x" for x :: "32 word"
    by (rule bit_word_eqI) (auto simp: bit_simps dest: bit_imp_le_length)
  have "push_bit ?k (drop_bit ?k v) = push_bit ?k (drop_bit ?k u) \<longleftrightarrow> drop_bit ?k v = drop_bit ?k u"
    by (metis drop_push)
  also have "\<dots> \<longleftrightarrow> unat v div 2 ^ ?k = unat u div 2 ^ ?k"
    by (simp add: word_eq_iff_unsigned [where ?'a = nat] unat_drop_bit_eq drop_bit_eq_div [where ?'a = nat])
  finally show ?thesis by (simp only: m)
qed

lemma nat_and_high: "(g :: nat) AND push_bit n (mask m) = 2 ^ n * (g div 2 ^ n mod 2 ^ m)"
proof -
  have "g AND push_bit n (mask m) = push_bit n (take_bit m (drop_bit n g))"
    by (rule bit_eqI) (auto simp: bit_simps)
  thus ?thesis by (simp add: push_bit_eq_mult take_bit_eq_mod drop_bit_eq_div mult.commute)
qed

lemma and_masks:
  fixes g :: nat assumes "g \<le> 0xffff"
  shows "g AND 0xfe00 = 512 * (g div 512)" "g AND 0xffc0 = 64 * (g div 64)" "g AND 0xff00 = 256 * (g div 256)"
    "g AND 0xfff0 = 16 * (g div 16)" "g AND 0xe000 = 8192 * (g div 8192)"
  using assms nat_and_high [of g 9 7] nat_and_high [of g 6 10] nat_and_high [of g 8 8] nat_and_high [of g 4 12]
    nat_and_high [of g 13 3]
  by (simp_all add: mask_eq_exp_minus_1 push_bit_eq_mult)

lemma ipv4ToInt_value:
  assumes "map dec_val (js_split (CHR ''.'') a) = [p, q, r, t]" "p < 256" "q < 256" "r < 256" "t < 256"
  shows "unat (ipv4ToInt a) = ip4 p q r t"
  using assms by (simp add: ipv4ToInt_def nth_or_0_def push_or unat_of_nat_small ip4_def)

lemma base_values:
  shows "unat (ipv4ToInt ''0.0.0.0'') = ip4 0 0 0 0"
    "unat (ipv4ToInt ''10.0.0.0'') = ip4 10 0 0 0"
    "unat (ipv4ToInt ''100.64.0.0'') = ip4 100 64 0 0"
    "unat (ipv4ToInt ''127.0.0.0'') = ip4 127 0 0 0"
    "unat (ipv4ToInt ''169.254.0.0'') = ip4 169 254 0 0"
    "unat (ipv4ToInt ''172.16.0.0'') = ip4 172 16 0 0"
    "unat (ipv4ToInt ''192.0.0.0'') = ip4 192 0 0 0"
    "unat (ipv4ToInt ''192.0.2.0'') = ip4 192 0 2 0"
    "unat (ipv4ToInt ''192.168.0.0'') = ip4 192 168 0 0"
    "unat (ipv4ToInt ''198.18.0.0'') = ip4 198 18 0 0"
    "unat (ipv4ToInt ''198.51.100.0'') = ip4 198 51 100 0"
    "unat (ipv4ToInt ''203.0.113.0'') = ip4 203 0 113 0"
    "unat (ipv4ToInt ''224.0.0.0'') = ip4 224 0 0 0"
    "unat (ipv4ToInt ''255.255.255.255'') = ip4 255 255 255 255"
    "unat (ipv4ToInt ''240.0.0.0'') = ip4 240 0 0 0"
  by (rule trans [OF ipv4ToInt_value], simp add: dec_val_def, simp_all add: ip4_def)+

lemma div_eq_interval: "0 < k \<Longrightarrow> n div k = m \<longleftrightarrow> m * k \<le> n \<and> n < m * k + k" for n k m :: nat
  by (metis add.commute div_nat_eqI dividend_less_div_times mult.commute mult_Suc times_div_less_eq_dividend)

lemma not_in_range_iff:
  assumes "0 < bits" "unat (ipv4ToInt base) = lo" "lo mod 2 ^ (32 - bits) = 0"
  shows "\<not> in_range v (base, bits, label) \<longleftrightarrow> unat v < lo \<or> lo + (2 ^ (32 - bits) - 1) < unat v"
proof -
  from assms(3) have "lo div 2 ^ (32 - bits) * 2 ^ (32 - bits) = lo" by auto
  with assms(1,2) show ?thesis
    using less_diff_conv2 [of 1] by (auto simp: in_range_def range_mask_eq_iff div_eq_interval not_less le_diff_conv2 Suc_le_eq)
qed

lemma ipv4_public_iff:
  "ipv4BlockedReason a = None \<longleftrightarrow>
    list_all (\<lambda>(lo, hi). unat (ipv4ToInt a) < lo \<or> hi < unat (ipv4ToInt a)) special_ipv4"
proof -
  let ?n = "unat (ipv4ToInt a)"
  have "?n < 2 ^ 32" using unsigned_less [of "ipv4ToInt a"] by simp
  hence last: "(?n < 3758096384 \<or> 4026531839 < ?n) \<and> (?n < 4294967295 \<or> 4294967295 < ?n) \<and>
    (?n < 4026531840 \<or> 4294967295 < ?n) \<longleftrightarrow> ?n < 3758096384 \<or> 4294967295 < ?n" by arith
  have "ipv4BlockedReason a = None \<longleftrightarrow> list_all (\<lambda>r. \<not> in_range (ipv4ToInt a) r) IPV4_BLOCKED_RANGES"
    by (auto simp: ipv4BlockedReason_def find_None_iff list_all_iff)
  also have "\<dots> \<longleftrightarrow> list_all (\<lambda>(lo, hi). ?n < lo \<or> hi < ?n) special_ipv4"
    by (simp add: IPV4_BLOCKED_RANGES_def not_in_range_iff base_values special_ipv4_def ip4_def last)
  finally show ?thesis .
qed

lemma hex_groups_bound: "hex_groups ps = Some gs \<Longrightarrow> length gs = length ps \<and> list_all (\<lambda>g. g \<le> 0xffff) gs"
  by (induction ps arbitrary: gs) (auto split: option.splits if_splits)

lemma ipv6_parts_length: "ipv6_parts s = Some ps \<Longrightarrow> length ps = 8"
  by (auto simp: ipv6_parts_def Let_def split: option.splits if_splits prod.splits)

lemma ipv6Groups_wf: "ipv6Groups a = Some gs \<Longrightarrow> length gs = 8 \<and> list_all (\<lambda>g. g \<le> 0xffff) gs"
  by (auto simp: ipv6Groups_def Let_def list_all_length nth_list_update split: if_splits option.splits bind_splits
     dest!: ipv6_parts_length hex_groups_bound)

lemma eight: "length gs = 8 \<Longrightarrow> \<exists>a b c d e f g h. gs = [a, b, c, d, e, f, g, h]"
  by (simp only: eval_nat_numeral length_Suc_conv length_0_conv BitM.simps) blast

lemma ipv6_public_iff:
  "ipv6BlockedReason a = None \<longleftrightarrow>
    (case ipv6Groups a of
       Some (g0 # g1 # g2 # _) \<Rightarrow>
         0x2000 \<le> g0 \<and> g0 \<le> 0x3fff \<and> g0 \<noteq> 0x2002 \<and>
         \<not> (g0 = 0x2001 \<and> (g1 = 0 \<or> g1 = 0xdb8 \<or> 0x20 \<le> g1 \<and> g1 \<le> 0x2f \<or> g1 = 2 \<and> g2 = 0))
     | _ \<Rightarrow> False)"
proof (cases "ipv6Groups a")
  case None
  then show ?thesis by (simp add: ipv6BlockedReason_def)
next
  case (Some gs)
  obtain g0 g1 g2 g3 g4 g5 g6 g7 where gs: "gs = [g0, g1, g2, g3, g4, g5, g6, g7]"
    using ipv6Groups_wf [OF Some] eight by blast
  then have "g0 \<le> 0xffff" "g1 \<le> 0xffff" using ipv6Groups_wf [OF Some] by auto
  note m = and_masks [OF this(1)] and_masks(4) [OF this(2)]
  have e0: "8192 * (g0 div 8192) = 0x2000 \<longleftrightarrow> 0x2000 \<le> g0 \<and> g0 \<le> 0x3fff"
    and e1: "16 * (g1 div 16) = 0x20 \<longleftrightarrow> 0x20 \<le> g1 \<and> g1 \<le> 0x2f"
    using div_eq_interval [of 8192 g0 1] div_eq_interval [of 16 g1 2] by auto
  have out: "512 * (g0 div 512) \<noteq> 0xfc00 \<and> 64 * (g0 div 64) \<noteq> 0xfe80 \<and> 64 * (g0 div 64) \<noteq> 0xfec0 \<and>
    256 * (g0 div 256) \<noteq> 0xff00 \<and> g0 \<noteq> 0 \<and> g0 \<noteq> 0x64 \<and> g0 \<noteq> 0x100" if "0x2000 \<le> g0 \<and> g0 \<le> 0x3fff"
    using that times_div_less_eq_dividend [of 512 g0] times_div_less_eq_dividend [of 64 g0]
      times_div_less_eq_dividend [of 256 g0] by auto
  have none: "(if c then Some x else e) = None \<longleftrightarrow> \<not> c \<and> e = None" for c and x :: string and e by simp
  have "ipv6BlockedReason a \<noteq> None" if "\<not> (0x2000 \<le> g0 \<and> g0 \<le> 0x3fff)"
  proof -
    have "g0 AND 0xe000 \<noteq> 0x2000" using that by (simp only: m e0) simp
    thus ?thesis by (simp only: ipv6BlockedReason_def Some option.case Let_def none gs nth_Cons_0) simp
  qed
  moreover have "ipv6BlockedReason a = None \<longleftrightarrow> g0 \<noteq> 0x2002 \<and>
    \<not> (g0 = 0x2001 \<and> (g1 = 0 \<or> g1 = 0xdb8 \<or> 0x20 \<le> g1 \<and> g1 \<le> 0x2f \<or> g1 = 2 \<and> g2 = 0))"
    if r: "0x2000 \<le> g0 \<and> g0 \<le> 0x3fff"
    using out [OF r] r by (simp add: ipv6BlockedReason_def Some gs Let_def none m e0 e1) blast
  ultimately show ?thesis by (simp only: Some gs option.case list.case) blast
qed

subsection \<open>Properties\<close>

text \<open>What \<open>parseIpv4Literal\<close> accepts is read as \<open>inet_aton\<close> reads it: the canonical address
  it returns denotes the sum of the leading parts, each at its octet, and the last part, which fits in
  32 bits; and the canonical form is a fixed point of the parser.\<close>

theorem ipv4_literal_number:
  assumes "parseIpv4Literal host = Some a"
  shows "\<exists>vs. part_values (js_split (CHR ''.'') host) = Some vs \<and> unat (ipv4ToInt a) = inet_aton 0 vs \<and>
    inet_aton 0 vs < 2 ^ 32 \<and> parseIpv4Literal a = Some a"
proof -
  from assms obtain vs where "part_values (js_split (CHR ''.'') host) = Some vs" "vs \<noteq> []" "length vs \<le> 4"
    "\<forall>v \<in> set (butlast vs). v \<le> 255" "last vs \<le> maxForLastPart ! (length vs - 1)"
    and a: "a = dotted (combine_parts 0 (butlast vs) 0 OR of_nat (last vs))"
    by (rule parseIpv4Literal_values)
  with combine_parts_inet_aton show ?thesis by (auto simp: a parseIpv4Literal_dotted)
qed

lemma example_parts: "part_values (js_split (CHR ''.'') ''0x7f.1'') = Some [127, 1]"
  by (simp add: part_value_def startsWith_def is_hex_digit_def is_digit_def is_oct_digit_def hex_val_def
    hex_digit_val_def dec_val_def)

lemma example_hex_literal: "parseIpv4Literal ''0x7f.1'' = Some ''127.0.0.1''"
proof -
  have "show_nat 127 = ''127''" "show_nat 0 = ''0''" "show_nat 1 = ''1''" by code_simp+
  moreover have "unat (push_bit 24 127 OR (1 :: 32 word)) = 127 * 2 ^ 24 + 1"
    using push_or [of 1 24 127] by simp
  ultimately have "dotted (push_bit 24 127 OR 1) = ''127.0.0.1''"
    by (simp add: dotted_def octets_arith del: push_bit_numeral)
  moreover have "literal_chars ''0x7f.1''" by code_simp
  moreover have "js_split (CHR ''.'') ''0x7f.1'' = [''0x7f'', ''1'']" by simp
  ultimately show ?thesis
    using example_parts by (simp add: parseIpv4Literal_def maxForLastPart_def del: part_values.simps js_split.simps)
qed



text \<open>C39: An IPv6 address is public exactly when it parses into eight groups and lies in \<open>2000::/3\<close>,
  outside 6to4, Teredo, the documentation, ORCHIDv2 and benchmarking prefixes.\<close>

theorem ipv6_public_exactly:
  "isPublicAddress \<lparr>ip_family = IPv6, ip_address = a\<rparr> \<longleftrightarrow>
    (case ipv6Groups a of
       Some (g0 # g1 # g2 # _) \<Rightarrow>
         0x2000 \<le> g0 \<and> g0 \<le> 0x3fff \<and> g0 \<noteq> 0x2002 \<and>
         \<not> (g0 = 0x2001 \<and> (g1 = 0 \<or> g1 = 0xdb8 \<or> 0x20 \<le> g1 \<and> g1 \<le> 0x2f \<or> g1 = 2 \<and> g2 = 0))
     | _ \<Rightarrow> False)"
  unfolding isPublicAddress_def blockedAddressReason_def by (simp add: ipv6_public_iff)

end
