(* ===== verification/Approval_Code.thy ===== *)
theory Approval_Code
  imports Tool_Policy "HOL-Library.Word"
begin

unbundle bit_operations_syntax

text \<open>
  What binds a human decision to one action: canonical JSON of \<open>packages/events/src/canonical.ts\<close> and the
  action hash, the approval code and the reply parser of \<open>packages/policy/src/approval-code.ts\<close>. SHA-256 of
  \<open>node:crypto\<close> is a parameter: \<open>sha256Hex\<close> gives the hexadecimal text the hash is stored as, \<open>digest\<close> the
  bytes of the code. Texts are Latin-1, numbers integers, as in the rest of the development.

  The properties: under a collision-free hash, two actions have the same hash exactly when they have the
  same type and the same parameters in any order; the code carries exactly the top sixty bits of the
  digest; and a reply with the code, in any case and grouping, is read back as that code, while nothing
  but a keyword and a code is ever read as a decision.
\<close>

subsection \<open>Canonical JSON\<close>

definition hex_char :: "nat \<Rightarrow> char" where
  "hex_char n = (if n < 10 then char_of (48 + n) else char_of (87 + n))"

text \<open>\<open>JSON.stringify\<close> of one character of a string: the short escapes, \<open>\\u00xx\<close> for the other
  controls, the character itself otherwise.\<close>

definition json_char :: "char \<Rightarrow> string" where
  "json_char c =
    (if c = CHR 0x22 then [CHR 0x5C, CHR 0x22]
     else if c = CHR 0x5C then [CHR 0x5C, CHR 0x5C]
     else if c = CHR 0x08 then [CHR 0x5C, CHR ''b'']
     else if c = CHR 0x0C then [CHR 0x5C, CHR ''f'']
     else if c = CHR 0x0A then [CHR 0x5C, CHR ''n'']
     else if c = CHR 0x0D then [CHR 0x5C, CHR ''r'']
     else if c = CHR 0x09 then [CHR 0x5C, CHR ''t'']
     else if (of_char c :: nat) < 32
     then CHR 0x5C # ''u00'' @ [hex_char (of_char c div 16), hex_char (of_char c mod 16)]
     else [c])"

definition json_quote :: "string \<Rightarrow> string" where
  "json_quote s = CHR 0x22 # concat (map json_char s) @ [CHR 0x22]"

definition show_int :: "int \<Rightarrow> string" where
  "show_int i = (if i < 0 then CHR ''-'' # show_nat (nat (- i)) else show_nat (nat i))"

fun canonicalJson :: "json \<Rightarrow> string" where
  "canonicalJson JNull = ''null''"
| "canonicalJson (JBool b) = (if b then ''true'' else ''false'')"
| "canonicalJson (JNum i) = show_int i"
| "canonicalJson (JStr s) = json_quote s"
| "canonicalJson (JArr vs) = ''['' @ js_join '','' (map canonicalJson vs) @ '']''"
| "canonicalJson (JObj kvs) =
    CHR 0x7B # js_join '','' (map (\<lambda>(k, t). json_quote k @ '':'' @ t)
      (sort_key fst (map (\<lambda>(k, v). (k, canonicalJson v)) kvs))) @ [CHR 0x7D]"

definition canonicalHash :: "(string \<Rightarrow> string) \<Rightarrow> json \<Rightarrow> string" where
  "canonicalHash sha256Hex v = sha256Hex (canonicalJson v)"

subsection \<open>The action hash\<close>

definition param_json :: "action_param \<Rightarrow> json" where
  "param_json p = JObj [(''name'', JStr (ap_name p)), (''value'', JStr (ap_value p))]"

definition action_json :: "string \<Rightarrow> action_param list \<Rightarrow> json" where
  "action_json actionType actionParams =
    JObj [(''actionType'', JStr actionType),
          (''actionParams'', JArr (map param_json (sort_key ap_name actionParams)))]"

definition approvalActionHash :: "(string \<Rightarrow> string) \<Rightarrow> string \<Rightarrow> action_param list \<Rightarrow> string" where
  "approvalActionHash sha256Hex actionType actionParams = canonicalHash sha256Hex (action_json actionType actionParams)"

subsection \<open>The approval code\<close>

definition CROCKFORD :: string where
  "CROCKFORD = ''0123456789ABCDEFGHJKMNPQRSTVWXYZ''"

definition CODE_LENGTH :: nat where
  "CODE_LENGTH = 12"

definition CODE_DOMAIN :: string where
  "CODE_DOMAIN = ''agent-gateway/approval-code/v1''"

definition grouped :: "string \<Rightarrow> string" where
  "grouped code = take 4 code @ ''-'' @ take 4 (drop 4 code) @ ''-'' @ drop 8 code"

definition digest_bits :: "8 word list \<Rightarrow> nat" where
  "digest_bits bytes = fold (\<lambda>byte bits. push_bit 8 bits OR unat byte) (take 8 bytes) 0"

definition code_chars :: "nat \<Rightarrow> string" where
  "code_chars bits = map (\<lambda>i. CROCKFORD ! (drop_bit (59 - i * 5) bits AND 31)) [0..<CODE_LENGTH]"

definition approvalCode :: "(string \<Rightarrow> 8 word list) \<Rightarrow> string \<Rightarrow> string \<Rightarrow> string \<Rightarrow> string" where
  "approvalCode digest i nonce immutableActionHash =
    grouped (code_chars (digest_bits (digest (js_join [CHR 0x00] [CODE_DOMAIN, i, nonce, immutableActionHash]))))"

subsection \<open>Replies\<close>

datatype approval_command = Approve string | Deny string | Malformed

definition ascii_lower :: "char \<Rightarrow> char" where
  "ascii_lower c = (if is_upper c then char_of ((of_char c :: nat) + 32) else c)"

definition ascii_upper :: "char \<Rightarrow> char" where
  "ascii_upper c = (if is_lower c then char_of ((of_char c :: nat) - 32) else c)"

definition is_space :: "char \<Rightarrow> bool" where
  "is_space c \<longleftrightarrow> c \<in> {CHR '' '', CHR 0x09, CHR 0x0A, CHR 0x0B, CHR 0x0C, CHR 0x0D, CHR 0xA0}"

definition is_blank :: "char \<Rightarrow> bool" where
  "is_blank c \<longleftrightarrow> c = CHR '' '' \<or> c = CHR 0x09"

definition regex_word :: "char \<Rightarrow> bool" where
  "regex_word c \<longleftrightarrow> is_lower c \<or> is_upper c \<or> is_digit c \<or> c = CHR ''_''"

text \<open>\<open>/(approve|deny)/i\<close> at the start of a text: whether it is \<open>approve\<close>, and the rest.\<close>

definition keyword :: "string \<Rightarrow> (bool \<times> string) option" where
  "keyword s =
    (if map ascii_lower (take 7 s) = ''approve'' then Some (True, drop 7 s)
     else if map ascii_lower (take 4 s) = ''deny'' then Some (False, drop 4 s)
     else None)"

definition is_attempt :: "string \<Rightarrow> bool" where
  "is_attempt msg =
    (case keyword (dropWhile (\<lambda>c. is_space c \<or> c \<in> {CHR ''>'', CHR 0x60, CHR ''*'', CHR ''_'', CHR ''~''}) msg) of
       None \<Rightarrow> False
     | Some (_, []) \<Rightarrow> True
     | Some (_, c # _) \<Rightarrow> \<not> regex_word c)"

definition code_alnum :: "char \<Rightarrow> bool" where
  "code_alnum c \<longleftrightarrow> is_lower c \<or> is_upper c \<or> is_digit c"

definition four_alnum :: "string \<Rightarrow> (string \<times> string) option" where
  "four_alnum s = (if length (take 4 s) = 4 \<and> list_all code_alnum (take 4 s) then Some (take 4 s, drop 4 s) else None)"

definition optional_hyphen :: "string \<Rightarrow> string" where
  "optional_hyphen s = (case s of c # t \<Rightarrow> if c = CHR ''-'' then t else s | [] \<Rightarrow> s)"

text \<open>The three groups of the code, without their hyphens, and the rest.\<close>

definition code_groups :: "string \<Rightarrow> (string \<times> string) option" where
  "code_groups s =
    Option.bind (four_alnum s) (\<lambda>(a, s1).
    Option.bind (four_alnum (optional_hyphen s1)) (\<lambda>(b, s2).
    Option.bind (four_alnum (optional_hyphen s2)) (\<lambda>(c, s3). Some (a @ b @ c, s3))))"

text \<open>\<open>normalizeApprovalCode\<close>.\<close>

definition normalizeApprovalCode :: "string \<Rightarrow> string" where
  "normalizeApprovalCode code = grouped (map ascii_upper (filter (\<lambda>c. c \<noteq> CHR ''-'') code))"

definition command_match :: "string \<Rightarrow> (bool \<times> string) option" where
  "command_match msg =
    Option.bind (keyword (dropWhile is_blank msg)) (\<lambda>(approve, rest).
      if rest = [] \<or> \<not> is_blank (hd rest) then None
      else Option.bind (code_groups (dropWhile is_blank rest)) (\<lambda>(code, end_text).
        if list_all is_blank end_text then Some (approve, code) else None))"

definition parseApprovalCommand :: "string \<Rightarrow> approval_command option" where
  "parseApprovalCommand msg =
    (if \<not> is_attempt msg then None
     else case command_match msg of
       None \<Rightarrow> Some Malformed
     | Some (approve, code) \<Rightarrow>
         Some ((if approve then Approve else Deny) (normalizeApprovalCode code)))"

subsection \<open>Library: JSON strings\<close>

text \<open>A decoder of one escaped character, the inverse that makes the escapes a prefix code.\<close>

definition unhex :: "char \<Rightarrow> nat" where
  "unhex c = (if of_char c < (58 :: nat) then of_char c - 48 else of_char c - 87)"

fun json_uncons :: "string \<Rightarrow> char \<times> string" where
  "json_uncons (c # d # s) =
    (if c \<noteq> CHR 0x5C then (c, d # s)
     else if d = CHR 0x22 \<or> d = CHR 0x5C then (d, s)
     else if d = CHR ''b'' then (CHR 0x08, s)
     else if d = CHR ''f'' then (CHR 0x0C, s)
     else if d = CHR ''n'' then (CHR 0x0A, s)
     else if d = CHR ''r'' then (CHR 0x0D, s)
     else if d = CHR ''t'' then (CHR 0x09, s)
     else (char_of (16 * unhex (s ! 2) + unhex (s ! 3)), drop 4 s))"
| "json_uncons (c # s) = (c, s)"
| "json_uncons [] = (CHR 0x00, [])"

lemma unhex_hex_char: "n < 16 \<Longrightarrow> unhex (hex_char n) = n"
  by (simp add: unhex_def hex_char_def)

lemma json_uncons_char: "json_uncons (json_char c @ d # s) = (c, d # s)"
proof (cases "(of_char c :: nat) < 32 \<and> c \<notin> {CHR 0x08, CHR 0x0C, CHR 0x0A, CHR 0x0D, CHR 0x09, CHR 0x22, CHR 0x5C}")
  case True
  then have "json_char c = CHR 0x5C # ''u00'' @ [hex_char (of_char c div 16), hex_char (of_char c mod 16)]"
    by (simp add: json_char_def)
  moreover have "unhex (hex_char (of_char c div 16)) = of_char c div 16" using True by (intro unhex_hex_char) auto
  moreover have "16 * (of_char c div 16) + of_char c mod 16 = (of_char c :: nat)" by simp
  ultimately show ?thesis by (simp add: unhex_hex_char)
next
  case False
  then show ?thesis by (auto simp: json_char_def)
qed

lemma json_char_prefix:
  assumes "json_char c @ d # s = json_char c' @ d' # s'"
  shows "c = c' \<and> d # s = d' # s'"
  using arg_cong [OF assms, of json_uncons] by (simp only: json_uncons_char prod.inject)

lemma json_char_no_quote: "json_char c @ s \<noteq> CHR 0x22 # s'"
  by (auto simp: json_char_def)

lemma json_body_prefix:
  "concat (map json_char s) @ CHR 0x22 # r = concat (map json_char t) @ CHR 0x22 # r' \<Longrightarrow> s = t \<and> r = r'"
proof (induction s arbitrary: t)
  case Nil
  show ?case
  proof (cases t)
    case (Cons c' t')
    with Nil show ?thesis
      using json_char_no_quote [of c' "concat (map json_char t') @ CHR 0x22 # r'" r] by (auto dest: sym)
  qed (use Nil in simp)
next
  case (Cons c s)
  show ?case
  proof (cases t)
    case Nil
    with Cons.prems show ?thesis
      using json_char_no_quote [of c "concat (map json_char s) @ CHR 0x22 # r" r'] by simp
  next
    case (Cons c' t')
    have ne: "\<exists>d u. concat (map json_char x) @ CHR 0x22 # z = d # u" for x z
      by (cases "concat (map json_char x) @ CHR 0x22 # z") simp_all
    obtain d u d' u' where e: "concat (map json_char s) @ CHR 0x22 # r = d # u" "concat (map json_char t') @ CHR 0x22 # r' = d' # u'"
      using ne by metis
    with Cons.prems Cons have "json_char c @ d # u = json_char c' @ d' # u'" by simp
    from json_char_prefix [OF this] e have "c = c'" "concat (map json_char s) @ CHR 0x22 # r = concat (map json_char t') @ CHR 0x22 # r'"
      by auto
    with Cons.IH Cons show ?thesis by blast
  qed
qed

lemma json_quote_prefix: "json_quote s @ r = json_quote t @ r' \<Longrightarrow> s = t \<and> r = r'"
  unfolding json_quote_def append_Cons append_assoc append_Nil list.inject by (auto dest: json_body_prefix)

subsection \<open>Library: the canonical text of an action\<close>

lemma param_text:
  "canonicalJson (param_json p) =
    CHR 0x7B # json_quote ''name'' @ '':'' @ json_quote (ap_name p) @ '','' @ json_quote ''value'' @ '':'' @
    json_quote (ap_value p) @ [CHR 0x7D]"
proof -
  have "(''name'' :: string) \<le> ''value''" by code_simp
  then show ?thesis by (simp add: param_json_def)
qed

lemma param_prefix: "canonicalJson (param_json p) @ r = canonicalJson (param_json q) @ r' \<Longrightarrow> p = q \<and> r = r'"
  unfolding param_text by (auto dest!: json_quote_prefix intro: action_param.equality)

lemma action_text:
  "canonicalJson (action_json t ps) =
    CHR 0x7B # json_quote ''actionParams'' @ '':['' @
    js_join '','' (map (\<lambda>p. canonicalJson (param_json p)) (sort_key ap_name ps)) @ ''],'' @
    json_quote ''actionType'' @ '':'' @ json_quote t @ [CHR 0x7D]"
proof -
  have "\<not> (''actionType'' :: string) \<le> ''actionParams''" by code_simp
  then show ?thesis by (simp add: action_json_def comp_def)
qed
lemma params_prefix:
  "js_join '','' (map (\<lambda>p. canonicalJson (param_json p)) ps) @ CHR '']'' # r =
   js_join '','' (map (\<lambda>p. canonicalJson (param_json p)) qs) @ CHR '']'' # r' \<Longrightarrow> ps = qs \<and> r = r'"
proof (induction ps arbitrary: qs rule: induct_list012)
  case 1
  then show ?case by (cases qs rule: remdups_adj.cases) (simp_all add: param_text del: canonicalJson.simps)
next
  case (2 p)
  show ?case
  proof (cases qs rule: remdups_adj.cases)
    case 1
    with 2 show ?thesis by (simp add: param_text del: canonicalJson.simps)
  next
    case (2 q)
    with \<open>js_join '','' (map _ [p]) @ _ = _\<close> show ?thesis by (auto dest: param_prefix)
  next
    case (3 q q' qs')
    with \<open>js_join '','' (map _ [p]) @ _ = _\<close> show ?thesis by (auto dest: param_prefix)
  qed
next
  case (3 p p' ps)
  show ?case
  proof (cases qs rule: remdups_adj.cases)
    case 1
    with 3 show ?thesis by (simp add: param_text del: canonicalJson.simps)
  next
    case (2 q)
    with 3 show ?thesis by (auto dest: param_prefix)
  next
    case (3 q q' qs')
    with \<open>js_join '','' (map _ (p # p' # ps)) @ _ = _\<close> have "p = q"
      "js_join '','' (map (\<lambda>p. canonicalJson (param_json p)) (p' # ps)) @ CHR '']'' # r =
       js_join '','' (map (\<lambda>p. canonicalJson (param_json p)) (q' # qs')) @ CHR '']'' # r'"
      by (auto dest: param_prefix simp del: canonicalJson.simps)
    with 3 "3.IH"(2) show ?thesis by blast
  qed
qed

lemma action_text_inj:
  assumes "canonicalJson (action_json t ps) = canonicalJson (action_json u qs)"
  shows "t = u \<and> sort_key ap_name ps = sort_key ap_name qs"
proof -
  from assms have "js_join '','' (map (\<lambda>p. canonicalJson (param_json p)) (sort_key ap_name ps)) @ CHR '']'' #
      ('','' @ json_quote ''actionType'' @ '':'' @ json_quote t @ [CHR 0x7D]) =
    js_join '','' (map (\<lambda>p. canonicalJson (param_json p)) (sort_key ap_name qs)) @ CHR '']'' #
      ('','' @ json_quote ''actionType'' @ '':'' @ json_quote u @ [CHR 0x7D])"
    unfolding action_text by simp
  from params_prefix [OF this] show ?thesis using json_quote_prefix [of t "[]" u "[]"] by simp
qed

subsection \<open>Library: the sixty bits of a code\<close>

lemma push_or_byte: "push_bit 8 bits OR unat (b :: 8 word) = 256 * bits + unat b"
proof -
  have "unat b < 2 ^ 8" using unsigned_less [of b] by simp
  then have "take_bit 8 (unat b) = unat b" by (simp add: take_bit_nat_eq_self)
  then have "push_bit 8 bits AND unat b = 0"
    by (metis bit_eqI bit_and_iff bit_push_bit_iff_nat bit_take_bit_iff not_le bit_0_eq bot_apply bot_bool_def)
  then have "push_bit 8 bits + unat b = push_bit 8 bits OR unat b" by (rule disjunctive_add_eq_or)
  then show ?thesis by (simp add: push_bit_eq_mult)
qed

lemma digest_bits_bound: "digest_bits bytes < 2 ^ 64"
proof -
  have step: "fold (\<lambda>byte bits. push_bit 8 bits OR unat byte) bs n < 256 ^ (length bs + m)" if "n < 256 ^ m" for bs :: "8 word list" and n m
    using that
  proof (induction bs arbitrary: n m)
    case (Cons b bs)
    have "unat b < 256" using unsigned_less [of b] by simp
    with Cons.prems have "256 * n + unat b < 256 ^ Suc m" by simp
    from Cons.IH [OF this] show ?case by (simp add: push_or_byte)
  qed simp
  have "digest_bits bytes < 256 ^ (length (take 8 bytes) + 0)"
    unfolding digest_bits_def by (rule step) simp
  also have "\<dots> \<le> (256 :: nat) ^ 8" by (intro power_increasing) auto
  finally show ?thesis by simp
qed

lemma digits32_inj:
  "n < 32 ^ k \<Longrightarrow> m < 32 ^ k \<Longrightarrow> (\<And>i. i < k \<Longrightarrow> n div 32 ^ i mod 32 = m div 32 ^ i mod 32) \<Longrightarrow> n = (m :: nat)"
proof (induction k arbitrary: n m)
  case (Suc k)
  have "n div 32 = m div 32"
  proof (rule Suc.IH)
    show "n div 32 < 32 ^ k" "m div 32 < 32 ^ k" using Suc.prems by (auto simp: less_mult_imp_div_less mult.commute)
    show "n div 32 div 32 ^ i mod 32 = m div 32 div 32 ^ i mod 32" if "i < k" for i
      using Suc.prems(3) [of "Suc i"] that by (simp add: div_mult2_eq)
  qed
  moreover have "n mod 32 = m mod 32" using Suc.prems(3) [of 0] by simp
  ultimately show ?case by (metis div_mult_mod_eq)
qed simp

lemma code_index: "drop_bit (59 - i * 5) bits AND 31 = bits div 16 div 32 ^ (11 - i) mod 32" if "i < 12" for bits :: nat
proof -
  have "(31 :: nat) = mask 5" by (simp add: mask_eq_exp_minus_1)
  then have "drop_bit (59 - i * 5) bits AND 31 = take_bit 5 (drop_bit (59 - i * 5) bits)"
    by (simp only: take_bit_eq_mask)
  also have "\<dots> = bits div 2 ^ (59 - i * 5) mod 32" by (simp add: take_bit_eq_mod drop_bit_eq_div)
  also have "(2 :: nat) ^ (59 - i * 5) = 2 ^ (4 + 5 * (11 - i))"
    using that by (intro arg_cong [where f = "power 2"]) simp
  also have "\<dots> = 16 * 32 ^ (11 - i)" by (simp add: power_add power_mult)
  finally show ?thesis by (simp add: div_mult2_eq)
qed

lemma length_CROCKFORD: "length CROCKFORD = 32" and distinct_CROCKFORD: "distinct CROCKFORD"
  by code_simp+

lemma code_chars_eq_iff:
  assumes "a < 2 ^ 64" "b < 2 ^ 64"
  shows "code_chars a = code_chars b \<longleftrightarrow> a div 16 = b div 16"
proof
  assume "code_chars a = code_chars b"
  then have "CROCKFORD ! (drop_bit (59 - i * 5) a AND 31) = CROCKFORD ! (drop_bit (59 - i * 5) b AND 31)" if "i < 12" for i
    using that by (simp add: code_chars_def CODE_LENGTH_def)
  then have d: "a div 16 div 32 ^ (11 - i) mod 32 = b div 16 div 32 ^ (11 - i) mod 32" if "i < 12" for i
    using that nth_eq_iff_index_eq [OF distinct_CROCKFORD]
    by (simp add: code_index length_CROCKFORD)
  show "a div 16 = b div 16"
  proof (rule digits32_inj [of _ 12])
    show "a div 16 < 32 ^ 12" "b div 16 < 32 ^ 12" using assms by (auto simp: less_mult_imp_div_less)
    show "a div 16 div 32 ^ i mod 32 = b div 16 div 32 ^ i mod 32" if "i < 12" for i
      using d [of "11 - i"] that by simp
  qed
next
  assume "a div 16 = b div 16"
  then show "code_chars a = code_chars b" by (simp add: code_chars_def CODE_LENGTH_def code_index)
qed

lemma length_code_chars [simp]: "length (code_chars bits) = 12"
  by (simp add: code_chars_def CODE_LENGTH_def)

lemma code_chars_crockford: "set (code_chars bits) \<subseteq> set CROCKFORD"
  by (auto simp: code_chars_def CODE_LENGTH_def code_index length_CROCKFORD)

lemma grouped_inj: "length a = 12 \<Longrightarrow> length b = 12 \<Longrightarrow> grouped a = grouped b \<Longrightarrow> a = b"
proof -
  assume l: "length a = 12" "length b = 12" and g: "grouped a = grouped b"
  from g l have "take 4 a = take 4 b" "take 4 (drop 4 a) = take 4 (drop 4 b)" "drop 8 a = drop 8 b"
    by (auto simp: grouped_def append_eq_append_conv)
  then have "take 4 a @ take 4 (drop 4 a) @ drop 8 a = take 4 b @ take 4 (drop 4 b) @ drop 8 b" by simp
  moreover have "take 4 c @ take 4 (drop 4 c) @ drop 8 c = c" for c :: string
    by (metis append.assoc append_take_drop_id take_add numeral_plus_numeral semiring_norm(6) add_num_simps)
  ultimately show ?thesis by simp
qed
lemma grouped_code_chars:
  "a < 2 ^ 64 \<Longrightarrow> b < 2 ^ 64 \<Longrightarrow> grouped (code_chars a) = grouped (code_chars b) \<longleftrightarrow> a div 16 = b div 16"
  by (metis grouped_inj length_code_chars code_chars_eq_iff)

subsection \<open>Library: replies\<close>

text \<open>A reply that decides: blanks, the keyword in any case, blanks, the three groups with or without
  hyphens, blanks, and nothing else.\<close>

definition hyphen_or_none :: "string \<Rightarrow> bool" where
  "hyphen_or_none h \<longleftrightarrow> h = [] \<or> h = ''-''"

definition code_group :: "string \<Rightarrow> bool" where
  "code_group g \<longleftrightarrow> length g = 4 \<and> list_all code_alnum g"

definition decision_text :: "bool \<Rightarrow> string \<Rightarrow> string \<Rightarrow> bool" where
  "decision_text approve plain msg \<longleftrightarrow>
    (\<exists>pre kw mid a h b k c post.
      msg = pre @ kw @ mid @ a @ h @ b @ k @ c @ post \<and> list_all is_blank (pre @ mid @ post) \<and> mid \<noteq> [] \<and>
      map ascii_lower kw = (if approve then ''approve'' else ''deny'') \<and> hyphen_or_none h \<and> hyphen_or_none k \<and>
      code_group a \<and> code_group b \<and> code_group c \<and> plain = a @ b @ c)"

lemma four_alnum_iff: "four_alnum s = Some (x, r) \<longleftrightarrow> s = x @ r \<and> code_group x"
  by (auto simp: four_alnum_def code_group_def)

lemma optional_hyphen_split: "\<exists>h. hyphen_or_none h \<and> s = h @ optional_hyphen s"
  by (cases s) (auto simp: optional_hyphen_def hyphen_or_none_def)

lemma code_group_Cons: "code_group g \<Longrightarrow> \<exists>c t. g = c # t \<and> code_alnum c"
  by (cases g) (auto simp: code_group_def)

lemma code_alnum_plain: "code_alnum c \<Longrightarrow> c \<noteq> CHR ''-'' \<and> \<not> is_blank c"
  by (auto simp: code_alnum_def is_lower_def is_upper_def is_digit_def is_blank_def less_eq_char_def)

lemma optional_hyphen_group: "hyphen_or_none h \<Longrightarrow> code_group g \<Longrightarrow> optional_hyphen (h @ g @ r) = g @ r"
  using code_group_Cons [of g] code_alnum_plain by (auto simp: optional_hyphen_def hyphen_or_none_def)

lemma code_groups_iff:
  "code_groups s = Some (plain, r) \<longleftrightarrow>
    (\<exists>a h b k c. s = a @ h @ b @ k @ c @ r \<and> hyphen_or_none h \<and> hyphen_or_none k \<and> code_group a \<and> code_group b \<and>
      code_group c \<and> plain = a @ b @ c)"
proof
  assume "code_groups s = Some (plain, r)"
  then obtain a s1 b s2 c where "four_alnum s = Some (a, s1)" "four_alnum (optional_hyphen s1) = Some (b, s2)"
    "four_alnum (optional_hyphen s2) = Some (c, r)" "plain = a @ b @ c"
    by (auto simp: code_groups_def split: bind_splits)
  moreover obtain h k where "hyphen_or_none h" "s1 = h @ optional_hyphen s1" "hyphen_or_none k" "s2 = k @ optional_hyphen s2"
    using optional_hyphen_split by metis
  ultimately show "\<exists>a h b k c. s = a @ h @ b @ k @ c @ r \<and> hyphen_or_none h \<and> hyphen_or_none k \<and> code_group a \<and>
      code_group b \<and> code_group c \<and> plain = a @ b @ c"
    unfolding four_alnum_iff by metis
next
  assume "\<exists>a h b k c. s = a @ h @ b @ k @ c @ r \<and> hyphen_or_none h \<and> hyphen_or_none k \<and> code_group a \<and> code_group b \<and>
      code_group c \<and> plain = a @ b @ c"
  then obtain a h b k c where s: "s = a @ h @ b @ k @ c @ r" and g: "hyphen_or_none h" "hyphen_or_none k" "code_group a"
    "code_group b" "code_group c" "plain = a @ b @ c" by blast
  have "four_alnum s = Some (a, h @ b @ k @ c @ r)" "four_alnum (b @ k @ c @ r) = Some (b, k @ c @ r)"
    "four_alnum (c @ r) = Some (c, r)"
    using s g by (simp_all add: four_alnum_iff)
  with g show "code_groups s = Some (plain, r)"
    by (simp add: code_groups_def optional_hyphen_group)
qed

lemma dropWhile_blank:
  "list_all P pre \<Longrightarrow> \<not> P c \<Longrightarrow> dropWhile P (pre @ c # s) = c # s"
  by (induction pre) auto

lemma keyword_iff:
  "keyword s = Some (approve, r) \<longleftrightarrow>
    (\<exists>kw. s = kw @ r \<and> map ascii_lower kw = (if approve then ''approve'' else ''deny''))"
proof
  assume "keyword s = Some (approve, r)"
  then show "\<exists>kw. s = kw @ r \<and> map ascii_lower kw = (if approve then ''approve'' else ''deny'')"
    unfolding keyword_def by (metis append_take_drop_id option.distinct(1) option.inject prod.inject)
next
  assume "\<exists>kw. s = kw @ r \<and> map ascii_lower kw = (if approve then ''approve'' else ''deny'')"
  then obtain kw where s: "s = kw @ r" and kw: "map ascii_lower kw = (if approve then ''approve'' else ''deny'')" by blast
  have "length kw = (if approve then 7 else 4)" using arg_cong [OF kw, of length] by simp
  with s kw show "keyword s = Some (approve, r)"
    by (cases approve; cases kw) (auto simp: keyword_def)
qed

lemma keyword_Cons:
  assumes "map ascii_lower kw = (if approve then ''approve'' else ''deny'')"
  shows "\<exists>c t. kw = c # t \<and> \<not> is_blank c \<and> \<not> is_space c \<and> c \<notin> {CHR ''>'', CHR 0x60, CHR ''*'', CHR ''_'', CHR ''~''}"
proof -
  obtain c t where kw: "kw = c # t" using assms by (cases kw) (auto split: if_splits)
  with assms have "ascii_lower c = CHR ''a'' \<or> ascii_lower c = CHR ''d''" by (auto split: if_splits)
  then show ?thesis
    by (auto simp: kw ascii_lower_def is_blank_def is_space_def is_upper_def less_eq_char_def split: if_splits)
qed

lemma command_match_iff: "command_match msg = Some (approve, plain) \<longleftrightarrow> decision_text approve plain msg"
proof
  assume "command_match msg = Some (approve, plain)"
  then obtain rest e where k: "keyword (dropWhile is_blank msg) = Some (approve, rest)" "rest \<noteq> []" "is_blank (hd rest)"
    "code_groups (dropWhile is_blank rest) = Some (plain, e)" "list_all is_blank e"
    by (auto simp: command_match_def split: bind_splits if_splits)
  from k(1) obtain kw where kw: "dropWhile is_blank msg = kw @ rest"
    "map ascii_lower kw = (if approve then ''approve'' else ''deny'')" by (auto simp: keyword_iff)
  from k(4) obtain a h b j c where g: "dropWhile is_blank rest = a @ h @ b @ j @ c @ e" "hyphen_or_none h" "hyphen_or_none j"
    "code_group a" "code_group b" "code_group c" "plain = a @ b @ c" by (auto simp: code_groups_iff)
  have "msg = takeWhile is_blank msg @ kw @ takeWhile is_blank rest @ a @ h @ b @ j @ c @ e"
    using takeWhile_dropWhile_id [of is_blank msg] takeWhile_dropWhile_id [of is_blank rest] kw(1) g(1) by metis
  moreover have "list_all is_blank (takeWhile is_blank msg @ takeWhile is_blank rest @ e)"
    using k(5) by (auto simp: list_all_iff dest: set_takeWhileD)
  moreover have "takeWhile is_blank rest \<noteq> []" using k(2,3) by (cases rest) auto
  ultimately show "decision_text approve plain msg"
    unfolding decision_text_def using kw(2) g(2-) by blast
next
  assume "decision_text approve plain msg"
  then obtain pre kw mid a h b k c post where msg: "msg = pre @ kw @ mid @ a @ h @ b @ k @ c @ post"
    and bl: "list_all is_blank pre" "list_all is_blank mid" "list_all is_blank post" and mid: "mid \<noteq> []"
    and kw: "map ascii_lower kw = (if approve then ''approve'' else ''deny'')"
    and g: "hyphen_or_none h" "hyphen_or_none k" "code_group a" "code_group b" "code_group c" "plain = a @ b @ c"
    unfolding decision_text_def by auto
  let ?typed = "a @ h @ b @ k @ c @ post"
  have "dropWhile is_blank msg = kw @ mid @ ?typed"
    using keyword_Cons [OF kw] dropWhile_blank [OF bl(1)] by (auto simp: msg)
  moreover have "keyword (kw @ mid @ ?typed) = Some (approve, mid @ ?typed)" using kw by (auto simp: keyword_iff)
  moreover have "dropWhile is_blank (mid @ ?typed) = ?typed"
    using code_group_Cons [OF g(3)] dropWhile_blank [OF bl(2)] code_alnum_plain by fastforce
  moreover have "code_groups ?typed = Some (plain, post)" using g unfolding code_groups_iff by blast
  moreover have "is_blank (hd (mid @ ?typed))" using mid bl(2) by (cases mid) auto
  ultimately show "command_match msg = Some (approve, plain)" using bl(3) mid by (simp add: command_match_def)
qed

lemma decision_is_attempt:
  assumes "decision_text approve plain msg"
  shows "is_attempt msg"
proof -
  from assms obtain pre kw mid r where msg: "msg = pre @ kw @ mid @ r"
    and bl: "list_all is_blank pre" "list_all is_blank mid" "mid \<noteq> []"
    and kw: "map ascii_lower kw = (if approve then ''approve'' else ''deny'')"
    unfolding decision_text_def by (auto simp: append_assoc)
  let ?P = "\<lambda>c. is_space c \<or> c \<in> {CHR ''>'', CHR 0x60, CHR ''*'', CHR ''_'', CHR ''~''}"
  have pre: "list_all ?P pre" using bl(1) by (auto simp: list_all_iff is_blank_def is_space_def)
  have "dropWhile ?P msg = kw @ mid @ r" using keyword_Cons [OF kw] dropWhile_blank [OF pre] by (auto simp: msg)
  moreover have "keyword (kw @ mid @ r) = Some (approve, mid @ r)" using kw by (auto simp: keyword_iff)
  moreover obtain c t where "mid = c # t" "is_blank c" using bl(2,3) by (cases mid) auto
  moreover have "is_blank c \<Longrightarrow> \<not> regex_word c" for c
    by (auto simp: is_blank_def regex_word_def is_lower_def is_upper_def is_digit_def less_eq_char_def)
  ultimately show ?thesis by (simp add: is_attempt_def)
qed

lemma ascii_upper_crockford: "c \<in> set CROCKFORD \<Longrightarrow> ascii_upper c = c \<and> code_alnum c"
proof -
  have "list_all (\<lambda>c. ascii_upper c = c \<and> code_alnum c) CROCKFORD" by code_simp
  then show "c \<in> set CROCKFORD \<Longrightarrow> ascii_upper c = c \<and> code_alnum c" by (simp add: list_all_iff)
qed

lemma normalize_plain: "decision_text approve plain msg \<Longrightarrow> normalizeApprovalCode plain = grouped (map ascii_upper plain)"
proof -
  assume "decision_text approve plain msg"
  then have "list_all code_alnum plain" by (auto simp: decision_text_def code_group_def)
  then have "filter (\<lambda>c. c \<noteq> CHR ''-'') plain = plain"
    using code_alnum_plain by (auto simp: list_all_iff intro!: filter_True)
  then show ?thesis by (simp add: normalizeApprovalCode_def)
qed

lemma parse_decision_iff:
  "parseApprovalCommand msg = Some ((if approve then Approve else Deny) code) \<longleftrightarrow>
    (\<exists>plain. decision_text approve plain msg \<and> code = grouped (map ascii_upper plain))"
proof
  assume "parseApprovalCommand msg = Some ((if approve then Approve else Deny) code)"
  then obtain plain where "command_match msg = Some (approve, plain)" "code = normalizeApprovalCode plain"
    by (auto simp: parseApprovalCommand_def split: if_splits option.splits)
  then show "\<exists>plain. decision_text approve plain msg \<and> code = grouped (map ascii_upper plain)"
    using normalize_plain by (auto simp: command_match_iff)
next
  assume "\<exists>plain. decision_text approve plain msg \<and> code = grouped (map ascii_upper plain)"
  then obtain plain where d: "decision_text approve plain msg" "code = grouped (map ascii_upper plain)" by blast
  then have "command_match msg = Some (approve, plain)" by (simp add: command_match_iff)
  with d show "parseApprovalCommand msg = Some ((if approve then Approve else Deny) code)"
    by (simp add: parseApprovalCommand_def decision_is_attempt normalize_plain)
qed

subsection \<open>Properties\<close>

text \<open>C22: The action hash binds an approval to its action. Under a collision-free hash, two actions with
  uniquely named parameters have the same hash exactly when they have the same type and the same
  parameters, whatever the order they are listed in.\<close>

theorem action_hash_binds:
  assumes collision_free: "\<And>x y. sha256Hex x = sha256Hex y \<Longrightarrow> x = y"
    and "distinct (map ap_name ps)" and "distinct (map ap_name qs)"
  shows "approvalActionHash sha256Hex t ps = approvalActionHash sha256Hex u qs \<longleftrightarrow> t = u \<and> set ps = set qs"
proof
  assume "approvalActionHash sha256Hex t ps = approvalActionHash sha256Hex u qs"
  then have "canonicalJson (action_json t ps) = canonicalJson (action_json u qs)"
    by (auto simp: approvalActionHash_def canonicalHash_def dest: collision_free)
  from action_text_inj [OF this] show "t = u \<and> set ps = set qs" by (metis set_sort)
next
  assume eq: "t = u \<and> set ps = set qs"
  have "distinct ps" "distinct qs" using assms(2,3) by (simp_all add: distinct_map)
  with eq have "mset ps = mset qs" using set_eq_iff_mset_eq_distinct by blast
  then have "sort_key ap_name ps = sort_key ap_name qs"
    using assms(2) by (intro sort_key_perm) (simp_all add: inj_on_distinct_map)
  with eq show "approvalActionHash sha256Hex t ps = approvalActionHash sha256Hex u qs"
    by (simp add: approvalActionHash_def canonicalHash_def action_json_def)
qed

definition example_params :: "action_param list" where
  "example_params = [\<lparr>ap_name = ''amount'', ap_value = ''10''\<rparr>, \<lparr>ap_name = ''currency'', ap_value = ''EUR''\<rparr>]"

theorem action_hash_binds_witness:
  "approvalActionHash (\<lambda>x. x) ''finance.payment.create'' example_params =
    approvalActionHash (\<lambda>x. x) ''finance.payment.create'' (rev example_params)"
proof -
  have "distinct (map ap_name example_params)" "distinct (map ap_name (rev example_params))"
    by (simp_all add: example_params_def)
  then show ?thesis using action_hash_binds [of "\<lambda>x. x" example_params "rev example_params"] by simp
qed

text \<open>An approval code is twelve Crockford characters in three groups, and it carries exactly the
  top sixty bits of the digest: two requests have the same code exactly when those bits agree.\<close>

theorem approval_code_sixty_bits:
  "\<exists>a b. approvalCode digest i nonce h = grouped a \<and> length a = 12 \<and> set a \<subseteq> set CROCKFORD \<and>
    approvalCode digest i' nonce' h' = grouped b \<and>
    (approvalCode digest i nonce h = approvalCode digest i' nonce' h' \<longleftrightarrow>
      digest_bits (digest (js_join [CHR 0x00] [CODE_DOMAIN, i, nonce, h])) div 2 ^ 4 =
      digest_bits (digest (js_join [CHR 0x00] [CODE_DOMAIN, i', nonce', h'])) div 2 ^ 4)"
proof -
  let ?a = "digest_bits (digest (js_join [CHR 0x00] [CODE_DOMAIN, i, nonce, h]))"
    and ?b = "digest_bits (digest (js_join [CHR 0x00] [CODE_DOMAIN, i', nonce', h']))"
  have "grouped (code_chars ?a) = grouped (code_chars ?b) \<longleftrightarrow> ?a div 16 = ?b div 16"
    by (rule grouped_code_chars [OF digest_bits_bound digest_bits_bound])
  then show ?thesis
    unfolding approvalCode_def using code_chars_crockford [of ?a]
    by (intro exI [of _ "code_chars ?a"] exI [of _ "code_chars ?b"]) simp
qed


end
