(* ===== verification/Custom_Tools.thy ===== *)
theory Custom_Tools
  imports Approval_Code
begin

text \<open>
  An owner's own HTTPS tools: \<open>packages/policy/src/custom-tool.ts\<close> and the definition rules of
  \<open>packages/contracts/src/custom-tool.ts\<close>. A definition fixes the host, the path template and the method and
  maps typed parameters and named secrets into slots of the request; the values of an approved action are
  checked, and resolved into exactly one request.

  Numbers are doubles in the code: the value a decimal text denotes (none when it overflows) and its text
  are the parameter \<open>number_lib\<close>. Texts are Latin-1, so the check for characters outside it never fires and is
  left out. Response limits do not enter any of these functions.

  The properties: a value cannot change the shape of the request, neither add a path segment or make one that
  means another directory, nor add or change another query parameter; and an accepted definition has one
  source per slot.
\<close>

subsection \<open>Definitions\<close>

datatype custom_slot = PathSlot | QuerySlot | HeaderSlot | BodySlot

datatype custom_method = GET | POST | PUT | PATCH | DELETE

definition customHttpMethodWrites :: "custom_method \<Rightarrow> bool" where
  "customHttpMethodWrites m \<longleftrightarrow> m \<noteq> GET"

fun method_name :: "custom_method \<Rightarrow> string" where
  "method_name GET = ''GET''"
| "method_name POST = ''POST''"
| "method_name PUT = ''PUT''"
| "method_name PATCH = ''PATCH''"
| "method_name DELETE = ''DELETE''"

fun slot_name :: "custom_slot \<Rightarrow> string" where
  "slot_name PathSlot = ''path''"
| "slot_name QuerySlot = ''query''"
| "slot_name HeaderSlot = ''header''"
| "slot_name BodySlot = ''body''"

datatype custom_type = StringParam nat nat | NumberParam "rat option" "rat option" | BooleanParam | EnumParam "string list"

record custom_param =
  cp_name :: string
  cp_slot :: custom_slot
  cp_slotName :: string
  cp_type :: custom_type

record secret_slot =
  ss_alias :: string
  ss_slot :: custom_slot
  ss_slotName :: string

record custom_definition =
  ch_host :: string
  ch_pathTemplate :: string
  ch_method :: custom_method
  ch_parameters :: "custom_param list"
  ch_secretSlots :: "secret_slot list"
  ch_idempotency :: "string option"

definition CUSTOM_DEFINITION_VERSION_PARAM :: string where
  "CUSTOM_DEFINITION_VERSION_PARAM = ''custom_tool_definition_version''"

definition RESERVED_CUSTOM_HEADER_NAMES :: "string list" where
  "RESERVED_CUSTOM_HEADER_NAMES =
    [''host'', ''content-length'', ''content-type'', ''connection'', ''transfer-encoding'', ''upgrade'', ''te'',
     ''trailer'', ''expect'']"

definition isReservedCustomHeaderName :: "string \<Rightarrow> bool" where
  "isReservedCustomHeaderName name \<longleftrightarrow> map ascii_lower name \<in> set RESERVED_CUSTOM_HEADER_NAMES"

subsection \<open>Placeholders\<close>

definition ascii_letter :: "char \<Rightarrow> bool" where
  "ascii_letter c \<longleftrightarrow> is_lower c \<or> is_upper c"

definition placeholder_char :: "char \<Rightarrow> bool" where
  "placeholder_char c \<longleftrightarrow> ascii_letter c \<or> is_digit c \<or> c = CHR ''_'' \<or> c = CHR ''-''"

text \<open>\<open>[A-Za-z][A-Za-z0-9_-]*\}\<close> after an opening brace: the name and the rest.\<close>

definition placeholder :: "string \<Rightarrow> (string \<times> string) option" where
  "placeholder s =
    (case (takeWhile placeholder_char s, dropWhile placeholder_char s) of
       (c # name, b # rest) \<Rightarrow> if ascii_letter c \<and> b = CHR 0x7D then Some (c # name, rest) else None
     | _ \<Rightarrow> None)"

lemma placeholder_SomeD:
  assumes "placeholder s = Some (name, rest)"
  shows "s = name @ CHR 0x7D # rest \<and> name \<noteq> [] \<and> list_all placeholder_char name"
proof -
  have name: "name = takeWhile placeholder_char s" "dropWhile placeholder_char s = CHR 0x7D # rest" "name \<noteq> []"
    using assms by (auto simp: placeholder_def split: list.splits if_splits)
  have "s = name @ CHR 0x7D # rest" using takeWhile_dropWhile_id [of placeholder_char s] name(1,2) by simp
  moreover have "list_all placeholder_char name" unfolding name(1) list_all_iff by (blast dest: set_takeWhileD)
  ultimately show ?thesis using name(3) by blast
qed

lemma placeholder_shorter: "placeholder s = Some (name, rest) \<Longrightarrow> length rest < length s"
  by (drule placeholder_SomeD) (elim conjE, simp)

text \<open>The scan of a template by the global regular expression: literal characters and placeholders.\<close>

datatype template_part = Literal char | Placeholder string

function template_parts :: "string \<Rightarrow> template_part list" where
  "template_parts [] = []"
| "template_parts (c # s) =
    (case (if c = CHR 0x7B then placeholder s else None) of
       Some (name, rest) \<Rightarrow> Placeholder name # template_parts rest
     | None \<Rightarrow> Literal c # template_parts s)"
  by pat_completeness auto

termination
  by (relation "measure length") (auto split: if_splits dest!: placeholder_shorter)

fun placeholder_name :: "template_part \<Rightarrow> string list" where
  "placeholder_name (Placeholder name) = [name]"
| "placeholder_name (Literal c) = []"

definition pathTemplatePlaceholders :: "string \<Rightarrow> string list" where
  "pathTemplatePlaceholders template = concat (map placeholder_name (template_parts template))"

subsection \<open>What is wrong with a definition\<close>

definition braced :: "string \<Rightarrow> string" where
  "braced name = CHR 0x7B # name @ [CHR 0x7D]"

definition path_slot_name_ok :: "string \<Rightarrow> bool" where
  "path_slot_name_ok s =
    (case s of c # cs \<Rightarrow> ascii_letter c \<and> list_all (\<lambda>x. ascii_letter x \<or> is_digit x \<or> x = CHR ''_'') cs | [] \<Rightarrow> False)"

definition slot_key :: "custom_slot \<Rightarrow> string \<Rightarrow> string" where
  "slot_key slot slotName =
    slot_name slot @ '':'' @ (if slot = HeaderSlot then map ascii_lower slotName else slotName)"

text \<open>\<open>claim\<close>: the problems so far and the owner of every claimed slot.\<close>

type_synonym claims = "string list \<times> (string \<times> string) list"

definition claim_slot :: "custom_slot \<Rightarrow> string \<Rightarrow> string \<Rightarrow> claims \<Rightarrow> claims" where
  "claim_slot slot slotName who = (\<lambda>(problems, owners).
    case map_of owners (slot_key slot slotName) of
      Some owner \<Rightarrow> (problems @ [who @ '' and '' @ owner @ '' both target '' @ slot_name slot @ '' '' @ quoted slotName], owners)
    | None \<Rightarrow> (problems, owners @ [(slot_key slot slotName, who)]))"

definition if_problem :: "bool \<Rightarrow> string \<Rightarrow> string list" where
  "if_problem b msg = (if b then [msg] else [])"

definition param_claim :: "custom_method \<Rightarrow> custom_param \<Rightarrow> claims \<Rightarrow> claims" where
  "param_claim method p = (\<lambda>(problems, owners).
    claim_slot (cp_slot p) (cp_slotName p) (''parameter '' @ quoted (cp_name p))
      (problems @
       if_problem (cp_slot p = PathSlot \<and> \<not> path_slot_name_ok (cp_slotName p))
         (''path parameter '' @ quoted (cp_name p) @ '': slot name must match a '' @ quoted (braced ''placeholder'') @ '' name'') @
       if_problem (cp_slot p = HeaderSlot \<and> isReservedCustomHeaderName (cp_slotName p))
         (''parameter '' @ quoted (cp_name p) @ '': '' @ quoted (cp_slotName p) @ '' is a reserved header'') @
       if_problem (cp_slot p = BodySlot \<and> method = GET)
         (''parameter '' @ quoted (cp_name p) @ '': a GET request has no body''), owners))"

definition secret_claim :: "custom_method \<Rightarrow> secret_slot \<Rightarrow> claims \<Rightarrow> claims" where
  "secret_claim method x = (\<lambda>(problems, owners).
    claim_slot (ss_slot x) (ss_slotName x) (''secret '' @ quoted (ss_alias x))
      (problems @
       if_problem (ss_slot x = PathSlot)
         (''secret '' @ quoted (ss_alias x) @ '': a path segment must not come from a secret'') @
       if_problem (ss_slot x = HeaderSlot \<and> isReservedCustomHeaderName (ss_slotName x))
         (''secret '' @ quoted (ss_alias x) @ '': '' @ quoted (ss_slotName x) @ '' is a reserved header'') @
       if_problem (ss_slot x = BodySlot \<and> method = GET)
         (''secret '' @ quoted (ss_alias x) @ '': a GET request has no body''), owners))"

definition repeated :: "string list \<Rightarrow> string list" where
  "repeated xs = filter (\<lambda>x. 1 < length (filter (\<lambda>y. y = x) xs)) (js_set xs)"

definition customHttpsDefinitionProblems :: "custom_definition \<Rightarrow> string list" where
  "customHttpsDefinitionProblems d =
    (let placeholders = pathTemplatePlaceholders (ch_pathTemplate d);
         placeholderSet = js_set placeholders;
         pathParamNames = js_set (map cp_slotName (filter (\<lambda>p. cp_slot p = PathSlot) (ch_parameters d)));
         writes = customHttpMethodWrites (ch_method d);
         shape =
           if_problem (length placeholders \<noteq> length placeholderSet)
             ''the path template names the same placeholder more than once'' @
           map (\<lambda>x. ''path template placeholder '' @ quoted (braced x) @ '' has no matching path parameter'')
             (filter (\<lambda>x. x \<notin> set pathParamNames) placeholderSet) @
           map (\<lambda>x. ''path parameter '' @ quoted x @ '' has no '' @ quoted (braced x) @ '' placeholder in the path template'')
             (filter (\<lambda>x. x \<notin> set placeholderSet) pathParamNames) @
           map (\<lambda>p. ''parameter '' @ quoted (cp_name p) @ '' is reserved for the controller'' @ CHR 0x27 # ''s own definition-version pin'')
             (filter (\<lambda>p. cp_name p = CUSTOM_DEFINITION_VERSION_PARAM) (ch_parameters d)) @
           map (\<lambda>x. ''parameter '' @ quoted x @ '' is declared more than once'') (repeated (map cp_name (ch_parameters d)));
         c0 = (case ch_idempotency d of
           None \<Rightarrow> (shape, []) | Some h \<Rightarrow> claim_slot HeaderSlot h ''the idempotency header'' (shape, []));
         c1 = fold (param_claim (ch_method d)) (ch_parameters d) c0;
         c2 = fold (secret_claim (ch_method d)) (ch_secretSlots d) c1
     in fst c2 @
        map (\<lambda>x. ''secret alias '' @ quoted x @ '' is used more than once'') (repeated (map ss_alias (ch_secretSlots d))) @
        if_problem (writes \<and> ch_idempotency d = None)
          (quoted (method_name (ch_method d)) @ '' writes and must declare an idempotency header; a write cannot be saved without one'') @
        if_problem (\<not> writes \<and> ch_idempotency d \<noteq> None)
          ''a GET has nothing to make idempotent; remove the idempotency header'' @
        (case ch_idempotency d of
           None \<Rightarrow> []
         | Some h \<Rightarrow> if_problem (isReservedCustomHeaderName h) (''the idempotency header '' @ quoted h @ '' is reserved'')))"

subsection \<open>What is wrong with the values\<close>

record number_lib =
  nl_number :: "string \<Rightarrow> rat option"
  nl_show :: "rat \<Rightarrow> string"

definition hasSeparatorOrControlCharacter :: "string \<Rightarrow> bool" where
  "hasSeparatorOrControlCharacter v \<longleftrightarrow> list_ex (\<lambda>c. (of_char c :: nat) \<le> 31 \<or> c = CHR ''/'' \<or> c = CHR 0x5C) v"

definition pathValueIssue :: "string \<Rightarrow> string \<Rightarrow> string option" where
  "pathValueIssue paramName v =
    (if v = [] \<or> v = ''.'' \<or> v = ''..'' \<or> hasSeparatorOrControlCharacter v
     then Some (''parameter '' @ quoted paramName @ '': a path value must not be empty, '' @ quoted ''.'' @ '', '' @
       quoted ''..'' @ '', or contain '' @ quoted ''/'' @ '' or '' @ quoted [CHR 0x5C])
     else None)"

definition hasControlCharacter :: "string \<Rightarrow> bool" where
  "hasControlCharacter v \<longleftrightarrow> list_ex (\<lambda>c. let code = (of_char c :: nat) in code \<le> 31 \<or> code = 127) v"

text \<open>\<open>/^-?(0|[1-9][0-9]*)(\.[0-9]+)?$/\<close>.\<close>

definition number_pattern :: "string \<Rightarrow> bool" where
  "number_pattern s =
    (let t = (case s of c # cs \<Rightarrow> if c = CHR ''-'' then cs else s | [] \<Rightarrow> s);
         whole = takeWhile is_digit t; rest = dropWhile is_digit t
     in whole \<noteq> [] \<and> (hd whole = CHR ''0'' \<longrightarrow> whole = ''0'') \<and>
        (case rest of [] \<Rightarrow> True | c # ds \<Rightarrow> c = CHR ''.'' \<and> ds \<noteq> [] \<and> list_all is_digit ds))"

definition type_issues :: "number_lib \<Rightarrow> (rat \<Rightarrow> string) \<Rightarrow> string \<Rightarrow> custom_type \<Rightarrow> string \<Rightarrow> string list" where
  "type_issues nl show_bound name ty v =
    (case ty of
       StringParam lo hi \<Rightarrow>
         if_problem (length v < lo \<or> hi < length v)
           (''parameter '' @ quoted name @ '' must be between '' @ show_nat lo @ '' and '' @ show_nat hi @ '' characters'')
     | NumberParam lo hi \<Rightarrow>
         if \<not> number_pattern v then [''parameter '' @ quoted name @ '' must be a number'']
         else (case nl_number nl v of
             None \<Rightarrow> [''parameter '' @ quoted name @ '' must be a finite number'']
           | Some n \<Rightarrow>
               (case lo of None \<Rightarrow> [] | Some b \<Rightarrow>
                  if_problem (n < b) (''parameter '' @ quoted name @ '' must be at least '' @ show_bound b)) @
               (case hi of None \<Rightarrow> [] | Some b \<Rightarrow>
                  if_problem (b < n) (''parameter '' @ quoted name @ '' must be at most '' @ show_bound b)))
     | BooleanParam \<Rightarrow>
         if_problem (v \<noteq> ''true'' \<and> v \<noteq> ''false'')
           (''parameter '' @ quoted name @ '' must be '' @ quoted ''true'' @ '' or '' @ quoted ''false'')
     | EnumParam vs \<Rightarrow>
         if_problem (v \<notin> set vs) (''parameter '' @ quoted name @ '' must be one of '' @ js_join '', '' vs))"

definition typedValueIssues :: "number_lib \<Rightarrow> custom_param \<Rightarrow> string \<Rightarrow> string list" where
  "typedValueIssues nl p v =
    (if cp_slot p = PathSlot then (case pathValueIssue (cp_name p) v of None \<Rightarrow> [] | Some e \<Rightarrow> [e]) else []) @
    if_problem ((cp_slot p = HeaderSlot \<or> cp_slot p = QuerySlot) \<and> hasControlCharacter v)
      (''parameter '' @ quoted (cp_name p) @ '': a '' @ slot_name (cp_slot p) @ '' value must not contain control characters'') @
    type_issues nl (nl_show nl) (cp_name p) (cp_type p) v"

definition given_values :: "action_param list \<Rightarrow> (string \<times> string) list" where
  "given_values ps = js_map (map (\<lambda>p. (ap_name p, ap_value p)) ps)"

definition customToolParamIssues :: "number_lib \<Rightarrow> custom_definition \<Rightarrow> action_param list \<Rightarrow> string list" where
  "customToolParamIssues nl d actionParams =
    (let given = given_values actionParams; declared = map cp_name (ch_parameters d) in
     concat (map (\<lambda>p. case map_of given (cp_name p) of
         None \<Rightarrow> [''parameter '' @ quoted (cp_name p) @ '' is missing'']
       | Some v \<Rightarrow> typedValueIssues nl p v) (ch_parameters d)) @
     concat (map (\<lambda>(name, _). if_problem (name \<noteq> CUSTOM_DEFINITION_VERSION_PARAM \<and> name \<notin> set declared)
         (''parameter '' @ quoted name @ '' is not part of this tool'')) given))"

subsection \<open>Encoding\<close>

definition upper_hex :: "nat \<Rightarrow> char" where
  "upper_hex n = (if n < 10 then char_of (48 + n) else char_of (55 + n))"

definition percent :: "nat \<Rightarrow> string" where
  "percent byte = [CHR ''%'', upper_hex (byte div 16), upper_hex (byte mod 16)]"

text \<open>The UTF-8 bytes of a Latin-1 character.\<close>

definition utf8 :: "char \<Rightarrow> nat list" where
  "utf8 c = (let code = (of_char c :: nat) in if code < 128 then [code] else [192 + code div 64, 128 + code mod 64])"

definition uri_char :: "char \<Rightarrow> string" where
  "uri_char c =
    (if ascii_letter c \<or> is_digit c \<or>
        c \<in> {CHR ''-'', CHR ''_'', CHR ''.'', CHR ''!'', CHR ''~'', CHR ''*'', CHR 0x27, CHR ''('', CHR '')''}
     then [c] else concat (map percent (utf8 c)))"

definition encodeURIComponent :: "string \<Rightarrow> string" where
  "encodeURIComponent s = concat (map uri_char s)"

text \<open>One character and one text as \<open>URLSearchParams\<close> writes them.\<close>

definition form_char :: "char \<Rightarrow> string" where
  "form_char c =
    (if ascii_letter c \<or> is_digit c \<or> c \<in> {CHR ''*'', CHR ''-'', CHR ''.'', CHR ''_''} then [c]
     else if c = CHR '' '' then ''+''
     else concat (map percent (utf8 c)))"

definition form_encode :: "string \<Rightarrow> string" where
  "form_encode s = concat (map form_char s)"

subsection \<open>The request\<close>

datatype slot_value = TextValue string | NumberValue rat | BoolValue bool

fun slot_text :: "number_lib \<Rightarrow> slot_value \<Rightarrow> string" where
  "slot_text nl (TextValue s) = s"
| "slot_text nl (NumberValue n) = nl_show nl n"
| "slot_text nl (BoolValue b) = (if b then ''true'' else ''false'')"

type_synonym resolved_slot = "string \<times> slot_value"

record resolved_request =
  rq_method :: custom_method
  rq_host :: string
  rq_path :: string
  rq_query :: "resolved_slot list"
  rq_secretQueryNames :: "string list"
  rq_headers :: "resolved_slot list"
  rq_secretHeaderNames :: "string list"
  rq_bodyFields :: "resolved_slot list"
  rq_secretBodyFieldNames :: "string list"

text \<open>\<open>encodedQueryParams(query).toString()\<close>.\<close>

definition encodedQueryParams :: "number_lib \<Rightarrow> resolved_slot list \<Rightarrow> string" where
  "encodedQueryParams nl query =
    js_join ''&'' (map (\<lambda>(name, v). form_encode name @ ''='' @ form_encode (slot_text nl v)) query)"

text \<open>An infinite number, which no checked value is, is left as its text.\<close>

definition typedValue :: "number_lib \<Rightarrow> custom_param \<Rightarrow> string \<Rightarrow> slot_value" where
  "typedValue nl p raw =
    (case cp_type p of
       NumberParam _ _ \<Rightarrow> (case nl_number nl raw of Some n \<Rightarrow> NumberValue n | None \<Rightarrow> TextValue raw)
     | BooleanParam \<Rightarrow> BoolValue (raw = ''true'')
     | _ \<Rightarrow> TextValue raw)"

definition value_or_empty :: "(string \<times> string) list \<Rightarrow> string \<Rightarrow> string" where
  "value_or_empty values name = (case map_of values name of None \<Rightarrow> [] | Some v \<Rightarrow> v)"

fun resolve_part :: "(string \<Rightarrow> string) \<Rightarrow> template_part \<Rightarrow> string" where
  "resolve_part f (Literal c) = [c]"
| "resolve_part f (Placeholder name) = f name"

definition path_value :: "custom_definition \<Rightarrow> (string \<times> string) list \<Rightarrow> string \<Rightarrow> string" where
  "path_value d values name =
    (let names = js_map (map (\<lambda>p. (cp_slotName p, cp_name p)) (filter (\<lambda>p. cp_slot p = PathSlot) (ch_parameters d))) in
     value_or_empty values (case map_of names name of None \<Rightarrow> name | Some n \<Rightarrow> n))"

definition resolvePath :: "custom_definition \<Rightarrow> (string \<times> string) list \<Rightarrow> string" where
  "resolvePath d values =
    concat (map (resolve_part (\<lambda>name. encodeURIComponent (path_value d values name))) (template_parts (ch_pathTemplate d)))"

definition slots_of :: "number_lib \<Rightarrow> custom_slot \<Rightarrow> (string \<times> string) list \<Rightarrow> custom_param list \<Rightarrow> resolved_slot list" where
  "slots_of nl slot values ps =
    map (\<lambda>p. (cp_slotName p, typedValue nl p (value_or_empty values (cp_name p)))) (filter (\<lambda>p. cp_slot p = slot) ps)"

definition secretsOf :: "custom_definition \<Rightarrow> custom_slot \<Rightarrow> string list" where
  "secretsOf d slot = sort (map ss_slotName (filter (\<lambda>x. ss_slot x = slot) (ch_secretSlots d)))"

definition resolveCustomHttpRequest :: "number_lib \<Rightarrow> custom_definition \<Rightarrow> action_param list \<Rightarrow> resolved_request" where
  "resolveCustomHttpRequest nl d actionParams =
    (let given = given_values (filter (\<lambda>p. ap_name p \<noteq> CUSTOM_DEFINITION_VERSION_PARAM) actionParams) in
     \<lparr>rq_method = ch_method d, rq_host = ch_host d, rq_path = resolvePath d given,
      rq_query = sort_key fst (slots_of nl QuerySlot given (ch_parameters d)),
      rq_secretQueryNames = secretsOf d QuerySlot,
      rq_headers = sort_key fst (slots_of nl HeaderSlot given (ch_parameters d)),
      rq_secretHeaderNames = secretsOf d HeaderSlot,
      rq_bodyFields = js_map (slots_of nl BodySlot given (ch_parameters d)),
      rq_secretBodyFieldNames = secretsOf d BodySlot\<rparr>)"

definition customRequestSummary :: "number_lib \<Rightarrow> resolved_request \<Rightarrow> string" where
  "customRequestSummary nl r =
    (let encoded = encodedQueryParams nl (rq_query r);
         query = sort ((if encoded = [] then [] else js_split (CHR ''&'') encoded) @
           map (\<lambda>name. name @ ''=<secret>'') (rq_secretQueryNames r));
         headers = sort (map fst (rq_headers r) @ map (\<lambda>name. name @ ''(secret)'') (rq_secretHeaderNames r));
         body = sort (map (\<lambda>(name, v). name @ ''='' @ slot_text nl v) (rq_bodyFields r) @
           map (\<lambda>name. name @ ''=<secret>'') (rq_secretBodyFieldNames r))
     in js_join '' ''
          ([method_name (rq_method r) @ '' https://'' @ rq_host r @ rq_path r @
              (if query = [] then [] else CHR ''?'' # js_join ''&'' query)] @
           (if headers = [] then [] else [''headers=['' @ js_join '','' headers @ '']'']) @
           (if body = [] then [] else [''body='' @ CHR 0x7B # js_join '','' body @ [CHR 0x7D]])))"

definition customDefinitionVersionIssues :: "nat \<Rightarrow> nat \<Rightarrow> string list" where
  "customDefinitionVersionIssues requestedVersion currentVersion =
    (if requestedVersion = currentVersion then []
     else [''this custom tool was edited (version '' @ show_nat requestedVersion @ '' -> '' @ show_nat currentVersion @
       '') since the request was made; it must be requested again''])"

subsection \<open>The query\<close>

text \<open>The parser of \<open>application/x-www-form-urlencoded\<close> texts a server applies.\<close>

definition hex_digit :: "char \<Rightarrow> nat" where
  "hex_digit c = (if is_digit c then of_char c - 48 else of_char c - 55)"

fun form_bytes :: "string \<Rightarrow> nat list" where
  "form_bytes (c # h # l # s) =
    (if c = CHR ''%'' then (hex_digit h * 16 + hex_digit l) # form_bytes s
     else (if c = CHR ''+'' then 32 else of_char c) # form_bytes (h # l # s))"
| "form_bytes (c # s) = (if c = CHR ''+'' then 32 else of_char c) # form_bytes s"
| "form_bytes [] = []"

fun utf8_text :: "nat list \<Rightarrow> string" where
  "utf8_text [] = []"
| "utf8_text [b] = [char_of b]"
| "utf8_text (b # b' # bs) =
    (if b < 128 then char_of b # utf8_text (b' # bs) else char_of ((b - 192) * 64 + (b' - 128)) # utf8_text bs)"

definition form_decode :: "string \<Rightarrow> string" where
  "form_decode s = utf8_text (form_bytes s)"

definition parse_query :: "string \<Rightarrow> (string \<times> string) list" where
  "parse_query s =
    (if s = [] then []
     else map (\<lambda>part. (form_decode (takeWhile (\<lambda>c. c \<noteq> CHR ''='') part),
            form_decode (drop 1 (dropWhile (\<lambda>c. c \<noteq> CHR ''='') part)))) (js_split (CHR ''&'') s))"

lemma upper_hex_digit: "n < 16 \<Longrightarrow> hex_digit (upper_hex n) = n"
  by (auto simp: hex_digit_def upper_hex_def is_digit_def less_eq_char_def)

lemma utf8_bytes: "b \<in> set (utf8 c) \<Longrightarrow> b < 256"
proof -
  have "of_char c < (64 * 64 :: nat)" by (rule order_less_trans [OF nat_of_char_less_256]) simp
  then have "of_char c div 64 < (64 :: nat)" by (rule less_mult_imp_div_less)
  then show "b \<in> set (utf8 c) \<Longrightarrow> b < 256" by (auto simp: utf8_def Let_def split: if_splits)
qed

lemma form_bytes_percent: "b < 256 \<Longrightarrow> form_bytes (percent b @ s) = b # form_bytes s"
  by (simp add: percent_def upper_hex_digit)

lemma form_bytes_percents: "\<forall>b \<in> set bs. b < 256 \<Longrightarrow> form_bytes (concat (map percent bs) @ s) = bs @ form_bytes s"
  by (induction bs) (simp_all add: form_bytes_percent)

lemma form_bytes_plain: "c \<noteq> CHR ''%'' \<Longrightarrow> form_bytes (c # s) = (if c = CHR ''+'' then 32 else of_char c) # form_bytes s"
  by (cases s rule: form_bytes.cases) auto

lemma plain_char:
  "ascii_letter c \<or> is_digit c \<or> c \<in> {CHR ''*'', CHR ''-'', CHR ''.'', CHR ''_''} \<Longrightarrow>
    (of_char c :: nat) < 128 \<and> c \<notin> {CHR ''%'', CHR ''+'', CHR ''&'', CHR ''=''}"
  by (auto simp: ascii_letter_def is_lower_def is_upper_def is_digit_def less_eq_char_def)

lemma form_bytes_char: "form_bytes (form_char c @ s) = utf8 c @ form_bytes s"
proof (cases "ascii_letter c \<or> is_digit c \<or> c \<in> {CHR ''*'', CHR ''-'', CHR ''.'', CHR ''_''}")
  case True
  then show ?thesis using plain_char [OF True] by (simp add: form_char_def form_bytes_plain utf8_def)
next
  case False
  then show ?thesis
    using utf8_bytes [of _ c] by (auto simp: form_char_def form_bytes_plain form_bytes_percents utf8_def [of "CHR '' ''"])
qed

lemma utf8_text_char: "utf8_text (utf8 c @ bs) = c # utf8_text bs"
proof (cases "(of_char c :: nat) < 128")
  case True
  then show ?thesis by (cases bs) (simp_all add: utf8_def)
next
  case False
  then have "(192 + of_char c div 64 - 192) * 64 + (128 + of_char c mod 64 - 128) = (of_char c :: nat)" by simp
  with False show ?thesis by (simp add: utf8_def Let_def)
qed

lemma form_decode_encode: "form_decode (form_encode s) = s"
proof -
  have "form_bytes (form_encode s) = concat (map utf8 s)"
    by (induction s) (simp_all add: form_encode_def form_bytes_char)
  moreover have "utf8_text (concat (map utf8 s)) = s" by (induction s) (simp_all add: utf8_text_char)
  ultimately show ?thesis by (simp add: form_decode_def)
qed

lemma upper_hex_plain: "n < 16 \<Longrightarrow> is_digit (upper_hex n) \<or> is_upper (upper_hex n)"
  by (auto simp: upper_hex_def is_digit_def is_upper_def less_eq_char_def)

lemma percent_chars: "b < 256 \<Longrightarrow> x \<in> set (percent b) \<Longrightarrow> x = CHR ''%'' \<or> is_digit x \<or> is_upper x"
  using upper_hex_plain [of "b div 16"] upper_hex_plain [of "b mod 16"] by (auto simp: percent_def)

lemma form_encode_chars: "x \<in> set (form_encode s) \<Longrightarrow> x \<noteq> CHR ''&'' \<and> x \<noteq> CHR ''=''"
proof -
  have "x \<noteq> CHR ''&'' \<and> x \<noteq> CHR ''=''" if "x \<in> set (form_char c)" for c
  proof (cases "ascii_letter c \<or> is_digit c \<or> c \<in> {CHR ''*'', CHR ''-'', CHR ''.'', CHR ''_''}")
    case True
    then show ?thesis using plain_char [OF True] that by (simp add: form_char_def)
  next
    case False
    then have "x = CHR ''+'' \<or> (\<exists>b \<in> set (utf8 c). x \<in> set (percent b))"
      using that by (auto simp: form_char_def split: if_splits)
    then have "x = CHR ''+'' \<or> x = CHR ''%'' \<or> is_digit x \<or> is_upper x" using percent_chars utf8_bytes by blast
    then show ?thesis by (auto simp: is_digit_def is_upper_def less_eq_char_def)
  qed
  then show "x \<in> set (form_encode s) \<Longrightarrow> x \<noteq> CHR ''&'' \<and> x \<noteq> CHR ''=''" by (auto simp: form_encode_def)
qed

text \<open>C27: a value stays in its query parameter. Whatever the names and values of the query slots, the encoded query the
  runner sends, and the approval card shows, is read by a server as exactly those names with exactly those values,
  in that order: no value can add, drop or change another parameter.\<close>

theorem query_roundtrip: "parse_query (encodedQueryParams nl query) = map (\<lambda>(name, v). (name, slot_text nl v)) query"
proof (cases query)
  case Nil
  then show ?thesis by (simp add: parse_query_def encodedQueryParams_def)
next
  case (Cons q qs)
  let ?part = "\<lambda>(name, v). form_encode name @ ''='' @ form_encode (slot_text nl v)"
  have no_amp: "\<forall>x \<in> set (map ?part query). CHR ''&'' \<notin> set x" using form_encode_chars by fastforce
  have "encodedQueryParams nl query \<noteq> []" using Cons by (cases q; cases qs) (auto simp: encodedQueryParams_def)
  moreover have "js_split (CHR ''&'') (encodedQueryParams nl query) = map ?part query"
    unfolding encodedQueryParams_def using js_split_join [OF _ no_amp] Cons by simp
  moreover have "takeWhile (\<lambda>c. c \<noteq> CHR ''='') (form_encode n @ CHR ''='' # w) = form_encode n"
    "dropWhile (\<lambda>c. c \<noteq> CHR ''='') (form_encode n @ CHR ''='' # w) = CHR ''='' # w" for n w
    using form_encode_chars [of _ n] by (auto simp: takeWhile_append takeWhile_eq_all_conv dropWhile_append)
  ultimately show ?thesis by (auto simp: parse_query_def form_decode_encode)
qed

subsection \<open>The path\<close>

lemma placeholder_before_slash:
  "placeholder (s @ CHR ''/'' # u) = map_option (\<lambda>(name, rest). (name, rest @ CHR ''/'' # u)) (placeholder s)"
proof (cases "list_all placeholder_char s")
  case True
  then have all: "\<And>x. x \<in> set s \<Longrightarrow> placeholder_char x" by (simp add: list_all_iff)
  have "\<not> placeholder_char (CHR ''/'')"
    by (simp add: placeholder_char_def ascii_letter_def is_lower_def is_upper_def is_digit_def less_eq_char_def)
  then have d: "dropWhile placeholder_char (s @ CHR ''/'' # u) = CHR ''/'' # u" by (simp add: dropWhile_append2 all)
  have e: "dropWhile placeholder_char s = []" by (simp add: all)
  have "placeholder s = None" unfolding placeholder_def e by (simp split: list.split)
  moreover have "placeholder (s @ CHR ''/'' # u) = None" unfolding placeholder_def d by (simp split: list.split)
  ultimately show ?thesis by simp
next
  case False
  then obtain x where "x \<in> set s" "\<not> placeholder_char x" by (auto simp: list_all_iff)
  then have "takeWhile placeholder_char (s @ CHR ''/'' # u) = takeWhile placeholder_char s"
    "dropWhile placeholder_char (s @ CHR ''/'' # u) = dropWhile placeholder_char s @ CHR ''/'' # u"
    "dropWhile placeholder_char s \<noteq> []" by (auto simp: takeWhile_append dropWhile_append)
  then show ?thesis by (auto simp: placeholder_def split: list.splits)
qed

lemma template_parts_slash: "template_parts (s @ CHR ''/'' # u) = template_parts s @ Literal (CHR ''/'') # template_parts u"
  by (induction s rule: template_parts.induct)
    (auto simp: placeholder_before_slash split: option.splits)

lemma template_literals: "Literal c \<in> set (template_parts s) \<Longrightarrow> c \<in> set s"
proof (induction s rule: template_parts.induct)
  case (2 x s)
  show ?case
  proof (cases "if x = CHR 0x7B then placeholder s else None")
    case None
    with 2 show ?thesis by auto
  next
    case (Some p)
    then obtain name rest where p: "placeholder s = Some (name, rest)" "p = (name, rest)" by (cases p) (auto split: if_splits)
    from placeholder_SomeD [OF p(1)] have "set rest \<subseteq> set s" by auto
    moreover have "Literal c \<in> set (template_parts rest)" using 2(3) Some p by simp
    ultimately show ?thesis using 2(2) [OF Some p(2) [symmetric]] by auto
  qed
qed simp

definition resolve_segment :: "(string \<Rightarrow> string) \<Rightarrow> string \<Rightarrow> string" where
  "resolve_segment f seg = concat (map (resolve_part f) (template_parts seg))"

lemma resolve_join: "resolve_segment f (js_join ''/'' segs) = js_join ''/'' (map (resolve_segment f) segs)"
  by (induction segs rule: induct_list012) (simp_all add: resolve_segment_def template_parts_slash)

lemma resolve_no_slash:
  assumes "CHR ''/'' \<notin> set seg" and "\<And>name. CHR ''/'' \<notin> set (f name)"
  shows "CHR ''/'' \<notin> set (resolve_segment f seg)"
proof
  assume "CHR ''/'' \<in> set (resolve_segment f seg)"
  then obtain part where "part \<in> set (template_parts seg)" "CHR ''/'' \<in> set (resolve_part f part)"
    by (auto simp: resolve_segment_def)
  with assms template_literals show False by (cases part) auto
qed

lemma split_no_sep: "x \<in> set (js_split c s) \<Longrightarrow> c \<notin> set x"
  by (induction s arbitrary: x) (auto split: if_splits list.splits)

lemma resolve_split:
  assumes "\<And>name. CHR ''/'' \<notin> set (f name)"
  shows "js_split (CHR ''/'') (resolve_segment f template) = map (resolve_segment f) (js_split (CHR ''/'') template)"
proof -
  let ?segs = "js_split (CHR ''/'') template"
  have "resolve_segment f template = js_join ''/'' (map (resolve_segment f) ?segs)"
    using resolve_join [of f ?segs] by (simp add: js_join_split)
  moreover have "\<forall>x \<in> set (map (resolve_segment f) ?segs). CHR ''/'' \<notin> set x"
    using resolve_no_slash [OF split_no_sep assms] by auto
  ultimately show ?thesis using js_split_join by simp
qed

lemma uri_char_cases:
  obtains "uri_char c = [c]" "c \<noteq> CHR ''/''"
  | "CHR ''%'' \<in> set (uri_char c)" "\<And>x. x \<in> set (uri_char c) \<Longrightarrow> x = CHR ''%'' \<or> is_digit x \<or> is_upper x"
proof (cases "ascii_letter c \<or> is_digit c \<or>
    c \<in> {CHR ''-'', CHR ''_'', CHR ''.'', CHR ''!'', CHR ''~'', CHR ''*'', CHR 0x27, CHR ''('', CHR '')''}")
  case True
  then have "c \<noteq> CHR ''/''" by (auto simp: ascii_letter_def is_lower_def is_upper_def is_digit_def less_eq_char_def)
  with True that(1) show thesis by (simp add: uri_char_def)
next
  case False
  then have "uri_char c = concat (map percent (utf8 c))" unfolding uri_char_def by (rule if_not_P)
  moreover have "CHR ''%'' \<in> set (concat (map percent (utf8 c)))" by (simp add: utf8_def percent_def Let_def)
  moreover have "x = CHR ''%'' \<or> is_digit x \<or> is_upper x" if "x \<in> set (concat (map percent (utf8 c)))" for x
    using that by (auto dest!: percent_chars [OF utf8_bytes])
  ultimately show thesis using that(2) by metis
qed

lemma encodeURIComponent_no_slash: "CHR ''/'' \<notin> set (encodeURIComponent v)"
proof -
  have hex: "\<not> (CHR ''/'' = CHR ''%'' \<or> is_digit (CHR ''/'') \<or> is_upper (CHR ''/''))"
    by (simp add: is_digit_def is_upper_def less_eq_char_def)
  have "CHR ''/'' \<notin> set (uri_char c)" for c
    by (cases c rule: uri_char_cases) (use hex in auto)
  then show ?thesis by (auto simp: encodeURIComponent_def)
qed

lemma encodeURIComponent_dots: "set (encodeURIComponent v) \<subseteq> {CHR ''.''} \<Longrightarrow> encodeURIComponent v = v"
proof (induction v)
  case (Cons c v)
  then have "set (uri_char c) \<subseteq> {CHR ''.''}" by (auto simp: encodeURIComponent_def)
  then have "uri_char c = [c]" by (cases c rule: uri_char_cases) auto
  with Cons show ?case by (simp add: encodeURIComponent_def)
qed (simp add: encodeURIComponent_def)

subsection \<open>Accepted definitions\<close>

lemma if_problem_Nil [simp]: "if_problem b msg = [] \<longleftrightarrow> \<not> b"
  by (simp add: if_problem_def)

lemma repeated_Nil: "repeated xs = [] \<longleftrightarrow> distinct xs"
proof -
  have "length (filter (\<lambda>y. y = x) ys) = count (mset ys) x" for x and ys :: "string list" by (induction ys) auto
  then have "repeated xs = [] \<longleftrightarrow> (\<forall>x \<in> set xs. count (mset xs) x \<le> 1)"
    unfolding repeated_def filter_empty_conv set_js_set by (simp only: not_less)
  also have "\<dots> \<longleftrightarrow> distinct xs"
    unfolding distinct_count_atmost_1 by (metis One_nat_def count_mset_0_iff le_antisym less_one not_less order_refl)
  finally show ?thesis .
qed

text \<open>Claiming slots one after the other leaves no problem exactly when every source is all right on its own and no
  slot is claimed twice.\<close>

locale slot_claims =
  fixes ok :: "'a \<Rightarrow> bool" and key :: "'a \<Rightarrow> string" and claim :: "'a \<Rightarrow> claims \<Rightarrow> claims"
  assumes claim_Nil: "fst (claim x c) = [] \<longleftrightarrow> fst c = [] \<and> ok x \<and> key x \<notin> fst ` set (snd c)"
    and claim_owner: "key x \<notin> fst ` set (snd c) \<Longrightarrow> fst ` set (snd (claim x c)) = insert (key x) (fst ` set (snd c))"
begin

lemma fold_owners:
  assumes "distinct (map key xs)" and "set (map key xs) \<inter> fst ` set (snd c) = {}"
  shows "fst ` set (snd (fold claim xs c)) = set (map key xs) \<union> fst ` set (snd c)"
  using assms
proof (induction xs arbitrary: c)
  case (Cons x xs)
  then have o: "fst ` set (snd (claim x c)) = insert (key x) (fst ` set (snd c))" by (intro claim_owner) auto
  with Cons show ?case by auto
qed simp

lemma fold_Nil:
  "fst (fold claim xs c) = [] \<longleftrightarrow>
    fst c = [] \<and> list_all ok xs \<and> distinct (map key xs) \<and> set (map key xs) \<inter> fst ` set (snd c) = {}"
proof (induction xs arbitrary: c)
  case (Cons x xs)
  show ?case
  proof (cases "key x \<in> fst ` set (snd c)")
    case True
    then have "fst (claim x c) \<noteq> []" by (simp add: claim_Nil)
    with Cons True show ?thesis by auto
  next
    case False
    with Cons claim_owner [OF False] claim_Nil [of x c] show ?thesis by auto
  qed
qed simp

end

lemma claim_slot_Nil: "fst (claim_slot slot n who (ps, os)) = [] \<longleftrightarrow> ps = [] \<and> slot_key slot n \<notin> fst ` set os"
  by (auto simp: claim_slot_def map_of_eq_None_iff split: option.split) (metis image_eqI fst_conv map_of_SomeD)

lemma claim_slot_owner:
  "slot_key slot n \<notin> fst ` set os \<Longrightarrow> snd (claim_slot slot n who (ps, os)) = os @ [(slot_key slot n, who)]"
  by (auto simp: claim_slot_def map_of_eq_None_iff [symmetric])

definition param_ok :: "custom_method \<Rightarrow> custom_param \<Rightarrow> bool" where
  "param_ok m p \<longleftrightarrow> (cp_slot p = PathSlot \<longrightarrow> path_slot_name_ok (cp_slotName p)) \<and>
    (cp_slot p = HeaderSlot \<longrightarrow> \<not> isReservedCustomHeaderName (cp_slotName p)) \<and> (cp_slot p = BodySlot \<longrightarrow> m \<noteq> GET)"

definition secret_ok :: "custom_method \<Rightarrow> secret_slot \<Rightarrow> bool" where
  "secret_ok m x \<longleftrightarrow> ss_slot x \<noteq> PathSlot \<and>
    (ss_slot x = HeaderSlot \<longrightarrow> \<not> isReservedCustomHeaderName (ss_slotName x)) \<and> (ss_slot x = BodySlot \<longrightarrow> m \<noteq> GET)"

definition param_key :: "custom_param \<Rightarrow> string" where "param_key p = slot_key (cp_slot p) (cp_slotName p)"
definition secret_key :: "secret_slot \<Rightarrow> string" where "secret_key x = slot_key (ss_slot x) (ss_slotName x)"

interpretation params: slot_claims "param_ok m" param_key "param_claim m" for m
  by unfold_locales
    (auto simp: param_claim_def case_prod_unfold claim_slot_Nil claim_slot_owner param_ok_def param_key_def)

interpretation secrets: slot_claims "secret_ok m" secret_key "secret_claim m" for m
  by unfold_locales
    (auto simp: secret_claim_def case_prod_unfold claim_slot_Nil claim_slot_owner secret_ok_def secret_key_def)

lemma claims_Nil:
  "fst (fold (secret_claim m) xs (fold (param_claim m) ps c)) = [] \<longleftrightarrow>
    fst c = [] \<and> list_all (param_ok m) ps \<and> list_all (secret_ok m) xs \<and>
    distinct (map param_key ps @ map secret_key xs) \<and> set (map param_key ps @ map secret_key xs) \<inter> fst ` set (snd c) = {}"
proof (cases "fst (fold (param_claim m) ps c) = []")
  case True
  then have p: "fst c = []" "list_all (param_ok m) ps" "distinct (map param_key ps)" "set (map param_key ps) \<inter> fst ` set (snd c) = {}"
    using params.fold_Nil [of m ps c] by blast+
  from params.fold_owners [OF p(3,4), of m] True p show ?thesis
    unfolding secrets.fold_Nil by auto
next
  case False
  then show ?thesis unfolding secrets.fold_Nil params.fold_Nil by auto
qed

definition header_claims :: "custom_definition \<Rightarrow> string list" where
  "header_claims d = (case ch_idempotency d of None \<Rightarrow> [] | Some h \<Rightarrow> [slot_key HeaderSlot h])"

definition path_names :: "custom_definition \<Rightarrow> string list" where
  "path_names d = map cp_slotName (filter (\<lambda>p. cp_slot p = PathSlot) (ch_parameters d))"

lemma idempotency_claim:
  "fst (case ch_idempotency d of None \<Rightarrow> (ps, []) | Some h \<Rightarrow> claim_slot HeaderSlot h who (ps, [])) = [] \<longleftrightarrow> ps = []"
  "fst ` set (snd (case ch_idempotency d of None \<Rightarrow> (ps, []) | Some h \<Rightarrow> claim_slot HeaderSlot h who (ps, []))) = set (header_claims d)"
  by (simp_all add: claim_slot_Nil claim_slot_owner header_claims_def split: option.split)

text \<open>Accepted definitions, exactly: a definition has no problem if and only if: no slot of the request has two
  sources, idempotency header included and header names compared without case; parameter names and secret aliases
  are unique and none is the reserved version pin; the placeholders of the path are exactly its path parameters, each
  once; no source targets a reserved header, no secret the path, and a GET has no body; and exactly the methods
  that write declare an idempotency header.\<close>

lemma definition_problems_Nil:
  "customHttpsDefinitionProblems d = [] \<longleftrightarrow>
    distinct (header_claims d @ map param_key (ch_parameters d) @ map secret_key (ch_secretSlots d)) \<and>
    distinct (map cp_name (ch_parameters d)) \<and> CUSTOM_DEFINITION_VERSION_PARAM \<notin> set (map cp_name (ch_parameters d)) \<and>
    distinct (map ss_alias (ch_secretSlots d)) \<and>
    distinct (pathTemplatePlaceholders (ch_pathTemplate d)) \<and> set (pathTemplatePlaceholders (ch_pathTemplate d)) = set (path_names d) \<and>
    list_all (param_ok (ch_method d)) (ch_parameters d) \<and> list_all (secret_ok (ch_method d)) (ch_secretSlots d) \<and>
    (ch_method d \<noteq> GET \<longleftrightarrow> ch_idempotency d \<noteq> None) \<and> (\<forall>h. ch_idempotency d = Some h \<longrightarrow> \<not> isReservedCustomHeaderName h)"
proof -
  define ph where "ph = pathTemplatePlaceholders (ch_pathTemplate d)"
  have len: "length ph \<noteq> length (js_set ph) \<longleftrightarrow> \<not> distinct ph"
    using length_remdups_eq [of "rev ph"] unfolding js_set_def length_rev distinct_rev by auto
  have shape: "filter (\<lambda>x. x \<notin> set (js_set (path_names d))) (js_set ph) = [] \<longleftrightarrow> set ph \<subseteq> set (path_names d)"
    "filter (\<lambda>x. x \<notin> set (js_set ph)) (js_set (path_names d)) = [] \<longleftrightarrow> set (path_names d) \<subseteq> set ph"
    "filter (\<lambda>p. cp_name p = CUSTOM_DEFINITION_VERSION_PARAM) (ch_parameters d) = [] \<longleftrightarrow>
      CUSTOM_DEFINITION_VERSION_PARAM \<notin> set (map cp_name (ch_parameters d))"
    unfolding filter_empty_conv by (auto, metis imageI)
  define keys where "keys = map param_key (ch_parameters d) @ map secret_key (ch_secretSlots d)"
  have "distinct (header_claims d)" by (simp add: header_claims_def split: option.split)
  then have D: "distinct (header_claims d @ keys) \<longleftrightarrow> distinct keys \<and> set keys \<inter> set (header_claims d) = {}"
    unfolding distinct_append by blast
  have I: "\<not> (ch_method d \<noteq> GET \<and> ch_idempotency d = None) \<and> \<not> (ch_method d = GET \<and> ch_idempotency d \<noteq> None) \<and>
      (case ch_idempotency d of None \<Rightarrow> []
       | Some h \<Rightarrow> if_problem (isReservedCustomHeaderName h) (''the idempotency header '' @ quoted h @ '' is reserved'')) = [] \<longleftrightarrow>
      (ch_method d \<noteq> GET \<longleftrightarrow> ch_idempotency d \<noteq> None) \<and> (\<forall>h. ch_idempotency d = Some h \<longrightarrow> \<not> isReservedCustomHeaderName h)"
    by (cases "ch_idempotency d") auto
  show ?thesis
    unfolding customHttpsDefinitionProblems_def Let_def append_is_Nil_conv claims_Nil idempotency_claim if_problem_Nil
      map_is_Nil_conv repeated_Nil path_names_def [symmetric] ph_def [symmetric] len shape customHttpMethodWrites_def
      keys_def [symmetric] D I not_not set_eq_subset
    by blast
qed

subsection \<open>The path of a checked request\<close>

lemma given_values_get: "map_of (given_values ps) k = map_of (rev (map (\<lambda>p. (ap_name p, ap_value p)) ps)) k"
  by (simp add: given_values_def js_map_get)

lemma given_without_version:
  "k \<noteq> v \<Longrightarrow> map_of (given_values (filter (\<lambda>p. ap_name p \<noteq> v) ps)) k = map_of (given_values ps) k"
proof -
  have "map_of (map (\<lambda>p. (ap_name p, ap_value p)) (filter (\<lambda>p. ap_name p \<noteq> v) qs)) k =
      map_of (map (\<lambda>p. (ap_name p, ap_value p)) qs) k" if "k \<noteq> v" for qs :: "action_param list"
    using that by (induction qs) auto
  from this [of "rev ps"] show "k \<noteq> v \<Longrightarrow> ?thesis"
    by (simp add: given_values_get rev_map rev_filter)
qed

lemma checked_path_value:
  assumes "customToolParamIssues nl d ps = []" and "CUSTOM_DEFINITION_VERSION_PARAM \<notin> set (map cp_name (ch_parameters d))"
    and "name \<in> set (path_names d)"
  shows "pathValueIssue n (path_value d (given_values (filter (\<lambda>p. ap_name p \<noteq> CUSTOM_DEFINITION_VERSION_PARAM) ps)) name) = None"
proof -
  let ?names = "map (\<lambda>p. (cp_slotName p, cp_name p)) (filter (\<lambda>p. cp_slot p = PathSlot) (ch_parameters d))"
  from assms(3) have "map_of (js_map ?names) name \<noteq> None"
    by (auto simp: js_map_get map_of_eq_None_iff path_names_def image_image)
  then obtain k where k: "map_of (js_map ?names) name = Some k" by blast
  then have "(name, k) \<in> set (rev ?names)" by (intro map_of_SomeD) (simp add: js_map_get)
  then obtain p where p: "p \<in> set (ch_parameters d)" "cp_slot p = PathSlot" "cp_name p = k" by auto
  then have "k \<noteq> CUSTOM_DEFINITION_VERSION_PARAM" using assms(2) by force
  note given = given_without_version [OF this, of ps]
  from assms(1) p obtain v where v: "map_of (given_values ps) k = Some v" "typedValueIssues nl p v = []"
    by (cases "map_of (given_values ps) k") (auto simp: customToolParamIssues_def Let_def)
  then have "path_value d (given_values (filter (\<lambda>p. ap_name p \<noteq> CUSTOM_DEFINITION_VERSION_PARAM) ps)) name = v"
    using k given by (simp add: path_value_def value_or_empty_def)
  with v(2) p(2) show ?thesis by (auto simp: typedValueIssues_def pathValueIssue_def split: if_splits)
qed

lemma template_literal: "pathTemplatePlaceholders s = [] \<Longrightarrow> concat (map (resolve_part f) (template_parts s)) = s"
  by (induction s rule: template_parts.induct) (auto simp: pathTemplatePlaceholders_def split: option.splits if_splits)

lemma placeholders_join:
  "set (pathTemplatePlaceholders (js_join ''/'' segs)) = (\<Union>seg \<in> set segs. set (pathTemplatePlaceholders seg))"
  by (induction segs rule: induct_list012) (auto simp: pathTemplatePlaceholders_def template_parts_slash)

lemma segment_placeholders:
  "seg \<in> set (js_split (CHR ''/'') template) \<Longrightarrow>
    set (pathTemplatePlaceholders seg) \<subseteq> set (pathTemplatePlaceholders template)"
  using placeholders_join [of "js_split (CHR ''/'') template"] by (auto simp: js_join_split)

text \<open>C26: a value stays in its path segment. For an accepted definition and checked values, the request goes to the
  definition's host, and its path has exactly the segments of the template, in order, with only the placeholders
  filled in; a segment that is a placeholder is never empty and never one that means this or the parent directory.\<close>

theorem path_stays_in_template:
  assumes d: "customHttpsDefinitionProblems d = []" and ps: "customToolParamIssues nl d ps = []"
  shows "let r = resolveCustomHttpRequest nl d ps; segs = js_split (CHR ''/'') (rq_path r);
      template = js_split (CHR ''/'') (ch_pathTemplate d) in
    rq_host r = ch_host d \<and> length segs = length template \<and>
    (\<forall>i < length segs. (pathTemplatePlaceholders (template ! i) = [] \<longrightarrow> segs ! i = template ! i) \<and>
      (\<forall>name. template_parts (template ! i) = [Placeholder name] \<longrightarrow>
        segs ! i \<noteq> [] \<and> segs ! i \<noteq> ''.'' \<and> segs ! i \<noteq> ''..''))"
proof -
  let ?g = "given_values (filter (\<lambda>p. ap_name p \<noteq> CUSTOM_DEFINITION_VERSION_PARAM) ps)"
  let ?f = "\<lambda>name. encodeURIComponent (path_value d ?g name)"
  let ?t = "js_split (CHR ''/'') (ch_pathTemplate d)"
  have "CUSTOM_DEFINITION_VERSION_PARAM \<notin> set (map cp_name (ch_parameters d))"
    and names: "set (pathTemplatePlaceholders (ch_pathTemplate d)) = set (path_names d)"
    using d unfolding definition_problems_Nil by blast+
  note checked = checked_path_value [OF ps this(1)]
  have segs: "js_split (CHR ''/'') (rq_path (resolveCustomHttpRequest nl d ps)) = map (resolve_segment ?f) ?t"
    using resolve_split [of ?f "ch_pathTemplate d", OF encodeURIComponent_no_slash]
    by (simp add: resolveCustomHttpRequest_def Let_def resolvePath_def resolve_segment_def)
  have literal: "resolve_segment f seg = seg" if "pathTemplatePlaceholders seg = []" for f seg
    using that template_literal by (simp add: resolve_segment_def)
  have good: "resolve_segment ?f seg \<notin> {[], ''.'', ''..''}"
    if "template_parts seg = [Placeholder name]" "seg \<in> set ?t" for seg name
  proof -
    have "name \<in> set (pathTemplatePlaceholders (ch_pathTemplate d))"
      using that segment_placeholders [OF that(2)] by (force simp: pathTemplatePlaceholders_def)
    then have "pathValueIssue [] (path_value d ?g name) = None" using checked names by simp
    moreover have "encodeURIComponent v \<in> {[], ''.'', ''..''} \<Longrightarrow> v \<in> {[], ''.'', ''..''}" for v
      using encodeURIComponent_dots [of v] by auto
    ultimately show ?thesis using that(1) by (auto simp: resolve_segment_def pathValueIssue_def split: if_splits)
  qed
  show ?thesis
    unfolding Let_def segs using literal good by (auto simp: resolveCustomHttpRequest_def Let_def)
qed

definition example_definition :: custom_definition where
  "example_definition = \<lparr>ch_host = ''api.example.com'', ch_pathTemplate = ''/users/'' @ braced ''id'' @ ''/posts'', ch_method = GET,
     ch_parameters = [\<lparr>cp_name = ''user'', cp_slot = PathSlot, cp_slotName = ''id'', cp_type = StringParam 1 20\<rparr>],
     ch_secretSlots = [], ch_idempotency = None\<rparr>"

definition example_numbers :: number_lib where
  "example_numbers = \<lparr>nl_number = (\<lambda>s. None), nl_show = (\<lambda>n. [])\<rparr>"

definition example_values :: "action_param list" where
  "example_values = [\<lparr>ap_name = ''user'', ap_value = ''a b..''\<rparr>]"

theorem path_stays_in_template_witness:
  "customHttpsDefinitionProblems example_definition = [] \<and> customToolParamIssues example_numbers example_definition example_values = [] \<and>
    length (js_split (CHR ''/'') (rq_path (resolveCustomHttpRequest example_numbers example_definition example_values))) = 4"
proof -
  have d: "customHttpsDefinitionProblems example_definition = []" by code_simp
  have v: "customToolParamIssues example_numbers example_definition example_values = []" by code_simp
  have "length (js_split (CHR ''/'') (ch_pathTemplate example_definition)) = 4" by code_simp
  with d v path_stays_in_template [OF d v] show ?thesis by (simp add: Let_def)
qed

end
