(* ===== verification/Waits.thy ===== *)
theory Waits
  imports Contracts
begin

text \<open>
  Wait matching, \<open>packages/core/src/waits.ts\<close>: when an event answers a durable wait of an agent, and
  how a requested timeout is clamped. The properties are the trust guarantees of a wait: only the
  named sender, in the right thread and in time, resumes a waiting agent, and Gateway-only event
  types count only when the Gateway emitted them.
\<close>

record active_wait =
  wait_id :: string
  wait_agentId :: string
  wait_condition :: wait_condition
  wait_timeoutAt :: millis
  wait_threadRootIds :: "string list option"

definition isThreadBound :: "wait_condition \<Rightarrow> bool" where
  "isThreadBound c \<longleftrightarrow> wc_eventType c = MmThreadReply"

definition isGatewayEmitted :: "gateway_event \<Rightarrow> bool" where
  "isGatewayEmitted e \<longleftrightarrow> ev_source e = GATEWAY_SOURCE \<and> ev_trustlevel e = SystemTrusted"

text \<open>The thread a post belongs to: \<open>root_id ?? post_id\<close>.\<close>

definition post_thread :: "mattermost_post_data \<Rightarrow> string" where
  "post_thread p = (case root_id p of None \<Rightarrow> post_id p | Some r \<Rightarrow> r)"

definition waitMatches :: "active_wait \<Rightarrow> gateway_event \<Rightarrow> millis \<Rightarrow> bool" where
  "waitMatches w e now =
    (let c = wait_condition w in
     if ev_type e \<noteq> wc_eventType c \<or> ev_correlationid e \<noteq> wc_correlationId c then False
     else
       let resolution = (ev_type e = ApprovalResolved \<and> isGatewayEmitted e) in
       if wait_timeoutAt w \<le> now \<and> \<not> resolution then False
       else if isReservedEventType (ev_type e) \<and> \<not> isGatewayEmitted e then False
       else
         let namesSender = (0 < length (wc_expectedSenderAgentIds c) \<or>
                            0 < length (wc_expectedSenderUserIds c)) in
         case mattermostPost e of
           None \<Rightarrow> \<not> namesSender \<and> wc_requireTargetAgentId c = None
         | Some post \<Rightarrow>
             if sender_agent_id post = Some (wait_agentId w) then False
             else if (case wait_threadRootIds w of None \<Rightarrow> False
                      | Some roots \<Rightarrow> post_thread post \<notin> set roots) then False
             else
               let senderMatches =
                 ((case sender_agent_id post of None \<Rightarrow> False
                   | Some a \<Rightarrow> a \<in> set (wc_expectedSenderAgentIds c)) \<or>
                  (ev_trustlevel e = HumanTrusted \<and>
                   user_id post \<in> set (wc_expectedSenderUserIds c))) in
               if namesSender \<and> \<not> senderMatches then False
               else (case wc_requireTargetAgentId c of None \<Rightarrow> True
                     | Some a \<Rightarrow> a \<in> set (eventTargets e)))"

definition MAX_WAIT_SECONDS :: int where "MAX_WAIT_SECONDS = 7 * 24 * 3600"
definition MIN_WAIT_SECONDS :: int where "MIN_WAIT_SECONDS = 60"

definition clampWaitTimeout :: "millis \<Rightarrow> millis \<Rightarrow> millis" where
  "clampWaitTimeout requested now =
    (let mn = now + MIN_WAIT_SECONDS * 1000; mx = now + MAX_WAIT_SECONDS * 1000
     in min mx (max mn requested))"

subsection \<open>Lemmas\<close>

lemma waitMatches_type:
  "waitMatches w e now \<Longrightarrow> ev_type e = wc_eventType (wait_condition w) \<and>
     ev_correlationid e = wc_correlationId (wait_condition w)"
  by (auto simp: waitMatches_def Let_def split: if_splits)

lemma waitMatches_in_time:
  "waitMatches w e now \<Longrightarrow> \<not> (ev_type e = ApprovalResolved \<and> isGatewayEmitted e) \<Longrightarrow>
     now < wait_timeoutAt w"
  by (auto simp: waitMatches_def Let_def split: if_splits)

lemma waitMatches_reserved:
  "waitMatches w e now \<Longrightarrow> isReservedEventType (ev_type e) \<Longrightarrow> isGatewayEmitted e"
  by (auto simp: waitMatches_def Let_def split: if_splits)

lemma waitMatches_post:
  assumes "waitMatches w e now" and "mattermostPost e = Some p"
  shows "sender_agent_id p \<noteq> Some (wait_agentId w)"
    and "\<And>roots. wait_threadRootIds w = Some roots \<Longrightarrow> post_thread p \<in> set roots"
    and "wc_expectedSenderAgentIds (wait_condition w) \<noteq> [] \<or>
         wc_expectedSenderUserIds (wait_condition w) \<noteq> [] \<Longrightarrow>
         (\<exists>a. sender_agent_id p = Some a \<and> a \<in> set (wc_expectedSenderAgentIds (wait_condition w))) \<or>
         (ev_trustlevel e = HumanTrusted \<and>
          user_id p \<in> set (wc_expectedSenderUserIds (wait_condition w)))"
    and "\<And>a. wc_requireTargetAgentId (wait_condition w) = Some a \<Longrightarrow> a \<in> set (eventTargets e)"
  using assms by (auto simp: waitMatches_def Let_def split: if_splits option.splits)

lemma waitMatches_no_post:
  assumes "waitMatches w e now" and "mattermostPost e = None"
  shows "wc_expectedSenderAgentIds (wait_condition w) = []"
    and "wc_expectedSenderUserIds (wait_condition w) = []"
    and "wc_requireTargetAgentId (wait_condition w) = None"
  using assms by (auto simp: waitMatches_def Let_def split: if_splits)

text \<open>A reply of an owner in the thread an agent asked in, and the agent's wait for it.\<close>

definition example_reply :: gateway_event where
  "example_reply =
    \<lparr>ev_id = ''mattermost:post:1'', ev_source = ''mattermost://team'', ev_type = MmThreadReply,
     ev_time = 1000, ev_subject = None, ev_correlationid = ''thread:x'', ev_causationid = None,
     ev_traceparent = None, ev_trustlevel = HumanTrusted, ev_hop = 0,
     ev_data =
       [(''post_id'', JStr ''p0000000000000000000000002''),
        (''root_id'', JStr ''p0000000000000000000000001''),
        (''channel_id'', JStr ''c0000000000000000000000001''),
        (''user_id'', JStr ''u0000000000000000000000001''),
        (''sender_agent_id'', JNull),
        (''target_agent_ids'', JArr [JStr ''developer'']),
        (''message'', JStr ''yes'')]\<rparr>"

definition example_wait :: active_wait where
  "example_wait =
    \<lparr>wait_id = ''w1'', wait_agentId = ''developer'',
     wait_condition =
       \<lparr>wc_eventType = MmThreadReply, wc_correlationId = ''thread:x'',
        wc_expectedSenderAgentIds = [], wc_expectedSenderUserIds = [''u0000000000000000000000001''],
        wc_requireTargetAgentId = None, wc_timeoutAt = 5000\<rparr>,
     wait_timeoutAt = 5000, wait_threadRootIds = Some [''p0000000000000000000000001'']\<rparr>"

lemma example_reply_post:
  "mattermostPost example_reply = Some
    \<lparr>post_id = ''p0000000000000000000000002'', root_id = Some ''p0000000000000000000000001'',
     channel_id = ''c0000000000000000000000001'', user_id = ''u0000000000000000000000001'',
     sender_agent_id = None, target_agent_ids = [''developer''], message = ''yes''\<rparr>"
  by code_simp

lemma example_wait_matches: "waitMatches example_wait example_reply 2000"
  by code_simp

text \<open>C33: who may answer a question. If an event satisfies a (schema-valid) wait for a thread reply,
  the event is a readable post, not written by the waiting agent itself, written by one of the
  senders the wait names (an agent by its bot identity, a human only with human trust), inside one
  of the threads the wait is bound to, addressed to the required agent when one is required, in the
  awaited correlation, and before the wait's clamped timeout.\<close>

theorem reply_wait_answered_by_named_sender:
  assumes "WaitConditionSchema (wait_condition w)"
    and "wc_eventType (wait_condition w) = MmThreadReply"
    and "wait_threadRootIds w = Some roots"
    and "waitMatches w e now"
  shows "\<exists>p. mattermostPost e = Some p \<and> sender_agent_id p \<noteq> Some (wait_agentId w) \<and>
      ((\<exists>a. sender_agent_id p = Some a \<and> a \<in> set (wc_expectedSenderAgentIds (wait_condition w))) \<or>
       (ev_trustlevel e = HumanTrusted \<and>
        user_id p \<in> set (wc_expectedSenderUserIds (wait_condition w)))) \<and>
      post_thread p \<in> set roots \<and>
      (\<forall>a. wc_requireTargetAgentId (wait_condition w) = Some a \<longrightarrow> a \<in> set (target_agent_ids p)) \<and>
      ev_correlationid e = wc_correlationId (wait_condition w) \<and> now < wait_timeoutAt w"
proof -
  have named: "wc_expectedSenderAgentIds (wait_condition w) \<noteq> [] \<or>
      wc_expectedSenderUserIds (wait_condition w) \<noteq> []"
    using assms(1,2) by (auto simp: WaitConditionSchema_def SENDER_REQUIRED_def)
  then obtain p where p: "mattermostPost e = Some p"
    using waitMatches_no_post [OF assms(4)] by blast
  have "ev_type e = MmThreadReply" using waitMatches_type [OF assms(4)] assms(2) by simp
  then have "now < wait_timeoutAt w" using waitMatches_in_time [OF assms(4)] by simp
  with p named waitMatches_post [OF assms(4) p] waitMatches_type [OF assms(4)] assms(3)
  show ?thesis by (auto simp: eventTargets_def)
qed

theorem reply_wait_answered_by_named_sender_witness:
  "waitMatches example_wait example_reply 2000 \<and>
   (\<exists>p. mattermostPost example_reply = Some p \<and> sender_agent_id p \<noteq> Some ''developer'' \<and>
      post_thread p \<in> {''p0000000000000000000000001''})"
proof -
  have s: "WaitConditionSchema (wait_condition example_wait)" by code_simp
  have t: "wc_eventType (wait_condition example_wait) = MmThreadReply"
    by (simp add: example_wait_def)
  have r: "wait_threadRootIds example_wait = Some [''p0000000000000000000000001'']"
    by (simp add: example_wait_def)
  have a: "wait_agentId example_wait = ''developer''" by (simp add: example_wait_def)
  show ?thesis
    using reply_wait_answered_by_named_sender [OF s t r example_wait_matches] example_wait_matches a
    by auto
qed

text \<open>Approvals, timers and lifecycle events resume a waiting agent only when the Gateway itself
  emitted them, whatever their content; a forged \<open>approval.granted\<close> never answers a wait.\<close>

theorem reserved_wait_needs_gateway:
  "waitMatches w e now \<and> isReservedEventType (ev_type e) \<longrightarrow>
     ev_source e = GATEWAY_SOURCE \<and> ev_trustlevel e = SystemTrusted"
  using waitMatches_reserved by (auto simp: isGatewayEmitted_def)

definition example_resolution_wait :: active_wait where
  "example_resolution_wait =
    \<lparr>wait_id = ''w2'', wait_agentId = ''finance'',
     wait_condition =
       \<lparr>wc_eventType = ApprovalResolved, wc_correlationId = ''approval:1'',
        wc_expectedSenderAgentIds = [], wc_expectedSenderUserIds = [],
        wc_requireTargetAgentId = None, wc_timeoutAt = 5000\<rparr>,
     wait_timeoutAt = 5000, wait_threadRootIds = None\<rparr>"

definition example_resolution :: gateway_event where
  "example_resolution =
    internalEvent ''approval-resolved:1'' ApprovalResolved 9000 None ''approval:1'' None 0 [] None"

text \<open>A wait lasts at least one minute and at most seven days from now, whatever the agent asked
  for; a request inside that range is kept as it is, and clamping again changes nothing.\<close>

theorem clampWaitTimeout_range:
  "now + 60000 \<le> clampWaitTimeout r now \<and> clampWaitTimeout r now \<le> now + 604800000 \<and>
   (clampWaitTimeout r now = r \<longleftrightarrow> r \<in> {now + 60000 .. now + 604800000}) \<and>
   clampWaitTimeout (clampWaitTimeout r now) now = clampWaitTimeout r now"
  by (auto simp: clampWaitTimeout_def MAX_WAIT_SECONDS_def MIN_WAIT_SECONDS_def Let_def min_def max_def)

end
