(* ===== verification/Agent_State.thy ===== *)
theory Agent_State
  imports Gateway_Prelude
begin

text \<open>
  The agent state machine of \<open>packages/core/src/state-machine.ts\<close>: the states and transitions, the
  transition table, the total lookup \<open>nextAgentState\<close> and the throwing variant
  \<open>requireTransition\<close>. It instantiates the generic transition function, whose run lemmas give the
  properties of whole histories of an agent.
\<close>

datatype agent_state = Disabled | Idle | Queued | Running | Waiting | Failed | Paused

datatype agent_transition =
    Enable | EnableFailed | Disable | Schedule | Start | Retry | CompleteIdle | CompleteWaiting
  | Fail | Pause | ResumeIdle | ResumeWaiting | WaitResolved | Redrive

text \<open>\<open>TRANSITIONS\<close>, one row per state; \<open>None\<close> where the row has no such key.\<close>

fun TRANSITIONS :: "agent_state \<Rightarrow> agent_transition \<Rightarrow> agent_state option" where
  "TRANSITIONS Disabled = [Enable \<mapsto> Idle, EnableFailed \<mapsto> Failed]"
| "TRANSITIONS Idle = [Schedule \<mapsto> Queued, Pause \<mapsto> Paused, Disable \<mapsto> Disabled]"
| "TRANSITIONS Queued =
    [Start \<mapsto> Running, Retry \<mapsto> Queued, CompleteIdle \<mapsto> Idle, CompleteWaiting \<mapsto> Waiting,
     Fail \<mapsto> Failed, Pause \<mapsto> Paused]"
| "TRANSITIONS Running =
    [Retry \<mapsto> Queued, CompleteIdle \<mapsto> Idle, CompleteWaiting \<mapsto> Waiting, Fail \<mapsto> Failed,
     Pause \<mapsto> Paused]"
| "TRANSITIONS Waiting = [WaitResolved \<mapsto> Queued, Pause \<mapsto> Paused, Disable \<mapsto> Disabled]"
| "TRANSITIONS Failed = [Redrive \<mapsto> Queued, Disable \<mapsto> Disabled]"
| "TRANSITIONS Paused = [ResumeIdle \<mapsto> Idle, ResumeWaiting \<mapsto> Waiting, Disable \<mapsto> Disabled]"

definition nextAgentState :: "agent_state \<Rightarrow> agent_transition \<Rightarrow> agent_state option" where
  "nextAgentState state transition = TRANSITIONS state transition"

datatype transition_error = InvalidTransitionError string agent_state agent_transition

definition requireTransition ::
    "string \<Rightarrow> agent_state \<Rightarrow> agent_transition \<Rightarrow> transition_error + agent_state" where
  "requireTransition agentId state transition =
    (case nextAgentState state transition of
       None \<Rightarrow> Inl (InvalidTransitionError agentId state transition)
     | Some next \<Rightarrow> Inr next)"

interpretation agent: transition_function nextAgentState .

lemma nextAgentState_cases:
  "nextAgentState s t = Some s' \<longleftrightarrow>
    (s, t, s') \<in> {(Disabled, Enable, Idle), (Disabled, EnableFailed, Failed),
      (Idle, Schedule, Queued), (Idle, Pause, Paused), (Idle, Disable, Disabled),
      (Queued, Start, Running), (Queued, Retry, Queued), (Queued, CompleteIdle, Idle),
      (Queued, CompleteWaiting, Waiting), (Queued, Fail, Failed), (Queued, Pause, Paused),
      (Running, Retry, Queued), (Running, CompleteIdle, Idle), (Running, CompleteWaiting, Waiting),
      (Running, Fail, Failed), (Running, Pause, Paused),
      (Waiting, WaitResolved, Queued), (Waiting, Pause, Paused), (Waiting, Disable, Disabled),
      (Failed, Redrive, Queued), (Failed, Disable, Disabled),
      (Paused, ResumeIdle, Idle), (Paused, ResumeWaiting, Waiting), (Paused, Disable, Disabled)}"
  by (cases s; cases t) (auto simp: nextAgentState_def)

definition busy :: "agent_state \<Rightarrow> bool" where
  "busy s \<longleftrightarrow> s = Queued \<or> s = Running"

lemma stays_failed_or_disabled:
  assumes "s \<in> {Failed, Disabled}" and "t \<notin> {Redrive, Enable}" and "nextAgentState s t = Some s'"
  shows "s' \<in> {Failed, Disabled}"
  using assms by (auto simp: nextAgentState_cases)

lemma requireTransition_Inr_iff: "requireTransition a s t = Inr s' \<longleftrightarrow> nextAgentState s t = Some s'"
  by (auto simp: requireTransition_def split: option.splits)

lemma starts_busy:
  assumes "nextAgentState s t = Some s'" and "\<not> busy s" and "busy s'"
  shows "t \<in> {Schedule, WaitResolved, Redrive}"
  using assms by (auto simp: nextAgentState_cases busy_def)

text \<open>C36: a failed agent goes back to work only by an operator's decision. Along any history of
  allowed transitions from FAILED to a state that is neither FAILED nor DISABLED, some transition
  was a redrive or an (unconditional) enable.\<close>

theorem failed_until_operator:
  assumes "agent.run Failed ts = Some s" and "s \<noteq> Failed" and "s \<noteq> Disabled"
  shows "Redrive \<in> set ts \<or> Enable \<in> set ts"
proof -
  have "\<exists>t\<in>set ts. t \<in> {Redrive, Enable}"
  proof (rule agent.run_escape [where I = "\<lambda>s. s \<in> {Failed, Disabled}" and s = Failed and s' = s])
    fix s t s'
    assume "s \<in> {Failed, Disabled}" "t \<notin> {Redrive, Enable}" "nextAgentState s t = Some s'"
    then show "s' \<in> {Failed, Disabled}" by (rule stays_failed_or_disabled)
  qed (use assms in auto)
  then show ?thesis by auto
qed

theorem failed_until_operator_witness:
  "agent.run Failed [Redrive, Start, CompleteIdle] = Some Idle \<and>
    (Redrive \<in> set [Redrive, Start, CompleteIdle] \<or> Enable \<in> set [Redrive, Start, CompleteIdle])"
proof -
  have run: "agent.run Failed [Redrive, Start, CompleteIdle] = Some Idle"
    by (simp add: nextAgentState_def)
  show ?thesis using run failed_until_operator [OF run] by simp
qed

text \<open>A report may arrive before the run's \<open>started\<close> report. Every outcome the machine accepts
  in RUNNING it accepts in QUEUED with the same result, and every transition of a QUEUED agent
  except \<open>start\<close> is also a transition of a RUNNING one.\<close>

theorem early_report_same_outcome:
  "nextAgentState Queued t =
    (if t = Start then Some Running else nextAgentState Running t)"
  by (cases t) (simp_all add: nextAgentState_def)

end
