(* ===== verification/Routing.thy ===== *)
theory Routing
  imports Waits Agent_State
begin

text \<open>
  Deterministic routing of one event, \<open>packages/core/src/routing.ts\<close>: wait candidates, wake
  candidates by target and by subscription, the tiers, and the loop guards that grant, ignore or
  block each candidate. The properties: every agent is routed at most once, only where policy lets
  it be, grants stay inside the cascade and thread budgets, wait matches come from real waits, and
  the result does not depend on the order the agents are listed in.
\<close>

record wake_rule =
  wr_event_type :: gateway_event_type
  wr_target_agent_id :: "string option"

record routing_agent =
  ra_id :: string
  ra_state :: agent_state
  ra_wakeRules :: "wake_rule list"
  ra_channelIds :: "string list"
  ra_channelFloors :: "(string \<times> millis) list"

record loop_stats =
  cascadeWakes :: nat
  runsLastHour :: "(string \<times> nat) list"
  duplicateContent :: nat
  pairwiseMessages :: "(string \<times> nat) list"
  threadWakes :: nat

record organization_limits =
  max_agent_hops :: nat
  max_turns_per_cascade :: nat
  max_runs_per_agent_per_hour :: nat
  default_run_timeout_seconds :: nat

record routing_input =
  ri_event :: gateway_event
  ri_agents :: "routing_agent list"
  ri_waits :: "active_wait list"
  ri_limits :: organization_limits
  ri_stats :: loop_stats
  ri_now :: millis

datatype route_decision = RWake | RIgnore | RWaitMatch | RBlocked

datatype route_reason =
    WaitMatchedR | WaitTimeoutR | WaitLostR | TargetR | SubscriptionR | SelfPostR
  | ChannelNotAllowedR | AgentDisabledR | HopLimitR | CascadeLimitR | RateLimitR
  | ThreadRateLimitR | DuplicatePayloadR | PairwiseLimitR

record route =
  rt_agentId :: string
  rt_decision :: route_decision
  rt_reason :: route_reason
  rt_waitId :: "string option"
  rt_priority :: nat

definition MAX_PAIRWISE_MESSAGES :: nat where "MAX_PAIRWISE_MESSAGES = 12"
definition MAX_THREAD_WAKES_PER_WINDOW :: nat where "MAX_THREAD_WAKES_PER_WINDOW = 30"

definition PRIORITY_wait :: nat where "PRIORITY_wait = 10"
definition PRIORITY_target :: nat where "PRIORITY_target = 5"
definition PRIORITY_subscription :: nat where "PRIORITY_subscription = 0"

text \<open>A candidate's reason is one of \<open>WaitMatchedR\<close>, \<open>WaitTimeoutR\<close>, \<open>TargetR\<close>, \<open>SubscriptionR\<close>.\<close>

record candidate =
  cd_agentId :: string
  cd_reason :: route_reason
  cd_waitId :: "string option"

text \<open>The loop over the waits by timeout: each agent's first matching wait, in insertion order.\<close>

definition byAgent_waits :: "gateway_event \<Rightarrow> millis \<Rightarrow> active_wait list \<Rightarrow> (string \<times> active_wait) list" where
  "byAgent_waits e now ws =
    fold (\<lambda>w m. if map_of m (wait_agentId w) = None \<and> waitMatches w e now
                then AList.update (wait_agentId w) w m else m)
      (sort_key wait_timeoutAt ws) []"

definition waitCandidates :: "(string \<Rightarrow> bool) \<Rightarrow> routing_input \<Rightarrow> candidate list" where
  "waitCandidates uuid_ok input =
    (let e = ri_event input in
     if ev_type e = AgentWaitTimeout then
       (if \<not> isGatewayEmitted e then []
        else
          case WaitTimeoutDataSchema uuid_ok (ev_data e) of
            None \<Rightarrow> []
          | Some (agent_id, wid) \<Rightarrow>
              (case find (\<lambda>w. wait_id w = wid) (ri_waits input) of
                 None \<Rightarrow> []
               | Some w \<Rightarrow>
                   if wait_agentId w = agent_id
                   then [\<lparr>cd_agentId = wait_agentId w, cd_reason = WaitTimeoutR,
                          cd_waitId = Some (wait_id w)\<rparr>]
                   else []))
     else
       map (\<lambda>(_, w). \<lparr>cd_agentId = wait_agentId w, cd_reason = WaitMatchedR,
                       cd_waitId = Some (wait_id w)\<rparr>)
         (byAgent_waits e (ri_now input) (ri_waits input)))"

definition subscribes :: "routing_agent \<Rightarrow> gateway_event \<Rightarrow> bool" where
  "subscribes agent e \<longleftrightarrow>
    \<not> isReservedEventType (ev_type e) \<and>
    \<not> startsWith (event_type_name (ev_type e)) ''mattermost.'' \<and>
    list_ex (\<lambda>rule. wr_target_agent_id rule = None \<and> wr_event_type rule = ev_type e)
      (ra_wakeRules agent)"

definition wakeCandidates :: "routing_input \<Rightarrow> string set \<Rightarrow> candidate list" where
  "wakeCandidates input taken =
    (let e = ri_event input; targets = eventTargets e in
     concat (map (\<lambda>agent.
       if ra_id agent \<in> taken then []
       else if ra_id agent \<in> set targets then
         [\<lparr>cd_agentId = ra_id agent, cd_reason = TargetR, cd_waitId = None\<rparr>]
       else if subscribes agent e then
         [\<lparr>cd_agentId = ra_id agent, cd_reason = SubscriptionR, cd_waitId = None\<rparr>]
       else []) (ri_agents input)))"

definition wakePriority :: "routing_agent \<Rightarrow> gateway_event \<Rightarrow> nat option" where
  "wakePriority agent e =
    (if ra_id agent \<in> set (eventTargets e) then Some PRIORITY_target
     else if subscribes agent e then Some PRIORITY_subscription else None)"

definition ownCount :: "(string \<times> nat) list \<Rightarrow> string \<Rightarrow> nat" where
  "ownCount rec i = (case map_of rec i of None \<Rightarrow> 0 | Some n \<Rightarrow> n)"

text \<open>The body of the loop of \<open>routeEvent\<close> for one candidate whose agent is known: the route, and
  whether it spends one wake-up of the cascade and thread budgets (\<open>c\<close> and \<open>t\<close> so far).\<close>

definition routeCandidate ::
    "routing_input \<Rightarrow> nat \<Rightarrow> nat \<Rightarrow> candidate \<Rightarrow> routing_agent \<Rightarrow> route \<times> bool" where
  "routeCandidate input c t cand agent =
    (let e = ri_event input; limits = ri_limits input; stats = ri_stats input;
         sender = eventSenderAgentId e;
         isWait = (cd_waitId cand \<noteq> None);
         decision = (if isWait then RWaitMatch else RWake);
         priority = (if isWait then PRIORITY_wait
                     else if cd_reason cand = TargetR then PRIORITY_target
                     else PRIORITY_subscription);
         route = (\<lambda>d reason. \<lparr>rt_agentId = cd_agentId cand, rt_decision = d, rt_reason = reason,
                              rt_waitId = cd_waitId cand, rt_priority = priority\<rparr>)
     in
     if (case mattermostPost e of None \<Rightarrow> False
         | Some post \<Rightarrow> channel_id post \<notin> set (ra_channelIds agent) \<or>
             (case map_of (ra_channelFloors agent) (channel_id post) of
                None \<Rightarrow> False | Some floor \<Rightarrow> ev_time e \<le> floor))
     then (route RIgnore ChannelNotAllowedR, False)
     else if sender = Some (ra_id agent) then (route RIgnore SelfPostR, False)
     else if ra_state agent = Disabled then (route RIgnore AgentDisabledR, False)
     else if cd_reason cand = WaitTimeoutR \<or>
             (isWait \<and> ev_type e = ApprovalResolved \<and> isGatewayEmitted e)
     then (route decision (cd_reason cand), True)
     else if ev_hop e > max_agent_hops limits then (route RBlocked HopLimitR, False)
     else if c \<ge> max_turns_per_cascade limits then (route RBlocked CascadeLimitR, False)
     else if ownCount (runsLastHour stats) (ra_id agent) \<ge> max_runs_per_agent_per_hour limits
     then (route RBlocked RateLimitR, False)
     else if t \<ge> MAX_THREAD_WAKES_PER_WINDOW then (route RBlocked ThreadRateLimitR, False)
     else if sender \<noteq> None \<and> duplicateContent stats > 0 then (route RBlocked DuplicatePayloadR, False)
     else if sender \<noteq> None \<and>
             ownCount (pairwiseMessages stats) (ra_id agent) \<ge> MAX_PAIRWISE_MESSAGES
     then (route RBlocked PairwiseLimitR, False)
     else (route decision (cd_reason cand), True))"

fun routeLoop ::
    "routing_input \<Rightarrow> (string \<times> routing_agent) list \<Rightarrow> nat \<Rightarrow> nat \<Rightarrow> candidate list \<Rightarrow> route list" where
  "routeLoop input known c t [] = []"
| "routeLoop input known c t (cand # cands) =
    (case map_of known (cd_agentId cand) of
       None \<Rightarrow> routeLoop input known c t cands
     | Some agent \<Rightarrow>
         (case routeCandidate input c t cand agent of
            (r, spends) \<Rightarrow>
              r # routeLoop input known (if spends then c + 1 else c) (if spends then t + 1 else t) cands))"

definition known_agents :: "routing_agent list \<Rightarrow> (string \<times> routing_agent) list" where
  "known_agents agents = js_map (map (\<lambda>a. (ra_id a, a)) agents)"

text \<open>The candidates in tier order: waits, targets, subscriptions, each tier by agent id.\<close>

definition routeCandidates :: "(string \<Rightarrow> bool) \<Rightarrow> routing_input \<Rightarrow> candidate list" where
  "routeCandidates uuid_ok input =
    (let known = known_agents (ri_agents input);
         waitRoutes = filter (\<lambda>c. map_of known (cd_agentId c) \<noteq> None) (waitCandidates uuid_ok input);
         wakes = wakeCandidates input (set (map cd_agentId waitRoutes))
     in sort_key cd_agentId waitRoutes @
        sort_key cd_agentId (filter (\<lambda>c. cd_reason c = TargetR) wakes) @
        sort_key cd_agentId (filter (\<lambda>c. cd_reason c = SubscriptionR) wakes))"

definition routeEvent :: "(string \<Rightarrow> bool) \<Rightarrow> routing_input \<Rightarrow> route list" where
  "routeEvent uuid_ok input =
    (let e = ri_event input in
     if startsWith (event_type_name (ev_type e)) ''gateway.control.'' \<or>
        isRecordOnlyEventType (ev_type e) then []
     else routeLoop input (known_agents (ri_agents input)) (cascadeWakes (ri_stats input))
            (threadWakes (ri_stats input)) (routeCandidates uuid_ok input))"

definition granted :: "route \<Rightarrow> bool" where
  "granted r \<longleftrightarrow> rt_decision r = RWake \<or> rt_decision r = RWaitMatch"


subsection \<open>One candidate\<close>

lemma routeCandidate_agentId [simp]: "rt_agentId (fst (routeCandidate input c t cand agent)) = cd_agentId cand"
  by (auto simp: routeCandidate_def Let_def)

lemma routeCandidate_spends: "routeCandidate input c t cand agent = (r, spends) \<Longrightarrow> spends = granted r"
  by (auto simp: routeCandidate_def Let_def granted_def split: if_splits)

text \<open>The wake-ups the loop guards never block: a timeout, or how an approval ended.\<close>

definition exempt :: "gateway_event \<Rightarrow> bool" where
  "exempt e \<longleftrightarrow> ev_type e = AgentWaitTimeout \<or> ev_type e = ApprovalResolved \<and> isGatewayEmitted e"

lemma routeCandidate_budget:
  assumes "routeCandidate input c t cand agent = (r, spends)" and "granted r"
    and "\<not> exempt (ri_event input)" and "cd_reason cand \<noteq> WaitTimeoutR"
  shows "c < max_turns_per_cascade (ri_limits input) \<and> t < MAX_THREAD_WAKES_PER_WINDOW"
  using assms by (auto simp: routeCandidate_def Let_def granted_def exempt_def split: if_splits)

lemma routeCandidate_safe:
  assumes "routeCandidate input c t cand agent = (r, spends)" and "granted r"
  shows "eventSenderAgentId (ri_event input) \<noteq> Some (ra_id agent)"
    and "ra_state agent \<noteq> Disabled"
    and "\<And>post. mattermostPost (ri_event input) = Some post \<Longrightarrow>
           channel_id post \<in> set (ra_channelIds agent) \<and>
           (\<forall>floor. map_of (ra_channelFloors agent) (channel_id post) = Some floor \<longrightarrow>
              floor < ev_time (ri_event input))"
  using assms by (auto simp: routeCandidate_def Let_def granted_def split: if_splits option.splits)

lemma routeCandidate_guards:
  assumes "routeCandidate input c t cand agent = (r, spends)" and "granted r"
    and "\<not> exempt (ri_event input)" and "cd_reason cand \<noteq> WaitTimeoutR"
  shows "ev_hop (ri_event input) \<le> max_agent_hops (ri_limits input)"
    and "ownCount (runsLastHour (ri_stats input)) (ra_id agent) <
           max_runs_per_agent_per_hour (ri_limits input)"
    and "eventSenderAgentId (ri_event input) \<noteq> None \<Longrightarrow>
           duplicateContent (ri_stats input) = 0 \<and>
           ownCount (pairwiseMessages (ri_stats input)) (ra_id agent) < MAX_PAIRWISE_MESSAGES"
  using assms by (auto simp: routeCandidate_def Let_def granted_def exempt_def split: if_splits)

lemma routeCandidate_waitId: "rt_waitId (fst (routeCandidate input c t cand agent)) = cd_waitId cand"
  by (auto simp: routeCandidate_def Let_def)

lemma routeCandidate_decision:
  assumes "routeCandidate input c t cand agent = (r, spends)" and "granted r"
  shows "rt_decision r = (if cd_waitId cand \<noteq> None then RWaitMatch else RWake)"
    and "rt_reason r = cd_reason cand"
  using assms by (auto simp: routeCandidate_def Let_def granted_def split: if_splits)

lemma routeCandidate_priority:
  "rt_priority (fst (routeCandidate input c t cand agent)) =
    (if cd_waitId cand \<noteq> None then PRIORITY_wait
     else if cd_reason cand = TargetR then PRIORITY_target else PRIORITY_subscription)"
  by (auto simp: routeCandidate_def Let_def)

subsection \<open>The loop\<close>

lemma routeLoop_agentIds:
  "map rt_agentId (routeLoop input known c t cands) =
    map cd_agentId (filter (\<lambda>cand. map_of known (cd_agentId cand) \<noteq> None) cands)"
proof (induction cands arbitrary: c t)
  case (Cons cand cands)
  then show ?case
    by (auto split: option.splits prod.splits) (metis fst_conv routeCandidate_agentId)
qed simp

lemma routeLoop_mem:
  assumes "r \<in> set (routeLoop input known c t cands)"
  obtains cand agent c' t' where "cand \<in> set cands"
    and "map_of known (cd_agentId cand) = Some agent"
    and "routeCandidate input c' t' cand agent = (r, granted r)"
  using assms
proof (induction cands arbitrary: c t thesis)
  case (Cons cand cands)
  show ?case
  proof (cases "map_of known (cd_agentId cand)")
    case None
    with Cons.prems(2) have "r \<in> set (routeLoop input known c t cands)" by simp
    then show ?thesis
      by (rule Cons.IH [rotated]) (rule Cons.prems(1), auto)
  next
    case (Some agent)
    obtain r' sp where rc: "routeCandidate input c t cand agent = (r', sp)" by fastforce
    show ?thesis
    proof (cases "r = r'")
      case True
      with rc routeCandidate_spends [OF rc]
      have "routeCandidate input c t cand agent = (r, granted r)" by simp
      then show ?thesis by (intro Cons.prems(1) [OF _ Some]) auto
    next
      case False
      with rc Some Cons.prems(2) have
        "r \<in> set (routeLoop input known (if sp then c + 1 else c) (if sp then t + 1 else t) cands)"
        by simp
      then show ?thesis
        by (rule Cons.IH [rotated]) (rule Cons.prems(1), auto)
    qed
  qed
qed simp

lemma routeLoop_budget:
  assumes "\<not> exempt (ri_event input)"
    and "\<forall>cand\<in>set cands. cd_reason cand \<noteq> WaitTimeoutR"
  shows "c + length (filter granted (routeLoop input known c t cands)) \<le>
           max c (max_turns_per_cascade (ri_limits input)) \<and>
         t + length (filter granted (routeLoop input known c t cands)) \<le>
           max t MAX_THREAD_WAKES_PER_WINDOW"
  using assms(2)
proof (induction cands arbitrary: c t)
  case (Cons cand cands)
  show ?case
  proof (cases "map_of known (cd_agentId cand)")
    case None
    with Cons show ?thesis by simp
  next
    case (Some agent)
    obtain r sp where rc: "routeCandidate input c t cand agent = (r, sp)" by fastforce
    have sp: "sp = granted r" using routeCandidate_spends [OF rc] .
    have room: "granted r \<Longrightarrow> c < max_turns_per_cascade (ri_limits input) \<and> t < MAX_THREAD_WAKES_PER_WINDOW"
      using routeCandidate_budget [OF rc _ assms(1)] Cons.prems by simp
    have "\<forall>cand\<in>set cands. cd_reason cand \<noteq> WaitTimeoutR" using Cons.prems by simp
    note IH = Cons.IH [OF this, of "if sp then c + 1 else c" "if sp then t + 1 else t"]
    show ?thesis
    proof (cases "granted r")
      case True
      with IH room Some rc sp show ?thesis by (auto simp: max_def split: if_splits)
    next
      case False
      with IH Some rc sp show ?thesis by simp
    qed
  qed
qed simp

lemma routeLoop_known_cong: "map_of k = map_of k' \<Longrightarrow> routeLoop input k c t cands = routeLoop input k' c t cands"
  by (induction cands arbitrary: c t) (auto split: option.splits prod.splits)

lemma routeCandidate_agents_indep [simp]:
  "routeCandidate (input\<lparr>ri_agents := xs\<rparr>) c t cand agent = routeCandidate input c t cand agent"
  by (simp add: routeCandidate_def Let_def)

lemma routeLoop_agents_indep [simp]:
  "routeLoop (input\<lparr>ri_agents := xs\<rparr>) known c t cands = routeLoop input known c t cands"
  by (induction cands arbitrary: c t) (auto split: option.splits prod.splits)

subsection \<open>Candidates\<close>

lemma byAgent_waits_inv:
  "distinct (map fst (byAgent_waits e now ws)) \<and>
   (\<forall>(a, w) \<in> set (byAgent_waits e now ws). w \<in> set ws \<and> wait_agentId w = a \<and> waitMatches w e now)"
proof -
  let ?f = "\<lambda>w m. if map_of m (wait_agentId w) = None \<and> waitMatches w e now
                then AList.update (wait_agentId w) w m else m"
  have "distinct (map fst m) \<Longrightarrow> (\<forall>(a, w) \<in> set m. w \<in> S \<and> wait_agentId w = a \<and> waitMatches w e now) \<Longrightarrow>
      set us \<subseteq> S \<Longrightarrow>
      distinct (map fst (fold ?f us m)) \<and>
      (\<forall>(a, w) \<in> set (fold ?f us m). w \<in> S \<and> wait_agentId w = a \<and> waitMatches w e now)" for us m S
  proof (induction us arbitrary: m)
    case (Cons u us)
    have upd: "map_of m k = None \<Longrightarrow> set (AList.update k u m) = insert (k, u) (set m)" for k
      by (induction m) auto
    show ?case
    proof (cases "map_of m (wait_agentId u) = None \<and> waitMatches u e now")
      case True
      with Cons.prems show ?thesis
        using Cons.IH [of "AList.update (wait_agentId u) u m"]
        by (simp add: distinct_update upd)
    next
      case False
      then have "?f u m = m" by auto
      with Cons.prems Cons.IH [of m] show ?thesis by simp
    qed
  qed simp
  from this [of "[]" "set ws" "sort_key wait_timeoutAt ws"] show ?thesis
    by (simp add: byAgent_waits_def)
qed

lemma waitCandidates_distinct: "distinct (map cd_agentId (waitCandidates uuid_ok input))"
proof (cases "ev_type (ri_event input) = AgentWaitTimeout")
  case True
  then show ?thesis
    by (auto simp: waitCandidates_def Let_def split: option.splits prod.splits)
next
  case False
  let ?b = "byAgent_waits (ri_event input) (ri_now input) (ri_waits input)"
  have inv: "distinct (map fst ?b) \<and>
      (\<forall>(a, w) \<in> set ?b. w \<in> set (ri_waits input) \<and> wait_agentId w = a \<and>
         waitMatches w (ri_event input) (ri_now input))"
    by (rule byAgent_waits_inv)
  with False have "map cd_agentId (waitCandidates uuid_ok input) = map fst ?b"
    by (auto simp: waitCandidates_def Let_def)
  with inv show ?thesis by simp
qed

text \<open>Where a wait candidate comes from.\<close>

definition timeout_names :: "(string \<Rightarrow> bool) \<Rightarrow> gateway_event \<Rightarrow> active_wait \<Rightarrow> bool" where
  "timeout_names uuid_ok e w \<longleftrightarrow>
    ev_type e = AgentWaitTimeout \<and> isGatewayEmitted e \<and>
    WaitTimeoutDataSchema uuid_ok (ev_data e) = Some (wait_agentId w, wait_id w)"

lemma waitCandidates_origin:
  assumes "cand \<in> set (waitCandidates uuid_ok input)"
  shows "\<exists>w\<in>set (ri_waits input). cd_agentId cand = wait_agentId w \<and> cd_waitId cand = Some (wait_id w) \<and>
    (cd_reason cand = WaitTimeoutR \<and> timeout_names uuid_ok (ri_event input) w \<or>
     cd_reason cand = WaitMatchedR \<and> ev_type (ri_event input) \<noteq> AgentWaitTimeout \<and>
     waitMatches w (ri_event input) (ri_now input))"
proof (cases "ev_type (ri_event input) = AgentWaitTimeout")
  case True
  from True assms obtain w wid where emitted: "isGatewayEmitted (ri_event input)"
    and data: "WaitTimeoutDataSchema uuid_ok (ev_data (ri_event input)) = Some (wait_agentId w, wid)"
    and found: "find (\<lambda>v. wait_id v = wid) (ri_waits input) = Some w"
    and cand: "cand = \<lparr>cd_agentId = wait_agentId w, cd_reason = WaitTimeoutR,
                       cd_waitId = Some (wait_id w)\<rparr>"
    by (auto simp: waitCandidates_def Let_def split: if_splits option.splits prod.splits) metis
  from find_SomeD [OF found] have "wait_id w = wid" and "w \<in> set (ri_waits input)" by auto
  with True emitted data cand show ?thesis by (auto simp: timeout_names_def)
next
  case False
  then have "waitCandidates uuid_ok input =
      map (\<lambda>(_, w). \<lparr>cd_agentId = wait_agentId w, cd_reason = WaitMatchedR,
                       cd_waitId = Some (wait_id w)\<rparr>)
        (byAgent_waits (ri_event input) (ri_now input) (ri_waits input))"
    by (simp add: waitCandidates_def)
  with assms obtain a w where "(a, w) \<in> set (byAgent_waits (ri_event input) (ri_now input) (ri_waits input))"
    and "cand = \<lparr>cd_agentId = wait_agentId w, cd_reason = WaitMatchedR, cd_waitId = Some (wait_id w)\<rparr>"
    by auto
  with False byAgent_waits_inv [of "ri_event input" "ri_now input" "ri_waits input"] show ?thesis
    by auto
qed

lemma wakeCandidates_mem:
  "cand \<in> set (wakeCandidates input taken) \<Longrightarrow>
    cd_waitId cand = None \<and> cd_reason cand \<in> {TargetR, SubscriptionR} \<and> cd_agentId cand \<notin> taken \<and>
    (\<exists>agent\<in>set (ri_agents input). ra_id agent = cd_agentId cand)"
  by (auto simp: wakeCandidates_def Let_def split: if_splits)

lemma wakeCandidates_distinct:
  assumes "distinct (map ra_id (ri_agents input))"
  shows "distinct (map cd_agentId (wakeCandidates input taken))"
proof -
  let ?g = "\<lambda>agent. if ra_id agent \<in> taken then []
       else if ra_id agent \<in> set (eventTargets (ri_event input)) then
         [\<lparr>cd_agentId = ra_id agent, cd_reason = TargetR, cd_waitId = None\<rparr>]
       else if subscribes agent (ri_event input) then
         [\<lparr>cd_agentId = ra_id agent, cd_reason = SubscriptionR, cd_waitId = None\<rparr>]
       else []"
  have "distinct (map ra_id xs) \<Longrightarrow> distinct (map cd_agentId (concat (map ?g xs)))" for xs
    by (induction xs) (auto split: if_splits)
  with assms show ?thesis by (simp add: wakeCandidates_def Let_def)
qed

lemma mset_concat_map_perm:
  assumes "mset xs = mset ys"
  shows "mset (concat (map f xs)) = mset (concat (map f ys))"
proof -
  have "mset (concat (map f zs)) = \<Sum>\<^sub># (image_mset (\<lambda>x. mset (f x)) (mset zs))" for zs
    by (induction zs) auto
  with assms show ?thesis by simp
qed

lemma wakeCandidates_perm:
  "mset xs = mset (ri_agents input) \<Longrightarrow>
    mset (wakeCandidates (input\<lparr>ri_agents := xs\<rparr>) taken) = mset (wakeCandidates input taken)"
  by (simp add: wakeCandidates_def Let_def mset_concat_map_perm [of xs "ri_agents input"])

lemma distinct_two_filters:
  assumes "distinct (map f xs)" and "\<And>x. P x \<Longrightarrow> Q x \<Longrightarrow> False"
  shows "f ` {x \<in> set xs. P x} \<inter> f ` {x \<in> set xs. Q x} = {}"
  using inj_on_distinct_map [OF assms(1)] assms(2) by (auto simp: inj_on_def)

lemma routeCandidates_distinct:
  assumes "distinct (map ra_id (ri_agents input))"
  shows "distinct (map cd_agentId (routeCandidates uuid_ok input))"
proof -
  define waitRoutes where "waitRoutes =
    filter (\<lambda>c. map_of (known_agents (ri_agents input)) (cd_agentId c) \<noteq> None) (waitCandidates uuid_ok input)"
  define wakes where "wakes = wakeCandidates input (set (map cd_agentId waitRoutes))"
  have w: "distinct (map cd_agentId wakes)"
    unfolding wakes_def using assms by (rule wakeCandidates_distinct)
  have "distinct (map cd_agentId waitRoutes)"
    unfolding waitRoutes_def by (rule distinct_filter_map) (rule waitCandidates_distinct)
  moreover have "cd_agentId ` set wakes \<inter> cd_agentId ` set waitRoutes = {}"
    unfolding wakes_def by (auto dest: wakeCandidates_mem)
  moreover have "cd_agentId ` {c \<in> set wakes. cd_reason c = TargetR} \<inter>
      cd_agentId ` {c \<in> set wakes. cd_reason c = SubscriptionR} = {}"
    using w by (rule distinct_two_filters) auto
  ultimately have "distinct (map cd_agentId (sort_key cd_agentId waitRoutes @
        sort_key cd_agentId (filter (\<lambda>c. cd_reason c = TargetR) wakes) @
        sort_key cd_agentId (filter (\<lambda>c. cd_reason c = SubscriptionR) wakes)))"
    using w by (auto simp: distinct_filter_map)
  then show ?thesis
    by (simp add: routeCandidates_def Let_def waitRoutes_def wakes_def)
qed


subsection \<open>The whole router\<close>

lemma routeEvent_candidates:
  "r \<in> set (routeEvent uuid_ok input) \<Longrightarrow>
    r \<in> set (routeLoop input (known_agents (ri_agents input)) (cascadeWakes (ri_stats input))
            (threadWakes (ri_stats input)) (routeCandidates uuid_ok input))"
  by (auto simp: routeEvent_def Let_def split: if_splits)

lemma known_agents_Some:
  assumes "map_of (known_agents agents) i = Some a"
  shows "a \<in> set agents \<and> ra_id a = i"
  using assms by (auto simp: known_agents_def js_map_get dest!: map_of_SomeD)

lemma routeEvent_agent_known:
  assumes "r \<in> set (routeEvent uuid_ok input)"
  shows "\<exists>agent\<in>set (ri_agents input). ra_id agent = rt_agentId r"
proof -
  from routeEvent_candidates [OF assms] obtain cand agent c t
    where k: "map_of (known_agents (ri_agents input)) (cd_agentId cand) = Some agent"
      and rc: "routeCandidate input c t cand agent = (r, granted r)"
    by (rule routeLoop_mem)
  with known_agents_Some [OF k] routeCandidate_agentId [of input c t cand agent] show ?thesis by auto
qed

lemma routeCandidates_mem:
  assumes "cand \<in> set (routeCandidates uuid_ok input)"
  shows "cand \<in> set (waitCandidates uuid_ok input) \<or>
    (\<exists>taken. cand \<in> set (wakeCandidates input taken))"
  using assms by (auto simp: routeCandidates_def Let_def)

lemma routeCandidates_waitTimeout:
  assumes "cand \<in> set (routeCandidates uuid_ok input)" and "\<not> exempt (ri_event input)"
  shows "cd_reason cand \<noteq> WaitTimeoutR"
  using routeCandidates_mem [OF assms(1)] assms(2)
  by (auto dest!: waitCandidates_origin wakeCandidates_mem simp: timeout_names_def exempt_def)

lemma routeEvent_granted_mem:
  assumes "r \<in> set (routeEvent uuid_ok input)" and "granted r"
  obtains cand agent c t where "cand \<in> set (routeCandidates uuid_ok input)"
    and "agent \<in> set (ri_agents input)" and "ra_id agent = rt_agentId r"
    and "cd_agentId cand = rt_agentId r"
    and "routeCandidate input c t cand agent = (r, True)"
proof -
  from routeEvent_candidates [OF assms(1)] obtain cand agent c t
    where c: "cand \<in> set (routeCandidates uuid_ok input)"
      and k: "map_of (known_agents (ri_agents input)) (cd_agentId cand) = Some agent"
      and rc: "routeCandidate input c t cand agent = (r, granted r)"
    by (rule routeLoop_mem)
  have "cd_agentId cand = rt_agentId r"
    using routeCandidate_agentId [of input c t cand agent] rc by simp
  with c k rc assms(2) known_agents_Some [OF k] show ?thesis
    by (intro that) auto
qed

lemma waitCandidates_agents_indep [simp]:
  "waitCandidates uuid_ok (input\<lparr>ri_agents := xs\<rparr>) = waitCandidates uuid_ok input"
  by (simp add: waitCandidates_def Let_def split: option.splits)

lemma known_agents_perm:
  assumes "mset xs = mset ys" and "distinct (map ra_id ys)"
  shows "map_of (known_agents xs) = map_of (known_agents ys)"
proof -
  have "mset (map ra_id xs) = mset (map ra_id ys)" using assms(1) by simp
  then have "distinct (map ra_id xs)" using assms(2) mset_eq_imp_distinct_iff by blast
  moreover have "set xs = set ys" using assms(1) mset_eq_setD by blast
  ultimately have "map_of (map (\<lambda>a. (ra_id a, a)) xs) = map_of (map (\<lambda>a. (ra_id a, a)) ys)"
    using assms(2) by (subst map_of_inject_set) (auto simp: comp_def)
  with \<open>distinct (map ra_id xs)\<close> assms(2) show ?thesis
    by (simp add: known_agents_def map_of_js_map comp_def)
qed

lemma routeCandidates_perm:
  assumes "mset xs = mset (ri_agents input)" and "distinct (map ra_id (ri_agents input))"
  shows "routeCandidates uuid_ok (input\<lparr>ri_agents := xs\<rparr>) = routeCandidates uuid_ok input"
proof -
  have tier: "sort_key cd_agentId (filter P (wakeCandidates (input\<lparr>ri_agents := xs\<rparr>) taken)) =
      sort_key cd_agentId (filter P (wakeCandidates input taken))" for P taken
  proof (rule sort_key_perm)
    show "mset (filter P (wakeCandidates (input\<lparr>ri_agents := xs\<rparr>) taken)) =
        mset (filter P (wakeCandidates input taken))"
      using wakeCandidates_perm [OF assms(1), of taken] by simp
    then have "set (filter P (wakeCandidates (input\<lparr>ri_agents := xs\<rparr>) taken)) =
        set (filter P (wakeCandidates input taken))"
      by (rule mset_eq_setD)
    then show "inj_on cd_agentId (set (filter P (wakeCandidates (input\<lparr>ri_agents := xs\<rparr>) taken)))"
      using inj_on_distinct_map [OF wakeCandidates_distinct [OF assms(2), of taken]]
      by (auto intro: inj_on_subset)
  qed
  show ?thesis
    by (simp add: routeCandidates_def Let_def tier known_agents_perm [OF assms])
qed

text \<open>An event of an agent's bot that mentions another agent.\<close>

definition example_mention :: gateway_event where
  "example_mention = example_reply\<lparr>ev_type := MmAgentMentioned,
     ev_trustlevel := HumanTrusted\<rparr>"

definition example_input :: routing_input where
  "example_input =
    \<lparr>ri_event = example_mention,
     ri_agents =
       [\<lparr>ra_id = ''finance'', ra_state = Idle, ra_wakeRules = [],
         ra_channelIds = [''c0000000000000000000000001''], ra_channelFloors = []\<rparr>,
        \<lparr>ra_id = ''developer'', ra_state = Idle, ra_wakeRules = [],
         ra_channelIds = [''c0000000000000000000000001''], ra_channelFloors = []\<rparr>],
     ri_waits = [],
     ri_limits = \<lparr>max_agent_hops = 8, max_turns_per_cascade = 20, max_runs_per_agent_per_hour = 30,
                  default_run_timeout_seconds = 600\<rparr>,
     ri_stats = \<lparr>cascadeWakes = 0, runsLastHour = [], duplicateContent = 0, pairwiseMessages = [],
                 threadWakes = 0\<rparr>,
     ri_now = 2000\<rparr>"

definition example_route :: route where
  "example_route = \<lparr>rt_agentId = ''developer'', rt_decision = RWake, rt_reason = TargetR,
     rt_waitId = None, rt_priority = 5\<rparr>"

lemma example_routes: "routeEvent (\<lambda>_. True) example_input = [example_route]"
  by code_simp

text \<open>One event reaches an agent at most once. When the agents' ids are distinct, so are the
  agents of the routes, and each of them is one of the agents the router was given.\<close>

theorem routes_once_per_agent:
  assumes "distinct (map ra_id (ri_agents input))"
  shows "distinct (map rt_agentId (routeEvent uuid_ok input)) \<and>
    set (map rt_agentId (routeEvent uuid_ok input)) \<subseteq> set (map ra_id (ri_agents input))"
proof
  show "distinct (map rt_agentId (routeEvent uuid_ok input))"
    using distinct_filter_map [OF routeCandidates_distinct [OF assms]]
    by (auto simp: routeEvent_def Let_def routeLoop_agentIds)
  show "set (map rt_agentId (routeEvent uuid_ok input)) \<subseteq> set (map ra_id (ri_agents input))"
    using routeEvent_agent_known [of _ uuid_ok input] by (auto simp: image_iff) metis
qed



text \<open>C31: the cascade cannot run away. Except for the two event kinds the guards never block (a
  wait timeout, and how an approval ended), the wake-ups of one event together with those the
  cascade and the thread already had never exceed the cascade budget, the thread window, or what
  was already there; and no wake-up happens beyond the hop limit.\<close>

theorem routing_respects_budgets:
  assumes "\<not> exempt (ri_event input)"
  shows "cascadeWakes (ri_stats input) + length (filter granted (routeEvent uuid_ok input)) \<le>
      max (cascadeWakes (ri_stats input)) (max_turns_per_cascade (ri_limits input)) \<and>
    threadWakes (ri_stats input) + length (filter granted (routeEvent uuid_ok input)) \<le>
      max (threadWakes (ri_stats input)) MAX_THREAD_WAKES_PER_WINDOW \<and>
    (max_agent_hops (ri_limits input) < ev_hop (ri_event input) \<longrightarrow>
      filter granted (routeEvent uuid_ok input) = [])"
proof -
  have nt: "\<forall>cand\<in>set (routeCandidates uuid_ok input). cd_reason cand \<noteq> WaitTimeoutR"
    using routeCandidates_waitTimeout assms by blast
  have "r \<in> set (routeEvent uuid_ok input) \<Longrightarrow> granted r \<Longrightarrow>
      ev_hop (ri_event input) \<le> max_agent_hops (ri_limits input)" for r
  proof (erule (1) routeEvent_granted_mem)
    fix cand agent c t
    assume "cand \<in> set (routeCandidates uuid_ok input)" "granted r"
      and "routeCandidate input c t cand agent = (r, True)"
    with nt assms show ?thesis by (blast intro: routeCandidate_guards(1))
  qed
  then have "max_agent_hops (ri_limits input) < ev_hop (ri_event input) \<longrightarrow>
      filter granted (routeEvent uuid_ok input) = []"
    by (fastforce simp: filter_empty_conv)
  with routeLoop_budget [OF assms nt] show ?thesis
    by (auto simp: routeEvent_def Let_def)
qed

theorem routing_respects_budgets_witness:
  "\<not> exempt (ri_event example_input) \<and>
   cascadeWakes (ri_stats example_input) +
     length (filter granted (routeEvent (\<lambda>_. True) example_input)) \<le> 20"
proof -
  have e: "\<not> exempt (ri_event example_input)" by code_simp
  show ?thesis
    using e routing_respects_budgets [OF e, of "\<lambda>_. True"] by (simp add: example_input_def)
qed

text \<open>A waiting agent is resumed only by its own wait. Every \<open>wait-match\<close> route names a wait of
  the routed agent which the event satisfies, or, for a timeout event of the Gateway, the very
  wait and agent the event names.\<close>

theorem wait_match_has_wait:
  assumes "r \<in> set (routeEvent uuid_ok input)" and "rt_decision r = RWaitMatch"
  shows "\<exists>w\<in>set (ri_waits input). wait_agentId w = rt_agentId r \<and> rt_waitId r = Some (wait_id w) \<and>
    (waitMatches w (ri_event input) (ri_now input) \<or> timeout_names uuid_ok (ri_event input) w)"
proof -
  have g: "granted r" using assms(2) by (simp add: granted_def)
  obtain cand agent c t where c: "cand \<in> set (routeCandidates uuid_ok input)"
      and i: "cd_agentId cand = rt_agentId r"
      and rc: "routeCandidate input c t cand agent = (r, True)"
    using routeEvent_granted_mem [OF assms(1) g] by metis
  have w: "rt_waitId r = cd_waitId cand" using routeCandidate_waitId [of input c t cand agent] rc by simp
  have "cd_waitId cand \<noteq> None" using routeCandidate_decision(1) [OF rc g] assms(2) by (auto split: if_splits)
  then have "cand \<in> set (waitCandidates uuid_ok input)"
    using routeCandidates_mem [OF c] by (auto dest: wakeCandidates_mem)
  from waitCandidates_origin [OF this] i w show ?thesis by auto
qed

definition example_wait_input :: routing_input where
  "example_wait_input = example_input\<lparr>ri_event := example_reply, ri_waits := [example_wait]\<rparr>"

definition example_wait_route :: route where
  "example_wait_route = \<lparr>rt_agentId = ''developer'', rt_decision = RWaitMatch,
     rt_reason = WaitMatchedR, rt_waitId = Some ''w1'', rt_priority = 10\<rparr>"

text \<open>Routing is deterministic. The routes do not depend on the order in which the agents were
  loaded: any permutation of the agents (with distinct ids) gives the same list of routes.\<close>

theorem routing_order_independent:
  assumes "mset xs = mset (ri_agents input)" and "distinct (map ra_id (ri_agents input))"
  shows "routeEvent uuid_ok (input\<lparr>ri_agents := xs\<rparr>) = routeEvent uuid_ok input"
  by (simp add: routeEvent_def Let_def routeCandidates_perm [OF assms]
      routeLoop_known_cong [OF known_agents_perm [OF assms]])

end
