(* ===== verification/Channel_Access.thy ===== *)
theory Channel_Access
  imports Gateway_Prelude
begin

text \<open>
  Where an agent may work, \<open>packages/core/src/channel-access.ts\<close>: its configured channels that
  bootstrap resolved, and the channels an owner granted to its bot. A \<open>Map\<close> is an insertion-ordered
  association list (\<open>js_map\<close>), a \<open>Set\<close> a list without repetitions (\<open>js_set\<close>).

  Everything that authorizes a channel reads these functions, so the property to keep is that they
  agree: the channel ids are exactly the configured and the granted ones, each once, and exactly the
  channels that are granted and not configured carry a floor and a recording time.
\<close>

record channel_grant =
  grant_channelId :: string
  grant_name :: string
  grant_sinceMs :: millis
  grant_recordedMs :: millis

record channel_access =
  named :: "(string \<times> string) list"
  granted_to :: "(string \<times> channel_grant list) list"

record agent_channels =
  ac_id :: string
  ac_allowed_channels :: "string list"

record channel_ref =
  ref_channelId :: string
  ref_name :: string

text \<open>\<open>access.granted.get(agent.id) ?? []\<close>.\<close>

definition agentGrants :: "agent_channels \<Rightarrow> channel_access \<Rightarrow> channel_grant list" where
  "agentGrants agent access = (case map_of (granted_to access) (ac_id agent) of None \<Rightarrow> [] | Some gs \<Rightarrow> gs)"

fun configuredRefs ::
    "channel_access \<Rightarrow> string list \<Rightarrow> (string \<times> channel_ref) list \<Rightarrow> (string \<times> channel_ref) list" where
  "configuredRefs access [] refs = refs"
| "configuredRefs access (name # names) refs =
    configuredRefs access names
      (case map_of (named access) name of
         None \<Rightarrow> refs
       | Some channelId \<Rightarrow> AList.update channelId \<lparr>ref_channelId = channelId, ref_name = name\<rparr> refs)"

fun grantRefs :: "channel_grant list \<Rightarrow> (string \<times> channel_ref) list \<Rightarrow> (string \<times> channel_ref) list" where
  "grantRefs [] refs = refs"
| "grantRefs (g # gs) refs =
    grantRefs gs
      (if map_of refs (grant_channelId g) \<noteq> None then refs
       else AList.update (grant_channelId g)
              \<lparr>ref_channelId = grant_channelId g, ref_name = grant_name g\<rparr> refs)"

definition agentChannelRefs :: "agent_channels \<Rightarrow> channel_access \<Rightarrow> channel_ref list" where
  "agentChannelRefs agent access =
    map snd (grantRefs (agentGrants agent access) (configuredRefs access (ac_allowed_channels agent) []))"

definition agentChannelIds :: "agent_channels \<Rightarrow> channel_access \<Rightarrow> string list" where
  "agentChannelIds agent access = js_set (map ref_channelId (agentChannelRefs agent access))"

definition configuredIds :: "agent_channels \<Rightarrow> channel_access \<Rightarrow> string list" where
  "configuredIds agent access =
    js_set (concat (map (\<lambda>name. case map_of (named access) name of None \<Rightarrow> [] | Some i \<Rightarrow> [i])
      (ac_allowed_channels agent)))"

definition agentChannelFloors :: "agent_channels \<Rightarrow> channel_access \<Rightarrow> (string \<times> millis) list" where
  "agentChannelFloors agent access =
    js_map (map (\<lambda>g. (grant_channelId g, grant_sinceMs g))
      (filter (\<lambda>g. grant_channelId g \<notin> set (configuredIds agent access)) (agentGrants agent access)))"

definition agentGrantsRecorded :: "agent_channels \<Rightarrow> channel_access \<Rightarrow> (string \<times> millis) list" where
  "agentGrantsRecorded agent access =
    js_map (map (\<lambda>g. (grant_channelId g, grant_recordedMs g))
      (filter (\<lambda>g. map_of (agentChannelFloors agent access) (grant_channelId g) \<noteq> None)
        (agentGrants agent access)))"

definition grantedChannels :: "channel_access \<Rightarrow> (string \<times> string) list" where
  "grantedChannels access =
    js_map (map (\<lambda>g. (grant_channelId g, grant_name g)) (concat (map snd (granted_to access))))"

subsection \<open>Library\<close>

text \<open>What both loops keep: distinct keys, and every reference stored under its own channel id.\<close>

definition refs_wf :: "(string \<times> channel_ref) list \<Rightarrow> bool" where
  "refs_wf refs \<longleftrightarrow> distinct (map fst refs) \<and> (\<forall>(k, r) \<in> set refs. ref_channelId r = k)"

lemma set_AList_update: "set (AList.update k v ps) \<subseteq> insert (k, v) (set ps)"
  by (induction ps) auto

lemma refs_wf_update: "refs_wf refs \<Longrightarrow> refs_wf (AList.update k \<lparr>ref_channelId = k, ref_name = n\<rparr> refs)"
  using set_AList_update [of k "\<lparr>ref_channelId = k, ref_name = n\<rparr>" refs]
  by (auto simp: refs_wf_def distinct_update)

lemma configuredRefs_wf: "refs_wf refs \<Longrightarrow> refs_wf (configuredRefs access names refs)"
  by (induction names arbitrary: refs) (auto simp: refs_wf_update split: option.splits)

lemma grantRefs_wf: "refs_wf refs \<Longrightarrow> refs_wf (grantRefs gs refs)"
  by (induction gs arbitrary: refs) (auto simp: refs_wf_update)

lemma configuredRefs_keys:
  "fst ` set (configuredRefs access names refs) =
    fst ` set refs \<union> {i. \<exists>name \<in> set names. map_of (named access) name = Some i}"
  by (induction names arbitrary: refs) (auto simp: dom_update split: option.splits)

lemma grantRefs_keys: "fst ` set (grantRefs gs refs) = fst ` set refs \<union> grant_channelId ` set gs"
proof (induction gs arbitrary: refs)
  case (Cons g gs)
  then show ?case
    by (cases "map_of refs (grant_channelId g)")
      (auto simp: dom_update map_of_eq_None_iff dest: map_of_SomeD intro: rev_image_eqI)
qed simp

lemma set_configuredIds:
  "set (configuredIds agent access) =
    {i. \<exists>name \<in> set (ac_allowed_channels agent). map_of (named access) name = Some i}"
  by (auto simp: configuredIds_def split: option.splits)

lemma agentChannelRefs_ids:
  "map ref_channelId (agentChannelRefs agent access) =
    map fst (grantRefs (agentGrants agent access) (configuredRefs access (ac_allowed_channels agent) []))"
proof -
  have "refs_wf (grantRefs (agentGrants agent access) (configuredRefs access (ac_allowed_channels agent) []))"
    by (intro grantRefs_wf configuredRefs_wf) (simp add: refs_wf_def)
  then show ?thesis by (auto simp: agentChannelRefs_def refs_wf_def)
qed

lemma agentChannelRefs_distinct: "distinct (map ref_channelId (agentChannelRefs agent access))"
proof -
  have "refs_wf (grantRefs (agentGrants agent access) (configuredRefs access (ac_allowed_channels agent) []))"
    by (intro grantRefs_wf configuredRefs_wf) (simp add: refs_wf_def)
  then show ?thesis by (simp add: agentChannelRefs_ids refs_wf_def)
qed

lemma set_agentChannelIds:
  "set (agentChannelIds agent access) =
    set (configuredIds agent access) \<union> grant_channelId ` set (agentGrants agent access)"
  using arg_cong [OF agentChannelRefs_ids [of agent access], of set]
  by (simp add: agentChannelIds_def grantRefs_keys configuredRefs_keys set_configuredIds del: set_map)
     (simp add: grantRefs_keys configuredRefs_keys)

lemma floors_keys:
  "fst ` set (agentChannelFloors agent access) =
    grant_channelId ` set (agentGrants agent access) - set (configuredIds agent access)"
  by (auto simp: agentChannelFloors_def image_image)

lemma recorded_keys:
  "fst ` set (agentGrantsRecorded agent access) = fst ` set (agentChannelFloors agent access)"
proof -
  have "map_of (agentChannelFloors agent access) k \<noteq> None \<longleftrightarrow>
    k \<in> grant_channelId ` set (agentGrants agent access) - set (configuredIds agent access)" for k
    by (simp add: map_of_eq_None_iff floors_keys del: not_None_eq)
  then show ?thesis by (auto simp: agentGrantsRecorded_def floors_keys image_image)
qed

subsection \<open>Properties\<close>

text \<open>An agent's channel references name every channel at most once; its channel ids are exactly
  the resolved configured channels and its grants; and the channels with a floor, which are also the
  ones with a recording time, are exactly the granted channels it is not configured for.\<close>

theorem channel_access_coherent:
  "distinct (map ref_channelId (agentChannelRefs agent access)) \<and>
   set (agentChannelIds agent access) =
     set (configuredIds agent access) \<union> grant_channelId ` set (agentGrants agent access) \<and>
   fst ` set (agentChannelFloors agent access) =
     set (agentChannelIds agent access) - set (configuredIds agent access) \<and>
   fst ` set (agentGrantsRecorded agent access) = fst ` set (agentChannelFloors agent access)"
  by (auto simp: agentChannelRefs_distinct set_agentChannelIds floors_keys recorded_keys)

end
