(* ===== verification/Mentions.thy ===== *)
theory Mentions
  imports Contracts
begin

text \<open>
  Mentions in post text: \<open>mentionedNames\<close> of \<open>packages/contracts/src/common.ts\<close>, the broadcast test of
  \<open>packages/contracts/src/turn.ts\<close> and \<open>renderPostMessage\<close> of \<open>packages/core/src/outcome.ts\<close>. A text is a
  list of characters, the Latin-1 part of Unicode; the Unicode classes \<open>L\<close> and \<open>N\<close> and \<open>toLowerCase\<close> are
  written out on it.

  The result used by the turn authority: the names visible in a rendered post are the names of the
  targets the Gateway prepends and the names the Markdown mentions itself.
\<close>

subsection \<open>Character classes\<close>

definition is_letter :: "char \<Rightarrow> bool" where
  "is_letter c \<longleftrightarrow> is_lower c \<or> is_upper c \<or> c = CHR 0xAA \<or> c = CHR 0xB5 \<or> c = CHR 0xBA \<or>
    (CHR 0xC0 \<le> c \<and> c \<noteq> CHR 0xD7 \<and> c \<noteq> CHR 0xF7)"

definition is_number :: "char \<Rightarrow> bool" where
  "is_number c \<longleftrightarrow> is_digit c \<or> c = CHR 0xB2 \<or> c = CHR 0xB3 \<or> c = CHR 0xB9 \<or>
    (CHR 0xBC \<le> c \<and> c \<le> CHR 0xBE)"

definition word_char :: "char \<Rightarrow> bool" where
  "word_char c \<longleftrightarrow> is_letter c \<or> is_number c \<or> c = CHR ''_''"

definition mention_char :: "char \<Rightarrow> bool" where
  "mention_char c \<longleftrightarrow> word_char c \<or> c = CHR ''.'' \<or> c = CHR ''-''"

definition lower_char :: "char \<Rightarrow> char" where
  "lower_char c =
    (if is_upper c \<or> (CHR 0xC0 \<le> c \<and> c \<le> CHR 0xDE \<and> c \<noteq> CHR 0xD7)
     then char_of ((of_char c :: nat) + 32) else c)"

subsection \<open>Mention tokens\<close>

text \<open>\<open>text.matchAll(MENTION)\<close>, the second group of every match. A match takes the character before the
  \<open>@\<close>, except at the start of the text (\<open>True\<close>), and the longest name after it; the scan goes on behind
  the name.\<close>

function mention_scan :: "bool \<Rightarrow> string \<Rightarrow> string list" where
  "mention_scan start [] = []"
| "mention_scan start (c # s) =
    (let name = takeWhile mention_char s in
     if start \<and> c = CHR ''@'' \<and> name \<noteq> []
     then name # mention_scan False (dropWhile mention_char s)
     else
       case s of
         [] \<Rightarrow> []
       | d # s' \<Rightarrow>
           let name' = takeWhile mention_char s' in
           if \<not> word_char c \<and> d = CHR ''@'' \<and> name' \<noteq> []
           then name' # mention_scan False (dropWhile mention_char s')
           else mention_scan False s)"
  by pat_completeness auto
termination
  by (relation "measure (\<lambda>(_, s). length s)")
    (auto simp: less_Suc_eq_le length_dropWhile_le le_SucI)

text \<open>\<open>name.replace(/[._-]+$/, '')\<close>.\<close>

definition trim_mention :: "string \<Rightarrow> string" where
  "trim_mention name = rev (dropWhile (\<lambda>c. c = CHR ''.'' \<or> c = CHR ''_'' \<or> c = CHR ''-'') (rev name))"

definition mentionedNames :: "string \<Rightarrow> string list" where
  "mentionedNames txt =
    filter (\<lambda>n. n \<noteq> [])
      (js_set (concat (map (\<lambda>m. let name = map lower_char m in [name, trim_mention name])
        (mention_scan True txt))))"

definition isBroadcastMention :: "string \<Rightarrow> bool" where
  "isBroadcastMention name \<longleftrightarrow>
    list_ex (\<lambda>b. startsWith name b \<and>
      (length name = length b \<or> \<not> (is_letter (name ! length b) \<or> is_number (name ! length b))))
      BROADCAST_MENTIONS"

definition hasBroadcastMention :: "string \<Rightarrow> bool" where
  "hasBroadcastMention txt \<longleftrightarrow> list_ex isBroadcastMention (mentionedNames txt)"

text \<open>\<open>renderPostMessage\<close>: visible mentions of the targets first, then the Markdown.\<close>

definition renderPostMessage :: "string list \<Rightarrow> string \<Rightarrow> string" where
  "renderPostMessage targetAgentIds markdown =
    (let mentions = js_join '' '' (map (\<lambda>i. CHR ''@'' # i) targetAgentIds) in
     if mentions = [] then markdown else mentions @ '' '' @ markdown)"

subsection \<open>Library\<close>

declare mention_scan.simps(2) [simp del]

definition mention_forms :: "string list \<Rightarrow> string set" where
  "mention_forms ms = {n. n \<noteq> [] \<and> (\<exists>m \<in> set ms. n = map lower_char m \<or> n = trim_mention (map lower_char m))}"

lemma set_mentionedNames: "set (mentionedNames txt) = mention_forms (mention_scan True txt)"
  by (auto simp: mentionedNames_def mention_forms_def Let_def)

lemma mention_forms_append: "mention_forms (xs @ ys) = mention_forms xs \<union> mention_forms ys"
  by (auto simp: mention_forms_def)

text \<open>Behind a blank, the scan finds what it finds at the start of a text.\<close>

lemma mention_scan_blank: "mention_scan b (CHR '' '' # s) = mention_scan True s"
proof (cases s)
  case Nil
  then show ?thesis by (simp add: mention_scan.simps(2))
next
  case (Cons d s')
  have blank: "\<not> word_char (CHR '' '')" by code_simp
  show ?thesis
  proof (cases "d = CHR ''@'' \<and> takeWhile mention_char s' \<noteq> []")
    case True
    then show ?thesis by (simp add: Cons mention_scan.simps(2) blank)
  next
    case False
    then have "mention_scan b (CHR '' '' # s) = mention_scan False s"
      by (auto simp: Cons mention_scan.simps(2) blank)
    also have "\<dots> = mention_scan True s"
      using False by (auto simp: Cons mention_scan.simps(2) [of _ d s'])
    finally show ?thesis .
  qed
qed

lemma mention_scan_prefix:
  assumes "list_all mention_char i" "i \<noteq> []"
  shows "mention_scan True (CHR ''@'' # i @ CHR '' '' # s) = i # mention_scan True s"
proof -
  have "\<not> mention_char (CHR '' '')" by code_simp
  then have "takeWhile mention_char (i @ CHR '' '' # s) = i" "dropWhile mention_char (i @ CHR '' '' # s) = CHR '' '' # s"
    using assms(1) by (simp_all add: list_all_iff takeWhile_append dropWhile_append)
  then show ?thesis
    using assms(2) by (simp only: mention_scan.simps(2) [of _ "CHR ''@''"] Let_def mention_scan_blank) simp
qed

lemma js_join_nonempty: "js_join sep ((c # x) # xs) \<noteq> []"
  by (cases xs) simp_all

lemma mention_scan_render:
  assumes "\<forall>i \<in> set targets. list_all mention_char i \<and> i \<noteq> []"
  shows "mention_scan True (renderPostMessage targets markdown) = targets @ mention_scan True markdown"
  using assms
proof (induction targets)
  case Nil
  then show ?case by (simp add: renderPostMessage_def)
next
  case (Cons i ids)
  have "renderPostMessage (i # ids) markdown = CHR ''@'' # i @ CHR '' '' # renderPostMessage ids markdown"
    by (cases ids) (simp_all add: renderPostMessage_def Let_def js_join_nonempty)
  with Cons show ?case by (simp add: mention_scan_prefix)
qed

subsection \<open>Agent ids\<close>

lemma hyphenated_chars: "hyphenated s \<Longrightarrow> list_all (\<lambda>c. is_lower_alnum c \<or> c = CHR ''-'') s"
proof -
  assume h: "hyphenated s"
  have sub: "\<forall>p \<in> set (js_split d t). list_all P p \<Longrightarrow> list_all (\<lambda>c. P c \<or> c = d) t" for d t and P :: "char \<Rightarrow> bool"
    by (induction t) (auto split: if_splits list.splits)
  from h have "\<forall>p \<in> set (js_split (CHR ''-'') s). list_all is_lower_alnum p"
    by (auto simp: hyphenated_def list_all_iff split: list.splits)
  with sub show ?thesis by blast
qed

lemma hyphenated_last: "hyphenated s \<Longrightarrow> s \<noteq> [] \<and> is_lower_alnum (last s)"
proof -
  assume h: "hyphenated s"
  then have "\<forall>q \<in> set (js_split (CHR ''-'') s). q \<noteq> [] \<and> list_all is_lower_alnum q"
    by (auto simp: hyphenated_def list_all_iff split: list.splits)
  then obtain q where q: "q = last (js_split (CHR ''-'') s)" "q \<noteq> []" "list_all is_lower_alnum q"
    by simp
  obtain u where "s = u @ q" using js_split_last q(1) by blast
  with q(2,3) show ?thesis by (simp add: list_all_iff)
qed

lemma lower_alnum_plain: "is_lower_alnum c \<or> c = CHR ''-'' \<Longrightarrow> mention_char c \<and> lower_char c = c"
  by (auto simp: is_lower_alnum_def mention_char_def word_char_def is_letter_def is_number_def lower_char_def
      is_lower_def is_upper_def is_digit_def less_eq_char_def)

lemma agent_id_mention:
  assumes "AgentIdSchema i"
  shows "list_all mention_char i \<and> i \<noteq> [] \<and> map lower_char i = i \<and> trim_mention i = i"
proof -
  from assms have h: "hyphenated i" by (simp add: AgentIdSchema_def)
  have c: "list_all mention_char i" "map lower_char i = i"
    using hyphenated_chars [OF h] lower_alnum_plain by (auto simp: list_all_iff intro: map_idI)
  obtain u d where i: "i = u @ [d]" "is_lower_alnum d"
    using hyphenated_last [OF h] by (metis append_butlast_last_id)
  then have "d \<noteq> CHR ''.''" "d \<noteq> CHR ''_''" "d \<noteq> CHR ''-''"
    by (auto simp: is_lower_alnum_def is_lower_def is_digit_def less_eq_char_def)
  then have "trim_mention i = i" by (simp add: trim_mention_def i)
  with c hyphenated_last [OF h] show ?thesis by simp
qed

lemma mention_forms_agent_ids: "list_all AgentIdSchema ids \<Longrightarrow> mention_forms ids = set ids"
  using agent_id_mention by (fastforce simp: mention_forms_def list_all_iff)

lemma mentionedNames_render:
  assumes "list_all AgentIdSchema targets"
  shows "set (mentionedNames (renderPostMessage targets markdown)) = set targets \<union> set (mentionedNames markdown)"
proof -
  have "mention_scan True (renderPostMessage targets markdown) = targets @ mention_scan True markdown"
    using assms agent_id_mention by (intro mention_scan_render) (auto simp: list_all_iff)
  with assms show ?thesis by (simp add: set_mentionedNames mention_forms_append mention_forms_agent_ids)
qed

end
