(* ===== verification/Budget.thy ===== *)
theory Budget
  imports Complex_Main Gateway_Prelude
begin

text \<open>
  Spending limits: the pure budget rules of \<open>packages/policy/src/budget.ts\<close> and the usage ledger of
  \<open>packages/core/src/services/budgets.ts\<close> (\<open>recordRunUsage\<close>, \<open>totals\<close>). Costs are exact rationals
  (the ledger column keeps six decimals); a UTC day is the number of whole days since the epoch,
  which names the same day as the \<open>YYYY-MM-DD\<close> text; the text of a hold's reason is its structured
  content. The properties: when exactly an agent is held, that more consumption never lifts a hold,
  that a redelivered report books nothing, and that a held scope was reported as under pressure.
\<close>

record runtime_usage =
  ru_inputTokens :: "nat option"
  ru_outputTokens :: "nat option"
  ru_cachedInputTokens :: "nat option"
  ru_costUsd :: "rat option"
  ru_durationMs :: "nat option"
  ru_model :: "string option"

record metered_usage =
  mu_costUsd :: "rat option"
  mu_tokens :: "nat option"

definition meteredUsage :: "runtime_usage option \<Rightarrow> metered_usage" where
  "meteredUsage usage =
    (case usage of
       None \<Rightarrow> \<lparr>mu_costUsd = None, mu_tokens = None\<rparr>
     | Some u \<Rightarrow>
         \<lparr>mu_costUsd = ru_costUsd u,
          mu_tokens =
            (if ru_inputTokens u = None \<and> ru_outputTokens u = None then None
             else Some ((case ru_inputTokens u of None \<Rightarrow> 0 | Some n \<Rightarrow> n) +
                        (case ru_outputTokens u of None \<Rightarrow> 0 | Some n \<Rightarrow> n)))\<rparr>)"

definition isUnmetered :: "metered_usage \<Rightarrow> bool" where
  "isUnmetered u \<longleftrightarrow> mu_costUsd u = None \<and> mu_tokens u = None"

record usage_totals =
  ut_costUsd :: rat
  ut_tokens :: nat
  ut_unmeteredAttempts :: nat

record daily_budget =
  db_cost_usd :: "rat option"
  db_tokens :: "nat option"

datatype unmetered_policy = UnmeteredHold | UnmeteredAllow

record organization_budgets =
  ob_per_agent_daily :: "daily_budget option"
  ob_global_daily :: "daily_budget option"
  ob_unmetered :: unmetered_policy

datatype budget_reason = CostReached rat rat | TokensReached nat nat | UnmeteredAttempts nat

datatype budget_scope = ScopeAgent | ScopeGlobal

definition overBudget :: "usage_totals \<Rightarrow> daily_budget option \<Rightarrow> budget_reason option" where
  "overBudget t budget =
    (case Option.bind budget db_cost_usd of
       Some limit \<Rightarrow>
         if ut_costUsd t \<ge> limit then Some (CostReached (ut_costUsd t) limit)
         else (case Option.bind budget db_tokens of
                 Some tlimit \<Rightarrow> if ut_tokens t \<ge> tlimit then Some (TokensReached (ut_tokens t) tlimit) else None
               | None \<Rightarrow> None)
     | None \<Rightarrow>
         (case Option.bind budget db_tokens of
            Some tlimit \<Rightarrow> if ut_tokens t \<ge> tlimit then Some (TokensReached (ut_tokens t) tlimit) else None
          | None \<Rightarrow> None))"

definition budgetHold ::
    "organization_budgets option \<Rightarrow> usage_totals \<Rightarrow> usage_totals \<Rightarrow> (budget_scope \<times> budget_reason) option" where
  "budgetHold budgets agent global =
    (case budgets of
       None \<Rightarrow> None
     | Some b \<Rightarrow>
         (case overBudget global (ob_global_daily b) of
            Some reason \<Rightarrow> Some (ScopeGlobal, reason)
          | None \<Rightarrow>
              (case overBudget agent (ob_per_agent_daily b) of
                 Some reason \<Rightarrow> Some (ScopeAgent, reason)
               | None \<Rightarrow>
                   let limited = (ob_per_agent_daily b \<noteq> None \<or> ob_global_daily b \<noteq> None) in
                   if limited \<and> ob_unmetered b = UnmeteredHold \<and> ut_unmeteredAttempts agent > 0
                   then Some (ScopeAgent, UnmeteredAttempts (ut_unmeteredAttempts agent))
                   else None)))"

definition utcDay :: "millis \<Rightarrow> int" where
  "utcDay moment = moment div 86400000"

definition BUDGET_WARNING_RATIO :: rat where "BUDGET_WARNING_RATIO = 8 / 10"

definition budgetShares :: "usage_totals \<Rightarrow> daily_budget option \<Rightarrow> (rat \<times> budget_reason) list" where
  "budgetShares t budget =
    (case Option.bind budget db_cost_usd of
       Some c \<Rightarrow> if c > 0 then [(ut_costUsd t / c, CostReached (ut_costUsd t) c)] else []
     | None \<Rightarrow> []) @
    (case Option.bind budget db_tokens of
       Some n \<Rightarrow> if n > 0 then [(of_nat (ut_tokens t) / of_nat n, TokensReached (ut_tokens t) n)] else []
     | None \<Rightarrow> [])"

definition budgetPressure :: "usage_totals \<Rightarrow> daily_budget option \<Rightarrow> (rat \<times> budget_reason) option" where
  "budgetPressure t budget =
    (case sort_key (\<lambda>s. - fst s) (budgetShares t budget) of
       [] \<Rightarrow> None
     | share # _ \<Rightarrow> if fst share < BUDGET_WARNING_RATIO then None else Some share)"

subsection \<open>The usage ledger\<close>

record usage_row =
  uw_runId :: string
  uw_attempt :: nat
  uw_agentId :: string
  uw_day :: int
  uw_costUsd :: "rat option"
  uw_tokens :: "nat option"
  uw_recordedAt :: millis

definition MAX_BOOKED_COST_USD :: rat where "MAX_BOOKED_COST_USD = 99999999"

text \<open>The column \<open>numeric(14, 6)\<close>: a stored cost is rounded to six decimals.\<close>

definition numeric_6 :: "rat \<Rightarrow> rat" where
  "numeric_6 x = of_int (round (x * 1000000)) / 1000000"

definition usage_row_for :: "millis \<Rightarrow> string \<Rightarrow> nat \<Rightarrow> string \<Rightarrow> runtime_usage option \<Rightarrow> usage_row" where
  "usage_row_for now runId attempt agentId usage =
    (let metered = meteredUsage usage in
     \<lparr>uw_runId = runId, uw_attempt = attempt, uw_agentId = agentId, uw_day = utcDay now,
      uw_costUsd = map_option (\<lambda>c. numeric_6 (min c MAX_BOOKED_COST_USD)) (mu_costUsd metered),
      uw_tokens = mu_tokens metered, uw_recordedAt = now\<rparr>)"

text \<open>\<open>insert ... on conflict do nothing\<close> on the key (run, attempt).\<close>

definition recordRunUsage ::
    "millis \<Rightarrow> string \<Rightarrow> nat \<Rightarrow> string \<Rightarrow> runtime_usage option \<Rightarrow> usage_row list \<Rightarrow> usage_row list" where
  "recordRunUsage now runId attempt agentId usage ledger =
    (if list_ex (\<lambda>r. uw_runId r = runId \<and> uw_attempt r = attempt) ledger then ledger
     else ledger @ [usage_row_for now runId attempt agentId usage])"

definition totals :: "int \<Rightarrow> string option \<Rightarrow> usage_row list \<Rightarrow> usage_totals" where
  "totals day agentId ledger =
    (let rows = filter (\<lambda>r. uw_day r = day \<and> (case agentId of None \<Rightarrow> True | Some a \<Rightarrow> uw_agentId r = a)) ledger
     in \<lparr>ut_costUsd = sum_list (map (\<lambda>r. case uw_costUsd r of None \<Rightarrow> 0 | Some c \<Rightarrow> c) rows),
         ut_tokens = sum_list (map (\<lambda>r. case uw_tokens r of None \<Rightarrow> 0 | Some n \<Rightarrow> n) rows),
         ut_unmeteredAttempts = length (filter (\<lambda>r. uw_costUsd r = None \<and> uw_tokens r = None) rows)\<rparr>)"

subsection \<open>Lemmas\<close>

definition totals_le :: "usage_totals \<Rightarrow> usage_totals \<Rightarrow> bool" where
  "totals_le s t \<longleftrightarrow> ut_costUsd s \<le> ut_costUsd t \<and> ut_tokens s \<le> ut_tokens t \<and>
    ut_unmeteredAttempts s \<le> ut_unmeteredAttempts t"

lemma overBudget_iff:
  "overBudget t b \<noteq> None \<longleftrightarrow>
    (\<exists>l. Option.bind b db_cost_usd = Some l \<and> l \<le> ut_costUsd t) \<or>
    (\<exists>l. Option.bind b db_tokens = Some l \<and> l \<le> ut_tokens t)"
  by (auto simp: overBudget_def split: option.splits)

lemma overBudget_mono: "totals_le s t \<Longrightarrow> overBudget s b \<noteq> None \<Longrightarrow> overBudget t b \<noteq> None"
  unfolding overBudget_iff totals_le_def by (auto intro: order_trans)

lemma budgetHold_iff:
  "budgetHold (Some b) a g \<noteq> None \<longleftrightarrow>
    overBudget g (ob_global_daily b) \<noteq> None \<or> overBudget a (ob_per_agent_daily b) \<noteq> None \<or>
    (ob_per_agent_daily b \<noteq> None \<or> ob_global_daily b \<noteq> None) \<and> ob_unmetered b = UnmeteredHold \<and>
    ut_unmeteredAttempts a > 0"
  by (auto simp: budgetHold_def Let_def split: option.splits)

lemma ledger_keys_recordRunUsage:
  "distinct (map (\<lambda>r. (uw_runId r, uw_attempt r)) ledger) \<Longrightarrow>
   distinct (map (\<lambda>r. (uw_runId r, uw_attempt r)) (recordRunUsage now i n a u ledger))"
  by (auto simp: recordRunUsage_def usage_row_for_def Let_def list_ex_iff)

lemma usage_row_for_simps [simp]:
  "uw_runId (usage_row_for now i n a u) = i" "uw_attempt (usage_row_for now i n a u) = n"
  "uw_agentId (usage_row_for now i n a u) = a" "uw_day (usage_row_for now i n a u) = utcDay now"
  by (simp_all add: usage_row_for_def Let_def)

lemma numeric_6_nonneg: "0 \<le> x \<Longrightarrow> 0 \<le> numeric_6 x"
proof -
  assume "0 \<le> x"
  then have "round (0 :: rat) \<le> round (x * 1000000)" using round_mono [of 0 "x * 1000000"] by simp
  then show ?thesis by (simp add: numeric_6_def)
qed

lemma usage_row_nonneg:
  assumes "\<And>c v. u = Some v \<Longrightarrow> ru_costUsd v = Some c \<Longrightarrow> 0 \<le> c"
  shows "0 \<le> (case uw_costUsd (usage_row_for now i n a u) of None \<Rightarrow> 0 | Some c \<Rightarrow> c)"
  using assms numeric_6_nonneg
  by (auto simp: usage_row_for_def meteredUsage_def Let_def MAX_BOOKED_COST_USD_def min_def
      split: option.splits)

lemma totals_le_append:
  assumes "0 \<le> (case uw_costUsd r of None \<Rightarrow> 0 | Some c \<Rightarrow> c)"
  shows "totals_le (totals day x ledger) (totals day x (ledger @ [r]))"
  using assms by (auto simp: totals_le_def totals_def Let_def)

lemma totals_recordRunUsage_le:
  assumes "\<And>c v. u = Some v \<Longrightarrow> ru_costUsd v = Some c \<Longrightarrow> 0 \<le> c"
  shows "totals_le (totals day x ledger) (totals day x (recordRunUsage now i n a u ledger))"
proof (cases "list_ex (\<lambda>r. uw_runId r = i \<and> uw_attempt r = n) ledger")
  case True
  then show ?thesis by (simp add: recordRunUsage_def totals_le_def)
next
  case False
  then show ?thesis
    using totals_le_append [OF usage_row_nonneg [OF assms]] by (simp add: recordRunUsage_def)
qed

lemma budgetShares_nonempty_over:
  assumes "overBudget t (Some b) \<noteq> None"
    and "\<And>c. db_cost_usd b = Some c \<Longrightarrow> 0 < c" and "\<And>n. db_tokens b = Some n \<Longrightarrow> 0 < n"
  shows "\<exists>s\<in>set (budgetShares t (Some b)). 1 \<le> fst s"
proof -
  from assms(1) consider (cost) l where "db_cost_usd b = Some l" "l \<le> ut_costUsd t"
    | (tok) l where "db_tokens b = Some l" "l \<le> ut_tokens t"
    unfolding overBudget_iff by auto
  then show ?thesis
  proof cases
    case cost
    then have "0 < l" using assms(2) by simp
    with cost show ?thesis
      by (intro bexI [of _ "(ut_costUsd t / l, CostReached (ut_costUsd t) l)"])
        (auto simp: budgetShares_def)
  next
    case tok
    then have "0 < l" using assms(3) by simp
    with tok show ?thesis
      by (intro bexI [of _ "(of_nat (ut_tokens t) / of_nat l, TokensReached (ut_tokens t) l)"])
        (auto simp: budgetShares_def)
  qed
qed

lemma budgetPressure_max:
  assumes "s \<in> set (budgetShares t b)" and "BUDGET_WARNING_RATIO \<le> fst s"
  shows "\<exists>share. budgetPressure t b = Some share \<and> share \<in> set (budgetShares t b) \<and> fst s \<le> fst share"
proof -
  let ?xs = "sort_key (\<lambda>s. - fst s) (budgetShares t b)"
  have mem: "s \<in> set ?xs" using assms(1) by simp
  then obtain share rest where xs: "?xs = share # rest" by (cases ?xs) auto
  have "sorted (map (\<lambda>s. - fst s) ?xs)" by (rule sorted_sort_key)
  then have "fst s \<le> fst share" using mem unfolding xs by auto
  moreover have "share \<in> set (budgetShares t b)" using xs by (metis list.set_intros(1) set_sort)
  ultimately show ?thesis using xs assms(2) by (auto simp: budgetPressure_def)
qed

text \<open>When an agent is held. With budgets configured, an agent may start no run exactly when
  the whole organization reached a global limit, the agent reached its own, or (some limit being
  set and unmetered usage failing closed) the agent had an attempt today that reported no usage;
  the global limit is named first. Without budgets nobody is held.\<close>

theorem budgetHold_exact:
  "budgetHold None a g = None \<and>
   (budgetHold (Some b) a g = None \<longleftrightarrow>
     overBudget g (ob_global_daily b) = None \<and> overBudget a (ob_per_agent_daily b) = None \<and>
     (ob_per_agent_daily b = None \<and> ob_global_daily b = None \<or> ob_unmetered b = UnmeteredAllow \<or>
      ut_unmeteredAttempts a = 0)) \<and>
   (map_option fst (budgetHold (Some b) a g) = Some ScopeGlobal \<longleftrightarrow>
     overBudget g (ob_global_daily b) \<noteq> None)"
proof -
  have "ob_unmetered b = UnmeteredAllow \<or> ob_unmetered b = UnmeteredHold"
    by (cases "ob_unmetered b") auto
  then show ?thesis
    by (auto simp: budgetHold_def Let_def split: option.splits)
qed

text \<open>C38: a hold is never lifted by more consumption. Booking further attempts (with non-negative
  costs, as the contract requires) keeps an agent that is held today held for the rest of the day.\<close>

theorem hold_survives_usage:
  assumes "budgetHold (Some b) (totals day (Some ag) ledger) (totals day None ledger) \<noteq> None"
    and "\<forall>v c. u = Some v \<longrightarrow> ru_costUsd v = Some c \<longrightarrow> 0 \<le> c"
  shows "budgetHold (Some b) (totals day (Some ag) (recordRunUsage now i n a u ledger))
           (totals day None (recordRunUsage now i n a u ledger)) \<noteq> None"
proof -
  have le: "totals_le (totals day x ledger) (totals day x (recordRunUsage now i n a u ledger))" for x
    using assms(2) by (intro totals_recordRunUsage_le) blast
  show ?thesis
    using assms(1) overBudget_mono [OF le] le [of "Some ag"]
    unfolding budgetHold_iff totals_le_def by (meson less_le_trans)
qed

definition example_budgets :: organization_budgets where
  "example_budgets = \<lparr>ob_per_agent_daily = Some \<lparr>db_cost_usd = Some 5, db_tokens = None\<rparr>,
     ob_global_daily = None, ob_unmetered = UnmeteredHold\<rparr>"

definition example_usage :: runtime_usage where
  "example_usage = \<lparr>ru_inputTokens = Some 900, ru_outputTokens = Some 100, ru_cachedInputTokens = None,
     ru_costUsd = Some 6, ru_durationMs = None, ru_model = None\<rparr>"

definition example_ledger :: "usage_row list" where
  "example_ledger = recordRunUsage 1000 ''r1'' 1 ''developer'' (Some example_usage) []"

lemma example_ledger_totals:
  "ut_costUsd (totals 0 (Some ''developer'') example_ledger) = 6"
  by (simp add: example_ledger_def recordRunUsage_def totals_def usage_row_for_def meteredUsage_def
      example_usage_def utcDay_def numeric_6_def MAX_BOOKED_COST_USD_def Let_def)

theorem hold_survives_usage_witness:
  "budgetHold (Some example_budgets) (totals 0 (Some ''developer'') example_ledger) (totals 0 None example_ledger) \<noteq> None \<and>
   budgetHold (Some example_budgets)
     (totals 0 (Some ''developer'') (recordRunUsage 2000 ''r2'' 1 ''finance'' None example_ledger))
     (totals 0 None (recordRunUsage 2000 ''r2'' 1 ''finance'' None example_ledger)) \<noteq> None"
proof -
  have h: "budgetHold (Some example_budgets) (totals 0 (Some ''developer'') example_ledger)
      (totals 0 None example_ledger) \<noteq> None"
    unfolding budgetHold_iff overBudget_iff by (simp add: example_ledger_totals example_budgets_def)
  show ?thesis using h hold_survives_usage [OF h, of None] by simp
qed

text \<open>Usage is booked once. A redelivered report of the same attempt changes no ledger row,
  even with another usage; and the ledger never holds two rows for one attempt of a run.\<close>

theorem usage_booked_once:
  assumes "distinct (map (\<lambda>r. (uw_runId r, uw_attempt r)) ledger)"
  shows "recordRunUsage now' i n a' u' (recordRunUsage now i n a u ledger) = recordRunUsage now i n a u ledger \<and>
    distinct (map (\<lambda>r. (uw_runId r, uw_attempt r)) (recordRunUsage now i n a u ledger)) \<and>
    set ledger \<subseteq> set (recordRunUsage now i n a u ledger)"
  using ledger_keys_recordRunUsage [OF assms] by (auto simp: recordRunUsage_def list_ex_iff)

text \<open>Nobody is held without being reported first. A scope that reached one of its (positive)
  limits is under pressure, with a share of at least one, and the reported share is the largest.\<close>

theorem over_budget_is_reported:
  assumes "overBudget t (Some b) \<noteq> None"
    and "\<forall>c. db_cost_usd b = Some c \<longrightarrow> 0 < c" and "\<forall>n. db_tokens b = Some n \<longrightarrow> 0 < n"
  shows "\<exists>share. budgetPressure t (Some b) = Some share \<and> 1 \<le> fst share \<and>
    (\<forall>s\<in>set (budgetShares t (Some b)). fst s \<le> fst share)"
proof -
  obtain s where s: "s \<in> set (budgetShares t (Some b))" "1 \<le> fst s"
    using budgetShares_nonempty_over assms by blast
  then have "BUDGET_WARNING_RATIO \<le> fst s" by (simp add: BUDGET_WARNING_RATIO_def)
  with s obtain share where share: "budgetPressure t (Some b) = Some share" "fst s \<le> fst share"
    using budgetPressure_max by blast
  have "fst s' \<le> fst share" if "s' \<in> set (budgetShares t (Some b))" for s'
  proof (cases "BUDGET_WARNING_RATIO \<le> fst s'")
    case True
    from budgetPressure_max [OF that True] share show ?thesis by auto
  next
    case False
    with share(2) \<open>BUDGET_WARNING_RATIO \<le> fst s\<close> show ?thesis by simp
  qed
  moreover have "1 \<le> fst share" using s(2) share(2) by (rule order_trans)
  ultimately show ?thesis using share(1) by blast
qed

end
