(* ===== verification/Turn_Authority.thy ===== *)
theory Turn_Authority
  imports Mentions Tool_Policy Budget
begin

text \<open>
  What a turn may do: the turn result of \<open>packages/contracts/src/turn.ts\<close> and the authority check of
  \<open>packages/contracts/src/turn-authority.ts\<close>, clause by clause, with the issues it reports in order.

  The properties: the check reports nothing exactly for the results the abstract predicate
  \<open>turn_authorised\<close> describes, and in an accepted result the agents a rendered post visibly mentions are
  exactly the agents it is routed to.
\<close>

subsection \<open>The turn result\<close>

record artifact_ref =
  ar_artifactId :: "string option"
  ar_artifactKey :: "string option"

record artifact_descriptor =
  ad_key :: string
  ad_kind :: string
  ad_workspacePath :: "string option"
  ad_url :: "string option"
  ad_sha256 :: "string option"
  ad_mimeType :: "string option"
  ad_sizeBytes :: "nat option"
  ad_visibility :: visibility
  ad_description :: "string option"

record public_message =
  pm_channelId :: string
  pm_rootPostId :: "string option"
  pm_markdown :: string
  pm_targetAgentIds :: "string list"
  pm_attachments :: "artifact_ref list"

record approval_draft =
  dr_actionType :: string
  dr_actionParams :: "action_param list"
  dr_actionSummary :: string

datatype next_state =
    NIdle
  | NWaiting "wait_condition list"
  | NNeedsHuman approval_draft
  | NFailed string bool

record memory_proposal =
  mp_namespace :: string
  mp_key :: string
  mp_content :: string
  mp_visibility :: visibility

record working_summary =
  ws_assigned :: string
  ws_facts :: "string list"
  ws_decisions :: "string list"
  ws_done :: "string list"
  ws_remaining :: "string list"
  ws_waitingFor :: "string list"
  ws_risks :: "string list"

record session_handle =
  sh_adapter :: runtime_adapter_id
  sh_providerSessionId :: string
  sh_runtimeVersion :: string
  sh_expiresAt :: "millis option"

record agent_turn_result =
  tr_runId :: string
  tr_publicMessages :: "public_message list"
  tr_nextState :: next_state
  tr_publicSummary :: working_summary
  tr_memoryProposals :: "memory_proposal list"
  tr_artifacts :: "artifact_descriptor list"
  tr_usage :: "runtime_usage option"
  tr_session :: "session_handle option"

subsection \<open>The authority of a run\<close>

record turn_authority_context =
  tc_runId :: string
  tc_agentId :: string
  tc_allowedChannelIds :: "string list"
  tc_registeredAgentIds :: "string list"
  tc_addressableAgents :: "(string \<times> string list) list"
  tc_writableMemoryNamespaces :: "string list"
  tc_waitableUserIds :: "string list"
  tc_attachableArtifactIds :: "string list"
  tc_toolPolicy :: tool_lists

definition POST_TOOL :: string where
  "POST_TOOL = ''mattermost.post''"

type_synonym issue = "string \<times> string"

text \<open>The channels of an addressable agent, or the reason it is not one.\<close>

definition addressableChannels ::
    "turn_authority_context \<Rightarrow> string \<Rightarrow> string \<Rightarrow> issue list \<times> string list option" where
  "addressableChannels ctx path agentId =
    (if agentId = tc_agentId ctx
     then ([(path, ''agent '' @ quoted agentId @ '' cannot address itself'')], None)
     else case map_of (tc_addressableAgents ctx) agentId of
       None \<Rightarrow> ([(path, ''agent '' @ quoted agentId @ '' is not addressable by '' @ quoted (tc_agentId ctx))], None)
     | Some channels \<Rightarrow> ([], Some channels))"

definition knownAgentIds :: "turn_authority_context \<Rightarrow> string list" where
  "knownAgentIds ctx =
    js_set (tc_agentId ctx # tc_registeredAgentIds ctx @ map fst (tc_addressableAgents ctx))"

definition producedArtifacts :: "agent_turn_result \<Rightarrow> (string \<times> visibility) list" where
  "producedArtifacts result = js_map (map (\<lambda>a. (ad_key a, ad_visibility a)) (tr_artifacts result))"

definition mayPost :: "turn_authority_context \<Rightarrow> bool" where
  "mayPost ctx \<longleftrightarrow>
    covers (tl_allow (tc_toolPolicy ctx)) POST_TOOL \<and> \<not> covers (tl_deny (tc_toolPolicy ctx)) POST_TOOL \<and>
    \<not> covers (tl_requireHumanApproval (tc_toolPolicy ctx)) POST_TOOL"

definition mentionIssues :: "turn_authority_context \<Rightarrow> string \<Rightarrow> public_message \<Rightarrow> issue list" where
  "mentionIssues ctx path m =
    concat (map (\<lambda>name.
        if name \<in> set (knownAgentIds ctx) \<and> name \<notin> set (pm_targetAgentIds m)
        then [(path @ ''.markdown'',
               quoted (CHR ''@'' # name) @ '' is mentioned in the text but missing from targetAgentIds'')]
        else [])
      (mentionedNames (pm_markdown m)))"

definition targetIssues ::
    "turn_authority_context \<Rightarrow> string \<Rightarrow> public_message \<Rightarrow> nat \<Rightarrow> string \<Rightarrow> issue list" where
  "targetIssues ctx path m j target =
    (let p = path @ ''.targetAgentIds.'' @ show_nat j in
     case addressableChannels ctx p target of
       (issues, None) \<Rightarrow> issues
     | (issues, Some channels) \<Rightarrow>
         if pm_channelId m \<notin> set channels
         then issues @ [(p, ''agent '' @ quoted target @ '' is not a member of channel '' @ quoted (pm_channelId m))]
         else issues)"

definition attachmentIssues ::
    "turn_authority_context \<Rightarrow> (string \<times> visibility) list \<Rightarrow> string \<Rightarrow> nat \<Rightarrow> artifact_ref \<Rightarrow> issue list" where
  "attachmentIssues ctx produced path j attachment =
    (let p = path @ ''.attachments.'' @ show_nat j in
     (case ar_artifactKey attachment of
        None \<Rightarrow> []
      | Some key \<Rightarrow>
          (case map_of produced key of
             None \<Rightarrow> [(p, ''artifact key '' @ quoted key @ '' is not produced in this turn'')]
           | Some v \<Rightarrow> if v = VPrivate then [(p, ''private artifact '' @ quoted key @ '' cannot be posted'')] else []))
     @ (case ar_artifactId attachment of
          None \<Rightarrow> []
        | Some i \<Rightarrow>
            if i \<notin> set (tc_attachableArtifactIds ctx)
            then [(p, ''artifact '' @ quoted i @ '' is not attachable'')] else []))"

definition messageIssues ::
    "turn_authority_context \<Rightarrow> (string \<times> visibility) list \<Rightarrow> nat \<Rightarrow> public_message \<Rightarrow> issue list" where
  "messageIssues ctx produced i m =
    (let path = ''publicMessages.'' @ show_nat i in
     (if \<not> mayPost ctx
      then [(path, quoted (tc_agentId ctx) @ '' is not allowed to use '' @ POST_TOOL)] else [])
     @ (if pm_channelId m \<notin> set (tc_allowedChannelIds ctx)
        then [(path @ ''.channelId'', ''channel '' @ quoted (pm_channelId m) @ '' is not allowed'')] else [])
     @ mentionIssues ctx path m
     @ forEach_issues 0 (targetIssues ctx path m) (pm_targetAgentIds m)
     @ forEach_issues 0 (attachmentIssues ctx produced path) (pm_attachments m))"

definition waitIssues :: "turn_authority_context \<Rightarrow> nat \<Rightarrow> wait_condition \<Rightarrow> issue list" where
  "waitIssues ctx i w =
    (let path = ''nextState.waits.'' @ show_nat i in
     forEach_issues 0 (\<lambda>j sender.
         fst (addressableChannels ctx (path @ ''.expectedSenderAgentIds.'' @ show_nat j) sender))
       (wc_expectedSenderAgentIds w)
     @ forEach_issues 0 (\<lambda>j userId.
         if userId \<notin> set (tc_waitableUserIds ctx)
         then [(path @ ''.expectedSenderUserIds.'' @ show_nat j,
                ''user '' @ quoted userId @ '' is neither a participant of the run's threads nor an owner'')]
         else [])
       (wc_expectedSenderUserIds w)
     @ (case wc_requireTargetAgentId w of
          None \<Rightarrow> []
        | Some a \<Rightarrow>
            if a \<noteq> tc_agentId ctx
            then [(path @ ''.requireTargetAgentId'',
                   ''a wait can only require messages addressed to '' @ quoted (tc_agentId ctx))]
            else []))"

definition nextStateIssues :: "turn_authority_context \<Rightarrow> next_state \<Rightarrow> issue list" where
  "nextStateIssues ctx s =
    (case s of
       NWaiting waits \<Rightarrow> forEach_issues 0 (waitIssues ctx) waits
     | NNeedsHuman draft \<Rightarrow>
         (if covers (tl_deny (tc_toolPolicy ctx)) (dr_actionType draft) \<or>
             \<not> covers (tl_requireHumanApproval (tc_toolPolicy ctx)) (dr_actionType draft)
          then [(''nextState.approvalRequest.actionType'',
                 quoted (tc_agentId ctx) @ '' may not request approval for '' @ quoted (dr_actionType draft))]
          else [])
     | _ \<Rightarrow> [])"

definition checkTurnResultAuthority :: "agent_turn_result \<Rightarrow> turn_authority_context \<Rightarrow> issue list" where
  "checkTurnResultAuthority result ctx =
    (if tr_runId result \<noteq> tc_runId ctx
     then [(''runId'', ''result belongs to run '' @ quoted (tr_runId result) @ '', expected '' @ quoted (tc_runId ctx))]
     else [])
    @ forEach_issues 0 (messageIssues ctx (producedArtifacts result)) (tr_publicMessages result)
    @ nextStateIssues ctx (tr_nextState result)
    @ forEach_issues 0 (\<lambda>i p.
        if mp_namespace p \<notin> set (tc_writableMemoryNamespaces ctx)
        then [(''memoryProposals.'' @ show_nat i @ ''.namespace'',
               ''namespace '' @ quoted (mp_namespace p) @ '' is not writable by '' @ quoted (tc_agentId ctx))]
        else [])
      (tr_memoryProposals result)"

subsection \<open>Specification\<close>

text \<open>Another agent, addressable, with these channels.\<close>

definition addressable :: "turn_authority_context \<Rightarrow> string \<Rightarrow> (string list \<Rightarrow> bool) \<Rightarrow> bool" where
  "addressable ctx a P \<longleftrightarrow>
    a \<noteq> tc_agentId ctx \<and> (\<exists>channels. map_of (tc_addressableAgents ctx) a = Some channels \<and> P channels)"

text \<open>A post the agent may make: an allowed channel, mentions that are routed, targets that are members
  of the channel, and attachments that are attachable or produced in this turn and not private.\<close>

definition message_authorised :: "turn_authority_context \<Rightarrow> agent_turn_result \<Rightarrow> public_message \<Rightarrow> bool" where
  "message_authorised ctx result m \<longleftrightarrow>
    mayPost ctx \<and> pm_channelId m \<in> set (tc_allowedChannelIds ctx) \<and>
    set (mentionedNames (pm_markdown m)) \<inter> set (knownAgentIds ctx) \<subseteq> set (pm_targetAgentIds m) \<and>
    (\<forall>target \<in> set (pm_targetAgentIds m). addressable ctx target (\<lambda>cs. pm_channelId m \<in> set cs)) \<and>
    (\<forall>a \<in> set (pm_attachments m).
      (\<forall>key. ar_artifactKey a = Some key \<longrightarrow>
        (\<exists>v. map_of (producedArtifacts result) key = Some v \<and> v \<noteq> VPrivate)) \<and>
      (\<forall>i. ar_artifactId a = Some i \<longrightarrow> i \<in> set (tc_attachableArtifactIds ctx)))"

text \<open>A wait the agent may enter: on addressable agents and waitable humans, addressed to itself.\<close>

definition wait_authorised :: "turn_authority_context \<Rightarrow> wait_condition \<Rightarrow> bool" where
  "wait_authorised ctx w \<longleftrightarrow>
    (\<forall>a \<in> set (wc_expectedSenderAgentIds w). addressable ctx a (\<lambda>_. True)) \<and>
    set (wc_expectedSenderUserIds w) \<subseteq> set (tc_waitableUserIds ctx) \<and>
    (\<forall>a. wc_requireTargetAgentId w = Some a \<longrightarrow> a = tc_agentId ctx)"

definition turn_authorised :: "turn_authority_context \<Rightarrow> agent_turn_result \<Rightarrow> bool" where
  "turn_authorised ctx result \<longleftrightarrow>
    tr_runId result = tc_runId ctx \<and>
    (\<forall>m \<in> set (tr_publicMessages result). message_authorised ctx result m) \<and>
    (\<forall>waits. tr_nextState result = NWaiting waits \<longrightarrow> (\<forall>w \<in> set waits. wait_authorised ctx w)) \<and>
    (\<forall>draft. tr_nextState result = NNeedsHuman draft \<longrightarrow>
      covers (tl_requireHumanApproval (tc_toolPolicy ctx)) (dr_actionType draft) \<and>
      \<not> covers (tl_deny (tc_toolPolicy ctx)) (dr_actionType draft)) \<and>
    (\<forall>p \<in> set (tr_memoryProposals result). mp_namespace p \<in> set (tc_writableMemoryNamespaces ctx))"

subsection \<open>Library\<close>

text \<open>Each checker is silent exactly on what its clause describes.\<close>

lemma fst_addressableChannels_iff [issue_iff]:
  "fst (addressableChannels ctx p a) = [] \<longleftrightarrow> addressable ctx a (\<lambda>_. True)"
  by (auto simp: addressableChannels_def addressable_def split: option.splits)

lemma targetIssues_iff [issue_iff]:
  "targetIssues ctx path m j t = [] \<longleftrightarrow> addressable ctx t (\<lambda>cs. pm_channelId m \<in> set cs)"
  by (auto simp: targetIssues_def addressableChannels_def addressable_def Let_def split: option.splits)

lemma mentionIssues_iff [issue_iff]:
  "mentionIssues ctx path m = [] \<longleftrightarrow>
    set (mentionedNames (pm_markdown m)) \<inter> set (knownAgentIds ctx) \<subseteq> set (pm_targetAgentIds m)"
  by (auto simp: mentionIssues_def concat_map_Nil_iff)

lemma attachmentIssues_iff [issue_iff]:
  "attachmentIssues ctx produced path j a = [] \<longleftrightarrow>
    (\<forall>key. ar_artifactKey a = Some key \<longrightarrow> (\<exists>v. map_of produced key = Some v \<and> v \<noteq> VPrivate)) \<and>
    (\<forall>i. ar_artifactId a = Some i \<longrightarrow> i \<in> set (tc_attachableArtifactIds ctx))"
  by (auto simp: attachmentIssues_def Let_def split: option.splits)

lemma messageIssues_iff [issue_iff]:
  "messageIssues ctx (producedArtifacts result) i m = [] \<longleftrightarrow> message_authorised ctx result m"
  by (auto simp: messageIssues_def message_authorised_def Let_def issue_iff
      forEach_issues_Nil_iff [OF targetIssues_iff] forEach_issues_Nil_iff [OF attachmentIssues_iff])

lemma waitIssues_iff [issue_iff]: "waitIssues ctx i w = [] \<longleftrightarrow> wait_authorised ctx w"
  by (auto simp: waitIssues_def wait_authorised_def Let_def forEach_issues_Nil_iff [OF fst_addressableChannels_iff]
      forEach_issues_Nil_iff [where P = "\<lambda>u. u \<in> set (tc_waitableUserIds ctx)"] split: option.splits)

lemma checkTurnResultAuthority_iff: "checkTurnResultAuthority result ctx = [] \<longleftrightarrow> turn_authorised ctx result"
  by (auto simp: checkTurnResultAuthority_def turn_authorised_def nextStateIssues_def
      forEach_issues_Nil_iff [OF messageIssues_iff] forEach_issues_Nil_iff [OF waitIssues_iff]
      forEach_issues_Nil_iff [where P = "\<lambda>p. mp_namespace p \<in> set (tc_writableMemoryNamespaces ctx)"]
      split: next_state.splits)

subsection \<open>Properties\<close>


text \<open>C24: In an accepted result, the registered agents a rendered post visibly mentions are exactly the
  agents it is routed to.\<close>

theorem rendered_mentions_are_targets:
  assumes "checkTurnResultAuthority result ctx = []" and "m \<in> set (tr_publicMessages result)"
    and "list_all AgentIdSchema (pm_targetAgentIds m)"
  shows "set (mentionedNames (renderPostMessage (pm_targetAgentIds m) (pm_markdown m))) \<inter> set (knownAgentIds ctx) =
    set (pm_targetAgentIds m)"
proof -
  from assms(1,2) have m: "message_authorised ctx result m"
    by (simp add: checkTurnResultAuthority_iff turn_authorised_def)
  have "set (pm_targetAgentIds m) \<subseteq> set (knownAgentIds ctx)"
  proof
    fix t assume "t \<in> set (pm_targetAgentIds m)"
    with m have "addressable ctx t (\<lambda>cs. pm_channelId m \<in> set cs)" by (simp add: message_authorised_def)
    then show "t \<in> set (knownAgentIds ctx)"
      by (auto simp: addressable_def knownAgentIds_def dest: map_of_SomeD intro: rev_image_eqI)
  qed
  with m mentionedNames_render [OF assms(3)] show ?thesis by (auto simp: message_authorised_def)
qed

definition example_context :: turn_authority_context where
  "example_context =
    \<lparr>tc_runId = ''r1'', tc_agentId = ''ceo'', tc_allowedChannelIds = [''town''],
     tc_registeredAgentIds = [''ceo'', ''dev'', ''ops''], tc_addressableAgents = [(''dev'', [''town''])],
     tc_writableMemoryNamespaces = [''agents/ceo''], tc_waitableUserIds = [], tc_attachableArtifactIds = [],
     tc_toolPolicy = \<lparr>tl_allow = [''mattermost.*''], tl_requireHumanApproval = [], tl_deny = []\<rparr>\<rparr>"

definition example_message :: public_message where
  "example_message =
    \<lparr>pm_channelId = ''town'', pm_rootPostId = None, pm_markdown = ''please look, @Dev.'',
     pm_targetAgentIds = [''dev''], pm_attachments = []\<rparr>"

definition example_result :: agent_turn_result where
  "example_result =
    \<lparr>tr_runId = ''r1'', tr_publicMessages = [example_message], tr_nextState = NIdle,
     tr_publicSummary = \<lparr>ws_assigned = ''a'', ws_facts = [], ws_decisions = [], ws_done = [], ws_remaining = [],
       ws_waitingFor = [], ws_risks = []\<rparr>,
     tr_memoryProposals = [], tr_artifacts = [], tr_usage = None, tr_session = None\<rparr>"

theorem rendered_mentions_are_targets_witness:
  "set (mentionedNames (renderPostMessage (pm_targetAgentIds example_message) (pm_markdown example_message)))
    \<inter> set (knownAgentIds example_context) = set (pm_targetAgentIds example_message)"
proof (rule rendered_mentions_are_targets [of example_result])
  show "checkTurnResultAuthority example_result example_context = []" by code_simp
  show "example_message \<in> set (tr_publicMessages example_result)" by (simp add: example_result_def)
  show "list_all AgentIdSchema (pm_targetAgentIds example_message)" by code_simp
qed

end
