(* ===== verification/Outcome.thy ===== *)
theory Outcome
  imports Turn_Authority Waits
begin

text \<open>
  \<open>packages/core/src/outcome.ts\<close>: the scope a run's events establish, the check of a result against it,
  and the retry delay of a failed run. The random source of the delay is its argument, a rational in
  \<open>[0, 1)\<close>; \<open>Math.round\<close> is the floor of the value plus one half.

  The properties: the check is silent exactly when every reply goes to a thread of the run, in that
  thread's channel, and every wait to a correlation of the run; the retry delay lies between half its
  exponential base and the base, so between 3 seconds and 5 minutes.
\<close>

subsection \<open>The scope of a run\<close>

record thread_scope =
  tsc_channelId :: string
  tsc_correlationId :: string

record run_scope =
  rs_correlationIds :: "string list"
  rs_threadRoots :: "(string \<times> thread_scope) list"
  rs_maxHop :: nat

definition thread_root :: "mattermost_post_data \<Rightarrow> string" where
  "thread_root post = (case root_id post of None \<Rightarrow> post_id post | Some r \<Rightarrow> r)"

definition scopeEvent :: "gateway_event \<Rightarrow> run_scope \<Rightarrow> run_scope" where
  "scopeEvent e s =
    \<lparr>rs_correlationIds =
       (if ev_correlationid e \<in> set (rs_correlationIds s) then rs_correlationIds s
        else rs_correlationIds s @ [ev_correlationid e]),
     rs_threadRoots =
       (case mattermostPost e of
          None \<Rightarrow> rs_threadRoots s
        | Some post \<Rightarrow>
            AList.update (thread_root post)
              \<lparr>tsc_channelId = channel_id post, tsc_correlationId = ev_correlationid e\<rparr> (rs_threadRoots s)),
     rs_maxHop = max (rs_maxHop s) (ev_hop e)\<rparr>"

definition runScope :: "gateway_event list \<Rightarrow> run_scope" where
  "runScope events = fold scopeEvent events \<lparr>rs_correlationIds = [], rs_threadRoots = [], rs_maxHop = 0\<rparr>"

definition replyIssues :: "run_scope \<Rightarrow> nat \<Rightarrow> public_message \<Rightarrow> issue list" where
  "replyIssues scope i m =
    (case pm_rootPostId m of
       None \<Rightarrow> []
     | Some rt \<Rightarrow>
         (case map_of (rs_threadRoots scope) rt of
            None \<Rightarrow> [(''publicMessages.'' @ show_nat i @ ''.rootPostId'',
                      ''thread '' @ quoted rt @ '' is not part of this run'')]
          | Some t \<Rightarrow>
              if tsc_channelId t \<noteq> pm_channelId m
              then [(''publicMessages.'' @ show_nat i @ ''.channelId'',
                     ''thread '' @ quoted rt @ '' is in another channel'')]
              else []))"

definition waitScopeIssues :: "run_scope \<Rightarrow> nat \<Rightarrow> wait_condition \<Rightarrow> issue list" where
  "waitScopeIssues scope i w =
    (if startsWith (event_type_name (wc_eventType w)) ''approval.''
     then [(''nextState.waits.'' @ show_nat i @ ''.eventType'',
            ''approval waits are created by the Gateway; request approval with needs_human'')]
     else [])
    @ (if wc_correlationId w \<notin> set (rs_correlationIds scope)
       then [(''nextState.waits.'' @ show_nat i @ ''.correlationId'',
              ''correlation '' @ quoted (wc_correlationId w) @ '' is not part of this run'')]
       else [])"

definition checkRunScope :: "agent_turn_result \<Rightarrow> run_scope \<Rightarrow> issue list" where
  "checkRunScope result scope =
    forEach_issues 0 (replyIssues scope) (tr_publicMessages result)
    @ (case tr_nextState result of
         NWaiting waits \<Rightarrow> forEach_issues 0 (waitScopeIssues scope) waits
       | _ \<Rightarrow> [])"

subsection \<open>Retry delay\<close>

definition retry_base :: "int \<Rightarrow> int" where
  "retry_base attempt = min 300 (5 * 2 ^ nat (max 0 (attempt - 1)))"

definition runRetryDelaySeconds :: "int \<Rightarrow> rat \<Rightarrow> int" where
  "runRetryDelaySeconds attempt random =
    max 1 (\<lfloor>of_int (retry_base attempt) * (1 / 2 + random / 2) + 1 / 2\<rfloor>)"

subsection \<open>Specification\<close>

text \<open>The newest event of the run in the thread with this root.\<close>

definition in_thread :: "string \<Rightarrow> gateway_event \<Rightarrow> bool" where
  "in_thread rt e \<longleftrightarrow> (\<exists>post. mattermostPost e = Some post \<and> thread_root post = rt)"

definition reply_in_scope :: "gateway_event list \<Rightarrow> string \<Rightarrow> string \<Rightarrow> bool" where
  "reply_in_scope events rt channel \<longleftrightarrow>
    (\<exists>e post. find (in_thread rt) (rev events) = Some e \<and> mattermostPost e = Some post \<and>
      channel_id post = channel)"

subsection \<open>Library\<close>

lemma runScope_snoc: "runScope (events @ [e]) = scopeEvent e (runScope events)"
  by (simp add: runScope_def)

lemma runScope_correlations [simp]: "set (rs_correlationIds (runScope events)) = ev_correlationid ` set events"
  by (induction events rule: rev_induct) (auto simp: runScope_snoc scopeEvent_def, simp add: runScope_def)

lemma runScope_threads:
  "map_of (rs_threadRoots (runScope events)) rt =
    (case find (in_thread rt) (rev events) of
       None \<Rightarrow> None
     | Some e \<Rightarrow> map_option
         (\<lambda>post. \<lparr>tsc_channelId = channel_id post, tsc_correlationId = ev_correlationid e\<rparr>) (mattermostPost e))"
proof (induction events rule: rev_induct)
  case Nil
  then show ?case by (simp add: runScope_def)
next
  case (snoc e events)
  then show ?case
    by (cases "mattermostPost e") (auto simp: runScope_snoc scopeEvent_def in_thread_def jsmap.get_set)
qed

lemma runScope_maxHop: "rs_maxHop (runScope events) = Max (insert 0 (ev_hop ` set events))"
proof (induction events rule: rev_induct)
  case Nil
  then show ?case by (simp add: runScope_def)
next
  case (snoc e events)
  have "insert 0 (ev_hop ` set (events @ [e])) = insert (ev_hop e) (insert 0 (ev_hop ` set events))" by auto
  then show ?case by (simp only: Max_insert) (simp add: snoc runScope_snoc scopeEvent_def max.commute)
qed

lemma replyIssues_iff [issue_iff]:
  "replyIssues (runScope events) i m = [] \<longleftrightarrow>
    (\<forall>rt. pm_rootPostId m = Some rt \<longrightarrow> reply_in_scope events rt (pm_channelId m))"
proof (cases "pm_rootPostId m")
  case (Some rt)
  show ?thesis
  proof (cases "find (in_thread rt) (rev events)")
    case None
    then show ?thesis by (simp add: replyIssues_def Some runScope_threads reply_in_scope_def)
  next
    case (Some e)
    then have "in_thread rt e" by (rule find_SomeD [THEN conjunct1])
    then obtain post where "mattermostPost e = Some post" by (auto simp: in_thread_def)
    with Some \<open>pm_rootPostId m = Some rt\<close> show ?thesis
      by (simp add: replyIssues_def runScope_threads reply_in_scope_def)
  qed
qed (simp add: replyIssues_def)

lemma waitScopeIssues_iff [issue_iff]:
  "waitScopeIssues (runScope events) i w = [] \<longleftrightarrow>
    \<not> startsWith (event_type_name (wc_eventType w)) ''approval.'' \<and>
    wc_correlationId w \<in> ev_correlationid ` set events"
  by (auto simp: waitScopeIssues_def)

lemma checkRunScope_iff:
  "checkRunScope result (runScope events) = [] \<longleftrightarrow>
    (\<forall>m \<in> set (tr_publicMessages result).
      \<forall>rt. pm_rootPostId m = Some rt \<longrightarrow> reply_in_scope events rt (pm_channelId m)) \<and>
    (\<forall>waits. tr_nextState result = NWaiting waits \<longrightarrow>
      (\<forall>w \<in> set waits. \<not> startsWith (event_type_name (wc_eventType w)) ''approval.'' \<and>
        wc_correlationId w \<in> ev_correlationid ` set events))"
  by (auto simp: checkRunScope_def forEach_issues_Nil_iff [OF replyIssues_iff]
      forEach_issues_Nil_iff [OF waitScopeIssues_iff] split: next_state.splits)

lemma retry_base_range: "5 \<le> retry_base attempt \<and> retry_base attempt \<le> 300"
  by (simp add: retry_base_def)

lemma retry_delay_half:
  assumes "0 \<le> random" "random < 1"
  shows "retry_base attempt \<le> 2 * runRetryDelaySeconds attempt random \<and>
    runRetryDelaySeconds attempt random \<le> retry_base attempt"
proof -
  let ?b = "of_int (retry_base attempt) :: rat"
  let ?x = "?b * (1 / 2 + random / 2) + 1 / 2"
  have b: "0 \<le> ?b" using retry_base_range [of attempt] by simp
  have "?b * (1 / 2) \<le> ?b * (1 / 2 + random / 2)" using b assms by (intro mult_left_mono) auto
  then have lo: "?b / 2 + 1 / 2 \<le> ?x" by simp
  have "?b * (1 / 2 + random / 2) \<le> ?b * 1" using b assms by (intro mult_left_mono) auto
  then have hi: "?x < ?b + 1" by simp
  have "retry_base attempt \<le> 2 * \<lfloor>?x\<rfloor>"
    using lo by linarith
  moreover have "\<lfloor>?x\<rfloor> \<le> retry_base attempt" using hi by linarith
  ultimately show ?thesis
    using retry_base_range [of attempt] by (auto simp: runRetryDelaySeconds_def)
qed

subsection \<open>Properties\<close>

text \<open>A result stays in the conversations of its run exactly when the scope check is silent: every
  reply goes to a thread of the run's own events, in the channel of the newest of them, every wait is on
  a correlation of those events, and no wait is on an approval event.\<close>

theorem run_scope_exact:
  "checkRunScope result (runScope events) = [] \<longleftrightarrow>
    (\<forall>m \<in> set (tr_publicMessages result).
      \<forall>rt. pm_rootPostId m = Some rt \<longrightarrow> reply_in_scope events rt (pm_channelId m)) \<and>
    (\<forall>waits. tr_nextState result = NWaiting waits \<longrightarrow>
      (\<forall>w \<in> set waits. \<not> startsWith (event_type_name (wc_eventType w)) ''approval.'' \<and>
        wc_correlationId w \<in> ev_correlationid ` set events))"
  by (rule checkRunScope_iff)

definition example_reply_result :: agent_turn_result where
  "example_reply_result = example_result
    \<lparr>tr_publicMessages := [example_message
       \<lparr>pm_channelId := ''c0000000000000000000000001'', pm_rootPostId := Some ''p0000000000000000000000001''\<rparr>]\<rparr>"

text \<open>The retry delay of a failed run lies between half of its exponential base and the base,
  whatever the random source draws: at least 3 seconds, at most 5 minutes; and 3 seconds do occur.\<close>

theorem retry_delay_bounds:
  assumes "0 \<le> random" and "random < 1"
  shows "retry_base attempt \<le> 2 * runRetryDelaySeconds attempt random \<and>
    runRetryDelaySeconds attempt random \<le> retry_base attempt \<and>
    3 \<le> runRetryDelaySeconds attempt random \<and> runRetryDelaySeconds attempt random \<le> 300 \<and>
    runRetryDelaySeconds 1 0 = 3"
proof -
  have "runRetryDelaySeconds 1 0 = 3" by (simp add: runRetryDelaySeconds_def retry_base_def floor_eq_iff)
  with retry_delay_half [OF assms, of attempt] retry_base_range [of attempt] show ?thesis by linarith
qed

end
