(* ===== verification/Gateway_Store.thy ===== *)
theory Gateway_Store
  imports Routing Channel_Access Outcome Budget Approval_Code
begin

text \<open>
  The durable state of the control plane and the store it is reached through: the tables of
  \<open>packages/db/src/schema.ts\<close> the use cases read and write, and \<open>packages/core/src/services/store.ts\<close>.

  A table is the list of its rows in insertion order. A transaction runs alone on the state (the use
  cases lock what they touch), so an operation maps a state to a state, an operation that may throw
  returns \<open>Inl\<close>, and a transaction that throws leaves the state as it was (\<open>withTransaction\<close>). Advisory
  and row locks have no effect on a state and are not written. Log lines and the trace context columns
  are diagnostic and left out. An instant is its milliseconds; a generated id is drawn from the
  sequence \<open>u_uuid\<close> (\<open>gen_random_uuid\<close>, \<open>randomUUID\<close> and the job ids of pg-boss), a \<open>bigserial\<close> from its
  own counter.

  The lemmas say what an operation leaves alone (\<open>side_effect\<close>: agents, runs, inbox, waits, events,
  routes, usage ledger) and that an outbox item is written once per idempotency key.
\<close>

subsection \<open>Rows\<close>

datatype session_policy = StatelessSession | ResumableIfAvailable

datatype while_running = Enqueue | EnqueueAndCoalesce

record agent_config =
  cfg_adapter :: runtime_adapter_id
  cfg_model :: "string option"
  cfg_timeout_seconds :: nat
  cfg_session_policy :: session_policy
  cfg_while_running :: while_running
  cfg_private_namespace :: string
  cfg_shared_namespaces :: "string list"
  cfg_allowed_channels :: "string list"
  cfg_wake_rules :: "wake_rule list"

record agent_row =
  ag_id :: string
  ag_state :: agent_state
  ag_enabled :: bool
  ag_configVersion :: string
  ag_config :: agent_config
  ag_stateChangedAt :: millis

datatype run_status = RQueued | RRunning | RSucceeded | RFailed | RCancelled

datatype run_outcome = OIdle | OWaiting | ONeedsHuman | OFailed

record run_row =
  rn_id :: string
  rn_agentId :: string
  rn_triggerEventId :: string
  rn_idempotencyKey :: string
  rn_status :: run_status
  rn_attempt :: nat
  rn_maxAttempts :: nat
  rn_runtimeAdapter :: runtime_adapter_id
  rn_runtimeVersion :: "string option"
  rn_model :: "string option"
  rn_correlationId :: string
  rn_hop :: nat
  rn_queuedAt :: millis
  rn_startedAt :: "millis option"
  rn_finishedAt :: "millis option"
  rn_timeoutAt :: millis
  rn_timeoutSeconds :: nat
  rn_outcome :: "run_outcome option"
  rn_errorCode :: "string option"
  rn_errorDetail :: "string option"
  rn_usage :: "runtime_usage option"
  rn_publicSummary :: "working_summary option"
  rn_result :: "agent_turn_result option"
  rn_parentRunId :: "string option"
  rn_jobId :: "string option"

datatype inbox_status = IPending | IClaimed | IConsumed | IDead

record inbox_row =
  ib_id :: string
  ib_agentId :: string
  ib_eventId :: string
  ib_status :: inbox_status
  ib_priority :: nat
  ib_runId :: "string option"
  ib_waitId :: "string option"
  ib_createdAt :: millis

datatype wait_status = WActive | WMatched | WTimedOut | WCancelled

record wait_row =
  wt_id :: string
  wt_agentId :: string
  wt_createdByRunId :: string
  wt_status :: wait_status
  wt_correlationId :: string
  wt_condition :: wait_condition
  wt_threadRootIds :: "string list option"
  wt_timeoutAt :: millis
  wt_matchedEventId :: "string option"
  wt_createdAt :: millis
  wt_resolvedAt :: "millis option"

text \<open>A stored event keeps its envelope; \<open>toGatewayEvent\<close> rebuilds it.\<close>

record event_row =
  er_id :: string
  er_seq :: nat
  er_event :: gateway_event
  er_payloadHash :: string
  er_contentHash :: "string option"
  er_senderAgentId :: "string option"
  er_receivedAt :: millis
  er_contentExpired :: bool

record route_row =
  ro_eventId :: string
  ro_agentId :: string
  ro_decision :: route_decision
  ro_reasonCode :: string
  ro_waitId :: "string option"
  ro_cascadeAnchor :: "nat option"
  ro_createdAt :: millis

record turn_input =
  ti_trigger :: gateway_event
  ti_pendingInbox :: "gateway_event list"
  ti_channels :: "string list"
  ti_deadline :: millis
  ti_rest :: json

record snapshot_row =
  sn_runId :: string
  sn_agentId :: string
  sn_configVersion :: string
  sn_threadRef :: "string option"
  sn_input :: turn_input
  sn_authority :: turn_authority_context
  sn_sizeBytes :: nat

record session_row =
  se_agentId :: string
  se_adapter :: runtime_adapter_id
  se_providerSessionRef :: string
  se_runtimeVersion :: string
  se_scope :: string
  se_lastUsedAt :: millis
  se_expiresAt :: "millis option"
  se_active :: bool

datatype memory_status = MProposed | MAccepted | MRejected | MSuperseded

record memory_row =
  me_namespace :: string
  me_key :: string
  me_content :: string
  me_sourceEventId :: string
  me_sourceRunId :: string
  me_status :: memory_status
  me_visibility :: visibility
  me_createdAt :: millis
  me_supersededAt :: "millis option"

record artifact_row =
  at_id :: string
  at_runId :: string
  at_agentId :: string
  at_artifact :: artifact_descriptor
  at_createdAt :: millis

datatype policy_verdict = PAllow | PDeny | PRequireApproval

record decision_row =
  pd_runId :: string
  pd_agentId :: string
  pd_action :: string
  pd_decision :: policy_verdict
  pd_reason :: string
  pd_createdAt :: millis

datatype approval_status = APending | AGranted | ADenied | AExpired | ACancelled

record approval_row =
  aq_id :: string
  aq_requestedByAgentId :: string
  aq_runId :: string
  aq_actionType :: string
  aq_actionParams :: "action_param list"
  aq_immutableActionHash :: string
  aq_actionSummary :: string
  aq_riskLevel :: risk_level
  aq_status :: approval_status
  aq_allowedApproverUserIds :: "string list"
  aq_nonce :: string
  aq_createdAt :: millis
  aq_expiresAt :: millis
  aq_decidedByUserId :: "string option"
  aq_decidedAt :: "millis option"
  aq_decisionPostId :: "string option"
  aq_resolvedAt :: "millis option"

datatype tool_action_status = TQueued | TRunning | TSucceeded | TFailed | TUnknown | TCancelled

record tool_action_row =
  ta_id :: string
  ta_approvalId :: string
  ta_agentId :: string
  ta_namespace :: string
  ta_actionType :: string
  ta_actionParams :: "action_param list"
  ta_immutableActionHash :: string
  ta_idempotencyKey :: string
  ta_status :: tool_action_status
  ta_attempt :: nat
  ta_configVersion :: string
  ta_deadlineAt :: millis
  ta_cancelRequestedAt :: "millis option"
  ta_startedAt :: "millis option"
  ta_completedAt :: "millis option"
  ta_receipt :: "(string \<times> json) list option"
  ta_errorRedacted :: "string option"
  ta_createdAt :: millis

datatype approval_notice =
    NGranted | NDenied | NRefused | NNotAnApprover | NMalformed | NWrongCode | NAlreadyDecided | NExpired
  | NWithdrawn | NExecuted

datatype approval_outcome = ApDenied | ApExpired | ApCancelled | ApSucceeded | ApFailed | ApUnknown

record reply_row =
  ay_postId :: string
  ay_approvalId :: string
  ay_userId :: string
  ay_notice :: approval_notice
  ay_createdAt :: millis

subsection \<open>Outbox, jobs, audit\<close>

record post_payload =
  pp_agentId :: string
  pp_runId :: string
  pp_channelId :: string
  pp_rootPostId :: "string option"
  pp_message :: string
  pp_targetAgentIds :: "string list"
  pp_attachmentArtifactIds :: "string list"
  pp_correlationId :: string
  pp_hop :: nat

record alert_payload =
  al_channelName :: "string option"
  al_channelId :: "string option"
  al_message :: string
  al_detail :: "(string \<times> json) list"

record approval_card =
  cd_approvalId :: string
  cd_channelName :: string
  cd_channelId :: "string option"
  cd_requestedByAgentId :: string
  cd_actionType :: string
  cd_actionSummary :: string
  cd_actionParams :: "action_param list"
  cd_riskLevel :: risk_level
  cd_immutableActionHash :: string
  cd_expiresAt :: millis
  cd_approvalCode :: string
  cd_customRequestPreview :: "string option"

record approval_reply_payload =
  ar_approvalId :: string
  ar_channelId :: string
  ar_rootPostId :: string
  ar_notice :: approval_notice
  ar_userId :: "string option"
  ar_outcome :: "approval_outcome option"
  ar_receipt :: "(string \<times> json) list option"
  ar_detail :: "string option"

datatype outbox_payload =
    MattermostPost post_payload
  | MattermostAlert alert_payload
  | MattermostApproval approval_card
  | MattermostApprovalReply approval_reply_payload

datatype outbox_status = OPending | OSending | OSent | ODead | OCancelled

record outbox_row =
  ox_id :: string
  ox_destination :: string
  ox_payload :: outbox_payload
  ox_idempotencyKey :: string
  ox_status :: outbox_status
  ox_attempts :: nat
  ox_maxAttempts :: nat
  ox_nextAttemptAt :: millis
  ox_lockedUntil :: "millis option"
  ox_lastErrorRedacted :: "string option"
  ox_receipt :: "json option"
  ox_runId :: "string option"
  ox_createdAt :: millis
  ox_sentAt :: "millis option"
  ox_contentExpired :: bool

record run_runtime =
  rr_model :: "string option"
  rr_sessionPolicy :: session_policy
  rr_session :: "session_handle option"

record tool_action_job =
  tj_actionId :: string
  tj_approvalId :: string
  tj_attempt :: nat
  tj_agentId :: string
  tj_actionType :: string
  tj_actionParams :: "action_param list"
  tj_immutableActionHash :: string
  tj_deadline :: millis

datatype job =
    RunJob runtime_adapter_id string nat nat run_runtime turn_input "millis option" nat
  | AgentTimeoutJob string nat millis
  | WaitTimeoutJob string millis
  | OutboxDeliverJob string
  | ToolExecuteJob string tool_action_job int

record audit_row =
  au_at :: millis
  au_actor :: string
  au_action :: string
  au_subjectType :: string
  au_subjectId :: string
  au_detail :: "(string \<times> json) list"

subsection \<open>Configuration and identity\<close>

record active_config =
  ac_version :: string
  ac_team :: string
  ac_alerts_channel :: string
  ac_approvals_channel :: string
  ac_owner_usernames :: "string list"
  ac_finance_agent_id :: string
  ac_limits :: organization_limits
  ac_budgets :: "organization_budgets option"

datatype directory_kind = DChannel | DUser | DTeam

record directory_row =
  dy_kind :: directory_kind
  dy_name :: string
  dy_mattermostId :: string

record grant_row =
  gr_agentId :: string
  gr_channelId :: string
  gr_teamId :: string
  gr_channelName :: string
  gr_botUserId :: string
  gr_active :: bool
  gr_sinceMs :: millis
  gr_grantedAt :: millis
  gr_revokedAt :: "millis option"

datatype lifecycle_status = LPending | LReconciling | LReady | LFailed | LRetiring | LRetired

record thread_summary_entry =
  te_runId :: string
  te_agentId :: string
  te_at :: millis
  te_assigned :: string
  te_facts :: "string list"
  te_done :: "string list"
  te_decisions :: "string list"
  te_remaining :: "string list"
  te_waitingFor :: "string list"
  te_risks :: "string list"

record thread_summary =
  ts_entries :: "thread_summary_entry list"
  ts_decisions :: "string list"
  ts_done :: "string list"
  ts_compactedRuns :: nat

subsection \<open>The state and the unit of work\<close>

record gateway =
  gw_agents :: "agent_row list"
  gw_runs :: "run_row list"
  gw_inbox :: "inbox_row list"
  gw_waits :: "wait_row list"
  gw_events :: "event_row list"
  gw_routes :: "route_row list"
  gw_usage :: "usage_row list"
  gw_snapshots :: "snapshot_row list"
  gw_sessions :: "session_row list"
  gw_memory :: "memory_row list"
  gw_artifacts :: "artifact_row list"
  gw_decisions :: "decision_row list"
  gw_approvals :: "approval_row list"
  gw_toolActions :: "tool_action_row list"
  gw_replies :: "reply_row list"
  gw_summaries :: "((string \<times> string) \<times> thread_summary) list"
  gw_outbox :: "outbox_row list"
  gw_jobs :: "(string \<times> job) list"
  gw_audit :: "audit_row list"
  gw_config :: "active_config option"
  gw_killSwitch :: bool
  gw_directory :: "directory_row list"
  gw_identities :: "(string \<times> string option) list"
  gw_grants :: "grant_row list"
  gw_lifecycle :: "(string \<times> lifecycle_status) list"
  gw_availability :: "(runtime_adapter_id \<times> bool) list"
  gw_ids :: nat
  gw_seq :: nat

record uow =
  u_now :: millis
  u_uuid :: "nat \<Rightarrow> string"
  u_nonce :: string
  u_random :: rat
  u_redact :: "string \<Rightarrow> string"
  u_uuid_ok :: "string \<Rightarrow> bool"
  u_sha256Hex :: "string \<Rightarrow> string"
  u_digest :: "string \<Rightarrow> 8 word list"
  u_normalizeMessage :: "string \<Rightarrow> string"
  u_budget_text :: "budget_reason \<Rightarrow> string"

datatype gateway_error =
    TransitionRefused transition_error
  | NoSnapshot string
  | NoActiveConfig
  | UniqueViolation string
  | AdminError string
  | ReservedEvent gateway_event_type
  | EventNotFound string
  | ApprovalCardPending string
  | ToolActionError string

type_synonym 'a uow_result = "gateway_error + ('a \<times> gateway)"

text \<open>\<open>withTransaction\<close>: what is thrown undoes every write.\<close>

definition withTransaction :: "'a uow_result \<Rightarrow> gateway \<Rightarrow> (gateway_error + 'a) \<times> gateway" where
  "withTransaction r s = (case r of Inl e \<Rightarrow> (Inl e, s) | Inr (x, s') \<Rightarrow> (Inr x, s'))"

definition fresh_id :: "uow \<Rightarrow> gateway \<Rightarrow> string" where
  "fresh_id u s = u_uuid u (gw_ids s)"

definition update_where :: "('r \<Rightarrow> bool) \<Rightarrow> ('r \<Rightarrow> 'r) \<Rightarrow> 'r list \<Rightarrow> 'r list" where
  "update_where P f rows = map (\<lambda>r. if P r then f r else r) rows"

subsection \<open>Lookups\<close>

definition loadActiveConfig :: "gateway \<Rightarrow> active_config option" where
  "loadActiveConfig s = gw_config s"

definition isKillSwitchOn :: "gateway \<Rightarrow> bool" where
  "isKillSwitchOn s = gw_killSwitch s"

definition lockAgent :: "gateway \<Rightarrow> string \<Rightarrow> agent_row option" where
  "lockAgent s agentId = find (\<lambda>a. ag_id a = agentId) (gw_agents s)"

definition loadAgents :: "gateway \<Rightarrow> agent_row list" where
  "loadAgents s = sort_key ag_id (gw_agents s)"

definition loadAgentLifecycleStatus :: "gateway \<Rightarrow> string \<Rightarrow> lifecycle_status option" where
  "loadAgentLifecycleStatus s agentId = map_of (gw_lifecycle s) agentId"

definition find_run :: "gateway \<Rightarrow> string \<Rightarrow> run_row option" where
  "find_run s runId = find (\<lambda>r. rn_id r = runId) (gw_runs s)"

definition find_event :: "gateway \<Rightarrow> string \<Rightarrow> event_row option" where
  "find_event s eventId = find (\<lambda>e. er_id e = eventId) (gw_events s)"

definition find_snapshot :: "gateway \<Rightarrow> string \<Rightarrow> snapshot_row option" where
  "find_snapshot s runId = find (\<lambda>n. sn_runId n = runId) (gw_snapshots s)"

definition loadDirectory :: "gateway \<Rightarrow> directory_kind \<Rightarrow> (string \<times> string) list" where
  "loadDirectory s kind =
    js_map (map (\<lambda>r. (dy_name r, dy_mattermostId r)) (filter (\<lambda>r. dy_kind r = kind) (gw_directory s)))"

definition loadTeamChannels :: "gateway \<Rightarrow> (string \<times> string) list" where
  "loadTeamChannels s =
    (case loadActiveConfig s of
       None \<Rightarrow> []
     | Some config \<Rightarrow>
         if map_of (loadDirectory s DTeam) (ac_team config) \<noteq> None then loadDirectory s DChannel else [])"

text \<open>The grant rows that count: joined with the agent and its bot, ordered by agent and channel.\<close>

definition grant_counts :: "gateway \<Rightarrow> active_config \<Rightarrow> string \<Rightarrow> grant_row \<Rightarrow> bool" where
  "grant_counts s config teamId g \<longleftrightarrow>
    (case lockAgent s (gr_agentId g) of
       None \<Rightarrow> False | Some a \<Rightarrow> ag_configVersion a = ac_version config) \<and>
    map_of (gw_identities s) (gr_agentId g) = Some (Some (gr_botUserId g)) \<and>
    gr_active g \<and> gr_teamId g = teamId"

definition to_channel_grant :: "grant_row \<Rightarrow> channel_grant" where
  "to_channel_grant g =
    \<lparr>grant_channelId = gr_channelId g, grant_name = gr_channelName g, grant_sinceMs = gr_sinceMs g,
     grant_recordedMs = gr_grantedAt g\<rparr>"

definition loadChannelAccess :: "gateway \<Rightarrow> channel_access" where
  "loadChannelAccess s =
    (let named_channels = loadTeamChannels s in
     case loadActiveConfig s of
       None \<Rightarrow> \<lparr>named = named_channels, granted_to = []\<rparr>
     | Some config \<Rightarrow>
         (case map_of (loadDirectory s DTeam) (ac_team config) of
            None \<Rightarrow> \<lparr>named = named_channels, granted_to = []\<rparr>
          | Some teamId \<Rightarrow>
              let rows = sort_key gr_agentId (sort_key gr_channelId
                (filter (grant_counts s config teamId) (gw_grants s))) in
              \<lparr>named = named_channels,
               granted_to = fold (\<lambda>g m.
                 AList.update (gr_agentId g)
                   ((case map_of m (gr_agentId g) of None \<Rightarrow> [] | Some l \<Rightarrow> l) @ [to_channel_grant g]) m)
                 rows []\<rparr>))"

definition loadOwnerUserIds :: "gateway \<Rightarrow> string list" where
  "loadOwnerUserIds s =
    (let users = loadDirectory s DUser;
         names = (case loadActiveConfig s of None \<Rightarrow> [] | Some c \<Rightarrow> ac_owner_usernames c) in
     js_set (concat (map (\<lambda>name. case map_of users name of None \<Rightarrow> [] | Some i \<Rightarrow> [i]) names)))"

definition agent_channels_of :: "agent_row \<Rightarrow> agent_channels" where
  "agent_channels_of a = \<lparr>ac_id = ag_id a, ac_allowed_channels = cfg_allowed_channels (ag_config a)\<rparr>"

definition toRoutingAgent :: "agent_row \<Rightarrow> channel_access \<Rightarrow> routing_agent" where
  "toRoutingAgent a access =
    \<lparr>ra_id = ag_id a, ra_state = ag_state a, ra_wakeRules = cfg_wake_rules (ag_config a),
     ra_channelIds = agentChannelIds (agent_channels_of a) access,
     ra_channelFloors = agentChannelFloors (agent_channels_of a) access\<rparr>"

subsection \<open>Writes\<close>

definition audit ::
    "uow \<Rightarrow> string \<Rightarrow> string \<Rightarrow> string \<Rightarrow> string \<Rightarrow> (string \<times> json) list \<Rightarrow> gateway \<Rightarrow> gateway" where
  "audit u actor action subjectType subjectId detail s =
    s\<lparr>gw_audit := gw_audit s @
      [\<lparr>au_at = u_now u, au_actor = actor, au_action = action, au_subjectType = subjectType,
        au_subjectId = subjectId, au_detail = detail\<rparr>]\<rparr>"

fun agent_state_name :: "agent_state \<Rightarrow> string" where
  "agent_state_name Disabled = ''disabled''"
| "agent_state_name Idle = ''idle''"
| "agent_state_name Queued = ''queued''"
| "agent_state_name Running = ''running''"
| "agent_state_name Waiting = ''waiting''"
| "agent_state_name Failed = ''failed''"
| "agent_state_name Paused = ''paused''"

definition setAgentState ::
    "uow \<Rightarrow> string \<Rightarrow> agent_state \<Rightarrow> agent_state \<Rightarrow> string \<Rightarrow> gateway \<Rightarrow> gateway" where
  "setAgentState u agentId src dst reason s =
    (if src = dst then s
     else audit u ''system'' ''agent.state'' ''agent'' agentId
       [(''from'', JStr (agent_state_name src)), (''to'', JStr (agent_state_name dst)), (''reason'', JStr reason)]
       (s\<lparr>gw_agents := update_where (\<lambda>a. ag_id a = agentId)
            (\<lambda>a. a\<lparr>ag_state := dst, ag_enabled := (dst \<noteq> Disabled), ag_stateChangedAt := u_now u\<rparr>)
            (gw_agents s)\<rparr>))"

definition send_job :: "uow \<Rightarrow> job \<Rightarrow> gateway \<Rightarrow> gateway" where
  "send_job u j s = s\<lparr>gw_jobs := gw_jobs s @ [(fresh_id u s, j)], gw_ids := Suc (gw_ids s)\<rparr>"

text \<open>\<open>insert into outbox ... on conflict (idempotency_key) do nothing\<close>, then its delivery job.\<close>

definition enqueueOutbox ::
    "uow \<Rightarrow> string \<Rightarrow> outbox_payload \<Rightarrow> string \<Rightarrow> string option \<Rightarrow> gateway \<Rightarrow> gateway" where
  "enqueueOutbox u destination payload idempotencyKey runId s =
    (if list_ex (\<lambda>o'. ox_idempotencyKey o' = idempotencyKey) (gw_outbox s) then s
     else
       let i = fresh_id u s;
           item = \<lparr>ox_id = i, ox_destination = destination, ox_payload = payload,
             ox_idempotencyKey = idempotencyKey, ox_status = OPending, ox_attempts = 0, ox_maxAttempts = 8,
             ox_nextAttemptAt = u_now u, ox_lockedUntil = None, ox_lastErrorRedacted = None,
             ox_receipt = None, ox_runId = runId, ox_createdAt = u_now u, ox_sentAt = None, ox_contentExpired = False\<rparr>
       in send_job u (OutboxDeliverJob i)
            (s\<lparr>gw_outbox := gw_outbox s @ [item], gw_ids := Suc (gw_ids s)\<rparr>))"

definition postAlert :: "uow \<Rightarrow> string \<Rightarrow> string \<Rightarrow> (string \<times> json) list \<Rightarrow> gateway \<Rightarrow> gateway" where
  "postAlert u idempotencyKey msg detail s =
    (let channelName = map_option ac_alerts_channel (loadActiveConfig s);
         payload = \<lparr>al_channelName = channelName,
           al_channelId = Option.bind channelName (map_of (loadTeamChannels s)),
           al_message = msg, al_detail = detail\<rparr>
     in enqueueOutbox u
          (''channel/'' @ (case channelName of None \<Rightarrow> ''unconfigured'' | Some n \<Rightarrow> n))
          (MattermostAlert payload) idempotencyKey None s)"

definition raiseAlert :: "uow \<Rightarrow> string \<Rightarrow> string \<Rightarrow> (string \<times> json) list \<Rightarrow> gateway \<Rightarrow> gateway" where
  "raiseAlert u key msg detail s = postAlert u (''alert:'' @ key) msg detail s"

subsection \<open>What the writes leave alone\<close>

text \<open>The agent posts of the outbox: what agents say, as opposed to alerts and cards.\<close>

fun agent_post :: "outbox_payload \<Rightarrow> post_payload option" where
  "agent_post (MattermostPost p) = Some p"
| "agent_post _ = None"

definition agent_posts :: "gateway \<Rightarrow> post_payload list" where
  "agent_posts s = List.map_filter agent_post (map ox_payload (gw_outbox s))"

text \<open>The record of what humans decided and what was done about it.\<close>

definition decision_log :: "gateway \<Rightarrow> approval_row list \<times> tool_action_row list \<times> reply_row list" where
  "decision_log s = (gw_approvals s, gw_toolActions s, gw_replies s)"

lemma decision_log_update [simp]:
  "decision_log (s\<lparr>gw_agents := x0\<rparr>) = decision_log s"
  "decision_log (s\<lparr>gw_runs := x1\<rparr>) = decision_log s"
  "decision_log (s\<lparr>gw_inbox := x2\<rparr>) = decision_log s"
  "decision_log (s\<lparr>gw_waits := x3\<rparr>) = decision_log s"
  "decision_log (s\<lparr>gw_events := x4\<rparr>) = decision_log s"
  "decision_log (s\<lparr>gw_routes := x5\<rparr>) = decision_log s"
  "decision_log (s\<lparr>gw_usage := x6\<rparr>) = decision_log s"
  "decision_log (s\<lparr>gw_snapshots := x7\<rparr>) = decision_log s"
  "decision_log (s\<lparr>gw_sessions := x8\<rparr>) = decision_log s"
  "decision_log (s\<lparr>gw_memory := x9\<rparr>) = decision_log s"
  "decision_log (s\<lparr>gw_artifacts := x10\<rparr>) = decision_log s"
  "decision_log (s\<lparr>gw_decisions := x11\<rparr>) = decision_log s"
  "decision_log (s\<lparr>gw_summaries := x12\<rparr>) = decision_log s"
  "decision_log (s\<lparr>gw_outbox := x13\<rparr>) = decision_log s"
  "decision_log (s\<lparr>gw_jobs := x14\<rparr>) = decision_log s"
  "decision_log (s\<lparr>gw_audit := x15\<rparr>) = decision_log s"
  "decision_log (s\<lparr>gw_config := x16\<rparr>) = decision_log s"
  "decision_log (s\<lparr>gw_killSwitch := x17\<rparr>) = decision_log s"
  "decision_log (s\<lparr>gw_directory := x18\<rparr>) = decision_log s"
  "decision_log (s\<lparr>gw_identities := x19\<rparr>) = decision_log s"
  "decision_log (s\<lparr>gw_grants := x20\<rparr>) = decision_log s"
  "decision_log (s\<lparr>gw_lifecycle := x21\<rparr>) = decision_log s"
  "decision_log (s\<lparr>gw_availability := x22\<rparr>) = decision_log s"
  "decision_log (s\<lparr>gw_ids := x23\<rparr>) = decision_log s"
  "decision_log (s\<lparr>gw_seq := x24\<rparr>) = decision_log s"
  by (simp_all add: decision_log_def)

lemma decision_logD:
  "decision_log s' = decision_log s \<Longrightarrow> gw_approvals s' = gw_approvals s"
  "decision_log s' = decision_log s \<Longrightarrow> gw_toolActions s' = gw_toolActions s"
  "decision_log s' = decision_log s \<Longrightarrow> gw_replies s' = gw_replies s"
  by (simp_all add: decision_log_def)

text \<open>New outbox items are undelivered and have a key of their own.\<close>

definition fresh_item :: "outbox_row \<Rightarrow> bool" where
  "fresh_item x \<longleftrightarrow> ox_status x = OPending \<and> ox_attempts x = 0 \<and> 0 < ox_maxAttempts x \<and> ox_receipt x = None"

definition outbox_grows :: "gateway \<Rightarrow> gateway \<Rightarrow> bool" where
  "outbox_grows s s' \<longleftrightarrow>
    (\<exists>items. gw_outbox s' = gw_outbox s @ items \<and> (\<forall>x \<in> set items. fresh_item x) \<and>
      (distinct (map ox_idempotencyKey (gw_outbox s)) \<longrightarrow> distinct (map ox_idempotencyKey (gw_outbox s'))))"

lemma outbox_grows_same: "gw_outbox s' = gw_outbox s \<Longrightarrow> outbox_grows s s'"
  by (simp add: outbox_grows_def)

lemma outbox_grows_trans: "outbox_grows s t \<Longrightarrow> outbox_grows t v \<Longrightarrow> outbox_grows s v"
  by (fastforce simp: outbox_grows_def)

text \<open>An operation that leaves agents, runs, inbox and usage alone.\<close>

locale core_effect =
  fixes f :: "gateway \<Rightarrow> gateway"
  assumes agents [simp]: "gw_agents (f s) = gw_agents s"
    and runs [simp]: "gw_runs (f s) = gw_runs s"
    and inbox [simp]: "gw_inbox (f s) = gw_inbox s"
    and lifecycle [simp]: "gw_lifecycle (f s) = gw_lifecycle s"
    and config [simp]: "gw_config (f s) = gw_config s"
    and usage [simp]: "gw_usage (f s) = gw_usage s"
    and ids_mono [simp]: "gw_ids s \<le> gw_ids (f s)"
begin

lemma core_lookups [simp]:
  "lockAgent (f s) i = lockAgent s i" "find_run (f s) i = find_run s i"
  "loadActiveConfig (f s) = loadActiveConfig s" "loadAgentLifecycleStatus (f s) i = loadAgentLifecycleStatus s i"
  by (simp_all add: lockAgent_def find_run_def loadActiveConfig_def loadAgentLifecycleStatus_def)

end

text \<open>A side effect leaves the waits, events, routes and snapshots alone as well.\<close>

locale side_effect = core_effect +
  assumes waits [simp]: "gw_waits (f s) = gw_waits s"
    and events [simp]: "gw_events (f s) = gw_events s"
    and routes [simp]: "gw_routes (f s) = gw_routes s"
    and snapshots [simp]: "gw_snapshots (f s) = gw_snapshots s"
    and decisions [simp]: "decision_log (f s) = decision_log s"
    and outbox_kept [simp]: "outbox_grows s (f s)"
begin

lemma lookups [simp]:
  "find_event (f s) i = find_event s i" "find_snapshot (f s) i = find_snapshot s i"
  by (simp_all add: find_event_def find_snapshot_def)

end

text \<open>A quiet side effect publishes nothing in an agent's name.\<close>

locale quiet_effect = side_effect +
  assumes posts [simp]: "agent_posts (f s) = agent_posts s"

interpretation audit_fx: quiet_effect "audit u actor action subjectType subjectId detail"
  for u actor action subjectType subjectId detail
  by unfold_locales (simp_all add: audit_def agent_posts_def outbox_grows_same)

interpretation job_fx: quiet_effect "send_job u j" for u j
  by unfold_locales (simp_all add: send_job_def agent_posts_def outbox_grows_same)

interpretation outbox_fx: side_effect "enqueueOutbox u destination payload key runId"
  for u destination payload key runId
  by unfold_locales
    (auto simp: enqueueOutbox_def send_job_def Let_def outbox_grows_def fresh_item_def list_ex_iff)

lemma map_filter_append [simp]: "List.map_filter f (xs @ ys) = List.map_filter f xs @ List.map_filter f ys"
  by (simp add: List.map_filter_def)

lemma outbox_send_job [simp]: "gw_outbox (send_job u j s) = gw_outbox s"
  by (simp add: send_job_def)

lemma agent_posts_enqueueOutbox:
  "agent_posts (enqueueOutbox u destination payload key runId s) =
    agent_posts s @
      (if list_ex (\<lambda>o'. ox_idempotencyKey o' = key) (gw_outbox s) then []
       else case agent_post payload of None \<Rightarrow> [] | Some p \<Rightarrow> [p])"
  by (simp add: agent_posts_def enqueueOutbox_def Let_def List.map_filter_def split: option.split)

interpretation alert_fx: quiet_effect "postAlert u key msg detail" for u key msg detail
  by unfold_locales (simp_all add: postAlert_def Let_def agent_posts_enqueueOutbox)

interpretation raise_fx: quiet_effect "raiseAlert u key msg detail" for u key msg detail
  by unfold_locales (simp_all add: raiseAlert_def)

text \<open>\<open>setAgentState\<close> changes the agents table and the audit log only.\<close>

lemma setAgentState_frame [simp]:
  "gw_runs (setAgentState u a x y r s) = gw_runs s" "gw_inbox (setAgentState u a x y r s) = gw_inbox s"
  "gw_waits (setAgentState u a x y r s) = gw_waits s" "gw_events (setAgentState u a x y r s) = gw_events s"
  "gw_routes (setAgentState u a x y r s) = gw_routes s" "gw_usage (setAgentState u a x y r s) = gw_usage s"
  "gw_snapshots (setAgentState u a x y r s) = gw_snapshots s"
  "gw_config (setAgentState u a x y r s) = gw_config s"
  "gw_lifecycle (setAgentState u a x y r s) = gw_lifecycle s"
  "gw_outbox (setAgentState u a x y r s) = gw_outbox s" "gw_jobs (setAgentState u a x y r s) = gw_jobs s"
  by (simp_all add: setAgentState_def audit_def)

lemma setAgentState_decisions [simp]: "decision_log (setAgentState u a x y r s) = decision_log s"
  by (simp add: setAgentState_def audit_def)

lemma ids_setAgentState [simp]: "gw_ids (setAgentState u a x y r s) = gw_ids s"
  by (simp add: setAgentState_def audit_def)

lemma agent_posts_setAgentState [simp]: "agent_posts (setAgentState u a x y r s) = agent_posts s"
  by (simp add: agent_posts_def)

subsection \<open>Tables\<close>

lemma length_update_where [simp]: "length (update_where P f rows) = length rows"
  by (simp add: update_where_def)

lemma set_update_where: "set (update_where P f rows) = (\<lambda>r. if P r then f r else r) ` set rows"
  by (simp add: update_where_def)

lemma update_where_Nil [simp]: "update_where P f [] = []"
  by (simp add: update_where_def)

lemma update_where_append [simp]:
  "update_where P f (xs @ ys) = update_where P f xs @ update_where P f ys"
  by (simp add: update_where_def)

lemma map_update_where [simp]: "(\<And>r. P r \<Longrightarrow> k (f r) = k r) \<Longrightarrow> map k (update_where P f rows) = map k rows"
  by (simp add: update_where_def)

lemma find_update_where:
  assumes "\<And>r. P r \<Longrightarrow> k (f r) = k r"
  shows "find (\<lambda>r. k r = i) (update_where P f rows) =
    map_option (\<lambda>r. if P r then f r else r) (find (\<lambda>r. k r = i) rows)"
  using assms by (induction rows) (auto simp: update_where_def)

lemma find_key_unique:
  assumes "distinct (map k rows)" and "r \<in> set rows"
  shows "find (\<lambda>x. k x = k r) rows = Some r"
  using assms by (induction rows) auto

subsection \<open>Tables that evolve\<close>

definition evolves :: "('r \<Rightarrow> 'r \<Rightarrow> bool) \<Rightarrow> 'r list \<Rightarrow> 'r list \<Rightarrow> bool" where
  "evolves P xs ys \<longleftrightarrow> length xs \<le> length ys \<and> (\<forall>i < length xs. P (xs ! i) (ys ! i))"

lemma evolves_refl: "(\<And>x. P x x) \<Longrightarrow> evolves P xs xs"
  by (simp add: evolves_def)

lemma evolves_append: "(\<And>x. P x x) \<Longrightarrow> evolves P xs (xs @ ys)"
  by (simp add: evolves_def nth_append)

lemma evolves_trans:
  assumes "evolves P xs ys" and "evolves P ys zs" and "\<And>x y z. P x y \<Longrightarrow> P y z \<Longrightarrow> P x z"
  shows "evolves P xs zs"
  using assms unfolding evolves_def by (meson less_le_trans order_trans)

lemma evolves_update:
  assumes "\<And>x. P x x" and "\<And>x. x \<in> set xs \<Longrightarrow> Q x \<Longrightarrow> P x (f x)"
  shows "evolves P xs (update_where Q f xs)"
  using assms by (simp add: evolves_def update_where_def)

lemma evolves_mem: "evolves P xs ys \<Longrightarrow> x \<in> set xs \<Longrightarrow> \<exists>y \<in> set ys. P x y"
  unfolding evolves_def in_set_conv_nth by (metis nth_mem order_less_le_trans)

subsection \<open>One outbox item per key\<close>

definition outbox_unique :: "gateway \<Rightarrow> bool" where
  "outbox_unique s \<longleftrightarrow> distinct (map ox_idempotencyKey (gw_outbox s))"

lemma outbox_unique_enqueueOutbox:
  "outbox_unique s \<Longrightarrow> outbox_unique (enqueueOutbox u d p k r s)"
  by (auto simp: outbox_unique_def enqueueOutbox_def Let_def list_ex_iff)

lemma enqueueOutbox_known:
  "list_ex (\<lambda>o'. ox_idempotencyKey o' = k) (gw_outbox s) \<Longrightarrow> enqueueOutbox u d p k r s = s"
  by (simp add: enqueueOutbox_def)

lemma enqueueOutbox_has_key:
  "list_ex (\<lambda>o'. ox_idempotencyKey o' = k) (gw_outbox (enqueueOutbox u d p k r s))"
  by (auto simp: enqueueOutbox_def Let_def)

lemma outbox_keys_grow:
  "set (gw_outbox s) \<subseteq> set (gw_outbox (enqueueOutbox u d p k r s))"
  by (auto simp: enqueueOutbox_def Let_def)

text \<open>An alert is raised once per key.\<close>

lemma raiseAlert_once: "raiseAlert u key m d (raiseAlert u' key m' d' s) = raiseAlert u' key m' d' s"
  unfolding raiseAlert_def postAlert_def Let_def
  by (rule enqueueOutbox_known) (rule enqueueOutbox_has_key)

end
