(* ===== verification/Event_Log.thy ===== *)
theory Event_Log
  imports Gateway_Store
begin

text \<open>
  What the stored events say: the hashes of \<open>packages/events/src/envelope.ts\<close>, the threads, post
  changes and inbox retirement of \<open>packages/core/src/services/context-store.ts\<close>, the cascade budget of
  \<open>store.ts\<close> and the loop counters of \<open>packages/core/src/services/loop-stats.ts\<close>. SQL conditions are the
  predicates below, an \<open>order by\<close> a stable sort; \<open>payload->>'k'\<close> is \<open>payload_text\<close> (the members it reads
  are strings or null). NFKC normalisation of a post's text is the parameter \<open>u_normalizeMessage\<close>.

  The properties: which pending entries a turn must no longer see, and that the duplicate and pairwise
  counters read only what was accepted before the event.
\<close>

subsection \<open>Hashes\<close>

fun trust_level_name :: "trust_level \<Rightarrow> string" where
  "trust_level_name SystemTrusted = ''system-trusted''"
| "trust_level_name HumanTrusted = ''human-trusted''"
| "trust_level_name InternalUntrusted = ''internal-untrusted''"
| "trust_level_name ExternalUntrusted = ''external-untrusted''"

definition json_option :: "string option \<Rightarrow> json" where
  "json_option v = (case v of None \<Rightarrow> JNull | Some s \<Rightarrow> JStr s)"

definition payloadHash :: "uow \<Rightarrow> gateway_event \<Rightarrow> string" where
  "payloadHash u e = canonicalHash (u_sha256Hex u)
    (JObj [(''type'', JStr (event_type_name (ev_type e))), (''subject'', json_option (ev_subject e)),
           (''correlationid'', JStr (ev_correlationid e)), (''causationid'', json_option (ev_causationid e)),
           (''hop'', JNum (int (ev_hop e))), (''trustlevel'', JStr (trust_level_name (ev_trustlevel e))),
           (''data'', JObj (ev_data e))])"

definition NEW_POST_EVENT_TYPES :: "gateway_event_type list" where
  "NEW_POST_EVENT_TYPES = [MmPostCreated, MmAgentMentioned, MmThreadReply]"

definition contentHash :: "uow \<Rightarrow> gateway_event \<Rightarrow> string option" where
  "contentHash u e =
    (if ev_type e \<notin> set NEW_POST_EVENT_TYPES then None
     else case mattermostPost e of
       None \<Rightarrow> None
     | Some post \<Rightarrow> Some (canonicalHash (u_sha256Hex u)
         (JObj [(''sender'', JStr (case sender_agent_id post of None \<Rightarrow> user_id post | Some a \<Rightarrow> a)),
                (''channel'', JStr (channel_id post)), (''root'', json_option (root_id post)),
                (''targets'', JArr (map JStr (sort (target_agent_ids post)))),
                (''message'', JStr (u_normalizeMessage u (message post)))])))"

subsection \<open>Threads\<close>

record thread_ref =
  tf_channelId :: string
  tf_rootPostId :: string

definition formatThreadRef :: "thread_ref \<Rightarrow> string" where
  "formatThreadRef ref = ''channel/'' @ tf_channelId ref @ ''/thread/'' @ tf_rootPostId ref"

text \<open>\<open>/^channel\/([a-z0-9]{26})\/thread\/([a-z0-9]{26})$/\<close>.\<close>

definition parseThreadRef :: "string option \<Rightarrow> thread_ref option" where
  "parseThreadRef v =
    (case v of
       None \<Rightarrow> None
     | Some t \<Rightarrow>
         let c = take 26 (drop 8 t); r = drop 42 t in
         if take 8 t = ''channel/'' \<and> take 8 (drop 34 t) = ''/thread/'' \<and>
            MattermostIdSchema c \<and> MattermostIdSchema r
         then Some \<lparr>tf_channelId = c, tf_rootPostId = r\<rparr> else None)"

definition thread_ref_of :: "mattermost_post_data \<Rightarrow> thread_ref" where
  "thread_ref_of post = \<lparr>tf_channelId = channel_id post, tf_rootPostId = post_thread post\<rparr>"

definition threadsOf :: "gateway_event list \<Rightarrow> thread_ref list" where
  "threadsOf events =
    map snd (js_map (concat (map (\<lambda>e. case mattermostPost e of
        None \<Rightarrow> []
      | Some post \<Rightarrow> [(formatThreadRef (thread_ref_of post), thread_ref_of post)]) events)))"

definition payload_text :: "event_row \<Rightarrow> string \<Rightarrow> string option" where
  "payload_text e key =
    (case map_of (ev_data (er_event e)) key of Some (JStr t) \<Rightarrow> Some t | _ \<Rightarrow> None)"

definition has_member :: "event_row \<Rightarrow> string \<Rightarrow> bool" where
  "has_member e key \<longleftrightarrow> map_of (ev_data (er_event e)) key \<noteq> None"

text \<open>\<open>coalesce(payload->>'root_id', payload->>'post_id')\<close>.\<close>

definition payload_root :: "event_row \<Rightarrow> string option" where
  "payload_root e = (case payload_text e ''root_id'' of None \<Rightarrow> payload_text e ''post_id'' | Some r \<Rightarrow> Some r)"

definition inThread :: "thread_ref \<Rightarrow> event_row \<Rightarrow> bool" where
  "inThread ref e \<longleftrightarrow>
    has_member e ''post_id'' \<and> payload_text e ''channel_id'' = Some (tf_channelId ref) \<and>
    payload_root e = Some (tf_rootPostId ref) \<and> ev_type (er_event e) \<in> set MATTERMOST_POST_EVENT_TYPES"

definition POST_CREATION_TYPES :: "gateway_event_type list" where
  "POST_CREATION_TYPES = NEW_POST_EVENT_TYPES @ [MmPostRecovered]"

definition threadCorrelationOf :: "gateway \<Rightarrow> thread_ref \<Rightarrow> string" where
  "threadCorrelationOf s ref =
    (case sort_key er_seq (filter (\<lambda>e. inThread ref e \<and> payload_text e ''root_id'' = None \<and>
            ev_type (er_event e) \<in> set POST_CREATION_TYPES) (gw_events s)) of
       [] \<Rightarrow> ''thread:'' @ tf_rootPostId ref
     | e # _ \<Rightarrow> ev_correlationid (er_event e))"

record stored_post_event =
  sp_type :: gateway_event_type
  sp_time :: millis
  sp_trustLevel :: trust_level
  sp_post :: mattermost_post_data

definition loadPostChanges :: "gateway \<Rightarrow> thread_ref \<Rightarrow> stored_post_event list" where
  "loadPostChanges s ref =
    concat (map (\<lambda>e. case MattermostPostDataSchema (ev_data (er_event e)) of
        None \<Rightarrow> []
      | Some post \<Rightarrow>
          if ev_trustlevel (er_event e) \<noteq> HumanTrusted \<and> ev_trustlevel (er_event e) \<noteq> InternalUntrusted then []
          else [\<lparr>sp_type = ev_type (er_event e), sp_time = ev_time (er_event e),
                 sp_trustLevel = ev_trustlevel (er_event e), sp_post = post\<rparr>])
      (sort_key er_seq (filter (\<lambda>e. inThread ref e \<and> ev_type (er_event e) \<in> {MmPostEdited, MmPostDeleted})
        (gw_events s))))"

definition deletedPosts :: "gateway \<Rightarrow> gateway_event list \<Rightarrow> string list" where
  "deletedPosts s candidates =
    js_set (map (\<lambda>c. post_id (sp_post c)) (filter (\<lambda>c. sp_type c = MmPostDeleted)
      (concat (map (loadPostChanges s) (threadsOf candidates)))))"

subsection \<open>Retiring inbox entries\<close>

text \<open>The condition of the update: a post of a channel that is not allowed, from before the agent's
  add, or deleted since.\<close>

definition deleted_since :: "gateway \<Rightarrow> event_row \<Rightarrow> bool" where
  "deleted_since s e \<longleftrightarrow>
    list_ex (\<lambda>d. ev_type (er_event d) = MmPostDeleted \<and> has_member d ''post_id'' \<and>
        payload_text d ''channel_id'' \<noteq> None \<and> payload_text d ''channel_id'' = payload_text e ''channel_id'' \<and>
        payload_root d \<noteq> None \<and> payload_root d = payload_root e \<and>
        payload_text d ''post_id'' \<noteq> None \<and> payload_text d ''post_id'' = payload_text e ''post_id'')
      (gw_events s)"

definition post_hidden :: "gateway \<Rightarrow> string list \<Rightarrow> (string \<times> millis) list \<Rightarrow> event_row \<Rightarrow> bool" where
  "post_hidden s allowed floors e \<longleftrightarrow>
    (case payload_text e ''channel_id'' of
       None \<Rightarrow> False
     | Some c \<Rightarrow> c \<notin> set allowed \<or>
         (case map_of floors c of None \<Rightarrow> False | Some f \<Rightarrow> ev_time (er_event e) \<le> f)) \<or>
    deleted_since s e"

definition retires :: "gateway \<Rightarrow> string \<Rightarrow> string list \<Rightarrow> (string \<times> millis) list \<Rightarrow> inbox_row \<Rightarrow> bool" where
  "retires s agentId allowed floors i \<longleftrightarrow>
    (case find_event s (ib_eventId i) of
       None \<Rightarrow> False
     | Some e \<Rightarrow>
         ib_agentId i = agentId \<and> ib_status i = IPending \<and> ib_waitId i = None \<and>
         ev_type (er_event e) \<in> set MATTERMOST_POST_EVENT_TYPES \<and> has_member e ''post_id'' \<and>
         post_hidden s allowed floors e)"

definition retireInbox ::
    "string \<Rightarrow> string list \<Rightarrow> (string \<times> millis) list \<Rightarrow> gateway \<Rightarrow> string list \<times> gateway" where
  "retireInbox agentId allowed floors s =
    (map ib_eventId (filter (retires s agentId allowed floors) (gw_inbox s)),
     s\<lparr>gw_inbox := update_where (retires s agentId allowed floors) (\<lambda>i. i\<lparr>ib_status := IDead\<rparr>) (gw_inbox s)\<rparr>)"

subsection \<open>Loop counters\<close>

definition granting :: "route_row \<Rightarrow> bool" where
  "granting r \<longleftrightarrow> ro_decision r = RWake \<or> ro_decision r = RWaitMatch"

definition starts_cascade :: "string \<Rightarrow> event_row \<Rightarrow> bool" where
  "starts_cascade correlationId e \<longleftrightarrow>
    ev_correlationid (er_event e) = correlationId \<and> ev_hop (er_event e) = 0 \<and>
    (ev_trustlevel (er_event e) = HumanTrusted \<and> ev_type (er_event e) \<in> set NEW_POST_EVENT_TYPES \<or>
     ev_type (er_event e) = GmailMessageReceived)"

definition cascade_anchor :: "gateway \<Rightarrow> string \<Rightarrow> nat option" where
  "cascade_anchor s correlationId =
    (case map er_seq (filter (starts_cascade correlationId) (gw_events s)) of
       [] \<Rightarrow> None | n # ns \<Rightarrow> Some (fold max ns n))"

definition route_event :: "gateway \<Rightarrow> (event_row \<Rightarrow> bool) \<Rightarrow> route_row \<Rightarrow> bool" where
  "route_event s P r \<longleftrightarrow> (case find_event s (ro_eventId r) of None \<Rightarrow> False | Some e \<Rightarrow> P e)"

text \<open>\<open>cascadeBudget\<close>: the anchor of the current cascade and the wake-ups granted under it.\<close>

definition cascadeBudget :: "gateway \<Rightarrow> string \<Rightarrow> nat option \<times> nat" where
  "cascadeBudget s correlationId =
    (let anchor = cascade_anchor s correlationId in
     (anchor, length (filter (\<lambda>r. granting r \<and> ro_cascadeAnchor r = anchor \<and>
        route_event s (\<lambda>e. ev_correlationid (er_event e) = correlationId) r) (gw_routes s))))"

definition LOOP_WINDOW_MS :: int where "LOOP_WINDOW_MS = 10 * 60 * 1000"
definition HOUR_MS :: int where "HOUR_MS = 60 * 60 * 1000"

definition earlier :: "event_row \<Rightarrow> event_row \<Rightarrow> bool" where
  "earlier position e \<longleftrightarrow> er_seq e < er_seq position \<and> er_receivedAt position - LOOP_WINDOW_MS < er_receivedAt e"

text \<open>\<open>select k, count(*) ... group by k\<close> as a record by key.\<close>

definition count_by :: "('r \<Rightarrow> string) \<Rightarrow> 'r list \<Rightarrow> (string \<times> nat) list" where
  "count_by k rows = map (\<lambda>x. (x, length (filter (\<lambda>r. k r = x) rows))) (js_set (map k rows))"

definition loopStats :: "uow \<Rightarrow> gateway_event \<Rightarrow> event_row \<Rightarrow> gateway \<Rightarrow> loop_stats \<times> nat option" where
  "loopStats u e position s =
    (let cascade = cascadeBudget s (ev_correlationid e);
         hash = contentHash u e; sender = eventSenderAgentId e in
     (\<lparr>cascadeWakes = snd cascade,
       runsLastHour = count_by rn_agentId (filter (\<lambda>r. u_now u - HOUR_MS < rn_queuedAt r) (gw_runs s)),
       duplicateContent =
         (case hash of None \<Rightarrow> 0
          | Some h \<Rightarrow> length (filter (\<lambda>x. er_contentHash x = Some h \<and> earlier position x) (gw_events s))),
       pairwiseMessages =
         (case sender of None \<Rightarrow> []
          | Some a \<Rightarrow> count_by ro_agentId (filter (\<lambda>r. granting r \<and>
              route_event s (\<lambda>x. er_senderAgentId x = Some a \<and> earlier position x) r) (gw_routes s))),
       threadWakes = length (filter (\<lambda>r. granting r \<and>
         route_event s (\<lambda>x. ev_correlationid (er_event x) = ev_correlationid e \<and> earlier position x) r)
         (gw_routes s))\<rparr>,
      fst cascade))"

end
