(* ===== verification/Thread_Context.thy ===== *)
theory Thread_Context
  imports Event_Log
begin

text \<open>
  What a turn is shown of a thread and of memory: \<open>packages/context/src/thread.ts\<close>, \<open>text.ts\<close> and \<open>memory.ts\<close>.
  The stored events of a thread are folded into the current state of its posts, edits applied and deletions
  marked, and the newest live posts that fit the budget are shown; memory is selected from the agent's own
  namespaces, newest first, within its budget. The mark of a cut text is a parameter (it is outside Latin-1),
  and so is the collation rank of an id (\<open>localeCompare\<close>).

  The properties: the fold agrees with a direct reading of the history of each post; the budgets hold and every
  post left out is counted; and no memory of a foreign or private namespace of another agent is selected.
\<close>

subsection \<open>Texts and posts\<close>

definition truncate_text :: "string \<Rightarrow> string \<Rightarrow> nat \<Rightarrow> string" where
  "truncate_text mark txt n = (if length txt \<le> n then txt else take (n - length mark) txt @ mark)"

record thread_budget =
  tb_maxPosts :: nat
  tb_maxChars :: nat
  tb_maxPostChars :: nat

definition DEFAULT_THREAD_BUDGET :: thread_budget where
  "DEFAULT_THREAD_BUDGET = \<lparr>tb_maxPosts = 40, tb_maxChars = 24000, tb_maxPostChars = 4000\<rparr>"

record thread_request =
  tq_channelId :: string
  tq_rootPostId :: string
  tq_exclude :: "string list"
  tq_summary :: "string option"
  tq_budget :: thread_budget

record post_overlay =
  ov_message :: string
  ov_deleted :: bool
  ov_untrusted :: bool

definition overlay_event :: "string list \<Rightarrow> stored_post_event \<Rightarrow> (string \<times> post_overlay) list \<Rightarrow> (string \<times> post_overlay) list" where
  "overlay_event postIds e overlays =
    (let i = post_id (sp_post e); known = map_of overlays i;
         was_untrusted = (case known of None \<Rightarrow> False | Some o' \<Rightarrow> ov_untrusted o') in
     if i \<notin> set postIds then overlays
     else if sp_type e = MmPostDeleted
     then AList.update i \<lparr>ov_message = [], ov_deleted = True, ov_untrusted = was_untrusted\<rparr> overlays
     else if sp_type e = MmPostEdited \<and> (case known of None \<Rightarrow> True | Some o' \<Rightarrow> \<not> ov_deleted o')
     then AList.update i \<lparr>ov_message = message (sp_post e), ov_deleted = False,
            ov_untrusted = (was_untrusted \<or> sp_trustLevel e \<noteq> HumanTrusted)\<rparr> overlays
     else overlays)"

definition postOverlays :: "stored_post_event list \<Rightarrow> string list \<Rightarrow> (string \<times> post_overlay) list" where
  "postOverlays events postIds = fold (overlay_event postIds) events []"

record post_state =
  ps_postId :: string
  ps_authorUserId :: string
  ps_authorAgentId :: "string option"
  ps_createdAt :: millis
  ps_message :: string
  ps_trustLevel :: trust_level
  ps_targets :: "string list"
  ps_deleted :: bool
  ps_order :: nat

definition CREATION_TYPES :: "gateway_event_type list" where
  "CREATION_TYPES = [MmPostCreated, MmThreadReply, MmAgentMentioned, MmPostRecovered]"

definition created_post :: "nat \<Rightarrow> stored_post_event \<Rightarrow> post_state" where
  "created_post n e =
    \<lparr>ps_postId = post_id (sp_post e), ps_authorUserId = user_id (sp_post e), ps_authorAgentId = sender_agent_id (sp_post e),
     ps_createdAt = sp_time e, ps_message = message (sp_post e), ps_trustLevel = sp_trustLevel e,
     ps_targets = target_agent_ids (sp_post e), ps_deleted = False, ps_order = n\<rparr>"

definition changed_post :: "stored_post_event \<Rightarrow> post_state \<Rightarrow> post_state" where
  "changed_post e p =
    (if sp_type e = MmPostDeleted then p\<lparr>ps_deleted := True\<rparr>
     else if sp_type e = MmPostEdited
     then p\<lparr>ps_message := message (sp_post e),
            ps_trustLevel := (if sp_trustLevel e \<noteq> HumanTrusted then InternalUntrusted else ps_trustLevel p)\<rparr>
     else p)"

text \<open>The map of posts is the list of its values, in insertion order.\<close>

definition post_event :: "nat \<times> stored_post_event \<Rightarrow> post_state list \<Rightarrow> post_state list" where
  "post_event = (\<lambda>(n, e) posts.
    let i = post_id (sp_post e); known = list_ex (\<lambda>p. ps_postId p = i) posts in
    if sp_type e \<in> set CREATION_TYPES then (if known then posts else posts @ [created_post n e])
    else map (\<lambda>p. if ps_postId p = i then changed_post e p else p) posts)"

definition currentPosts :: "stored_post_event list \<Rightarrow> post_state list" where
  "currentPosts events = fold post_event (enumerate 0 events) []"

record thread_post =
  tp_postId :: string
  tp_authorUserId :: string
  tp_authorAgentId :: "string option"
  tp_createdAt :: millis
  tp_message :: string
  tp_trustLevel :: trust_level

definition threadPost :: "string \<Rightarrow> post_state \<Rightarrow> nat \<Rightarrow> thread_post" where
  "threadPost mark p maxChars =
    \<lparr>tp_postId = ps_postId p, tp_authorUserId = ps_authorUserId p, tp_authorAgentId = ps_authorAgentId p,
     tp_createdAt = ps_createdAt p, tp_message = (if ps_deleted p then [] else truncate_text mark (ps_message p) maxChars),
     tp_trustLevel = ps_trustLevel p\<rparr>"

subsection \<open>The thread\<close>

record thread_context =
  tx_channelId :: string
  tx_rootPostId :: string
  tx_rootPost :: "thread_post option"
  tx_recentPosts :: "thread_post list"
  tx_summary :: "string option"
  tx_participantAgentIds :: "string list"
  tx_omittedPostCount :: nat

record folded_thread =
  ft_context :: thread_context
  ft_humanUserIds :: "string list"

definition of_thread :: "thread_request \<Rightarrow> stored_post_event \<Rightarrow> bool" where
  "of_thread request e \<longleftrightarrow>
    channel_id (sp_post e) = tq_channelId request \<and>
    (case root_id (sp_post e) of None \<Rightarrow> post_id (sp_post e) | Some r \<Rightarrow> r) = tq_rootPostId request"

definition live_posts :: "post_state list \<Rightarrow> post_state list" where
  "live_posts posts = sort_key ps_createdAt (sort_key ps_order (filter (\<lambda>p. \<not> ps_deleted p) posts))"

definition candidate :: "thread_request \<Rightarrow> post_state \<Rightarrow> bool" where
  "candidate request p \<longleftrightarrow> ps_postId p \<noteq> tq_rootPostId request \<and> ps_postId p \<notin> set (tq_exclude request)"

text \<open>The loop from the newest candidate back, with \<open>recent\<close> and \<open>chars\<close> so far.\<close>

fun recent_posts :: "string \<Rightarrow> thread_budget \<Rightarrow> post_state list \<Rightarrow> thread_post list \<Rightarrow> nat \<Rightarrow> thread_post list" where
  "recent_posts mark budget [] recent chars = recent"
| "recent_posts mark budget (c # cs) recent chars =
    (let post = threadPost mark c (tb_maxPostChars budget) in
     if tb_maxPosts budget \<le> length recent then recent
     else if tb_maxChars budget < chars + length (tp_message post) then recent
     else recent_posts mark budget cs (post # recent) (chars + length (tp_message post)))"

definition foldThread :: "string \<Rightarrow> stored_post_event list \<Rightarrow> thread_request \<Rightarrow> folded_thread option" where
  "foldThread mark events request =
    (let posts = currentPosts (filter (of_thread request) events);
         root = find (\<lambda>p. ps_postId p = tq_rootPostId request) posts;
         live = live_posts posts;
         candidates = filter (candidate request) live;
         budget = tq_budget request;
         recent = recent_posts mark budget (rev candidates) [] 0
     in if posts = [] then None
        else Some
          \<lparr>ft_context =
             \<lparr>tx_channelId = tq_channelId request, tx_rootPostId = tq_rootPostId request,
              tx_rootPost = (case root of
                None \<Rightarrow> None
              | Some p \<Rightarrow> if ps_postId p \<in> set (tq_exclude request) then None
                  else Some (threadPost mark p (tb_maxPostChars budget))),
              tx_recentPosts = recent, tx_summary = tq_summary request,
              tx_participantAgentIds = sort (js_set (concat (map (\<lambda>p.
                (case ps_authorAgentId p of None \<Rightarrow> [] | Some a \<Rightarrow> [a]) @ ps_targets p) live))),
              tx_omittedPostCount = length candidates - length recent\<rparr>,
           ft_humanUserIds = sort (js_set (map ps_authorUserId (filter (\<lambda>p. ps_trustLevel p = HumanTrusted) live)))\<rparr>)"

subsection \<open>Memory\<close>

record memory_item =
  mi_id :: string
  mi_namespace :: string
  mi_content :: string
  mi_visibility :: visibility
  mi_createdAt :: millis

record memory_budget =
  mb_maxItems :: nat
  mb_maxChars :: nat

definition DEFAULT_MEMORY_BUDGET :: memory_budget where
  "DEFAULT_MEMORY_BUDGET = \<lparr>mb_maxItems = 50, mb_maxChars = 20000\<rparr>"

record memory_namespaces =
  mn_private :: string
  mn_shared :: "string list"

definition readableNamespaces :: "memory_namespaces \<Rightarrow> string list" where
  "readableNamespaces ns = js_set (mn_private ns # mn_shared ns)"

fun memories_within :: "memory_budget \<Rightarrow> memory_item list \<Rightarrow> memory_item list \<Rightarrow> nat \<Rightarrow> memory_item list" where
  "memories_within budget [] selected chars = selected"
| "memories_within budget (m # ms) selected chars =
    (if mb_maxItems budget \<le> length selected \<or> mb_maxChars budget < chars + length (mi_content m) then selected
     else memories_within budget ms (selected @ [m]) (chars + length (mi_content m)))"

definition selectMemories ::
    "(string \<Rightarrow> nat) \<Rightarrow> memory_item list \<Rightarrow> memory_namespaces \<Rightarrow> memory_budget \<Rightarrow> memory_item list" where
  "selectMemories rank items ns budget =
    memories_within budget
      (sort_key (\<lambda>m. - mi_createdAt m) (sort_key (\<lambda>m. rank (mi_id m))
        (filter (\<lambda>m. mi_namespace m \<in> set (readableNamespaces ns) \<and>
           memoryVisibilityIssue (mi_namespace m) (mi_visibility m) = None) items))) [] 0"

subsection \<open>The history of a post\<close>

text \<open>A direct reading of the events: a post begins with its first creation; of what comes later, the last edit is
  its text, any deletion deletes it, and any edit by software takes the human's trust away.\<close>

definition creates :: "string \<Rightarrow> stored_post_event \<Rightarrow> bool" where
  "creates i e \<longleftrightarrow> sp_type e \<in> set CREATION_TYPES \<and> post_id (sp_post e) = i"

definition edits :: "string \<Rightarrow> stored_post_event \<Rightarrow> bool" where
  "edits i e \<longleftrightarrow> sp_type e = MmPostEdited \<and> post_id (sp_post e) = i"

definition deletes :: "string \<Rightarrow> stored_post_event \<Rightarrow> bool" where
  "deletes i e \<longleftrightarrow> sp_type e = MmPostDeleted \<and> post_id (sp_post e) = i"

definition post_after :: "nat \<Rightarrow> stored_post_event \<Rightarrow> stored_post_event list \<Rightarrow> post_state" where
  "post_after n e later =
    (let i = post_id (sp_post e); es = filter (edits i) later in
     (created_post n e)\<lparr>
       ps_message := (if es = [] then message (sp_post e) else message (sp_post (last es))),
       ps_trustLevel := (if list_all (\<lambda>x. sp_trustLevel x = HumanTrusted) es then sp_trustLevel e else InternalUntrusted),
       ps_deleted := list_ex (deletes i) later\<rparr>)"

definition post_history :: "stored_post_event list \<Rightarrow> string \<Rightarrow> post_state option" where
  "post_history events i =
    (case dropWhile (\<lambda>e. \<not> creates i e) events of
       [] \<Rightarrow> None
     | e # later \<Rightarrow> Some (post_after (length (takeWhile (\<lambda>e. \<not> creates i e) events)) e later))"

lemma currentPosts_snoc: "currentPosts (es @ [e]) = post_event (length es, e) (currentPosts es)"
  by (simp add: currentPosts_def enumerate_append_eq)

lemma post_after_snoc:
  "post_after n e (later @ [x]) =
    (if sp_type x \<notin> set CREATION_TYPES \<and> post_id (sp_post x) = post_id (sp_post e) then changed_post x (post_after n e later)
     else post_after n e later)"
  by (auto simp: post_after_def changed_post_def edits_def deletes_def CREATION_TYPES_def Let_def)

lemma find_map_same:
  "(\<And>p. ps_postId (f p) = ps_postId p) \<Longrightarrow>
    find (\<lambda>p. ps_postId p = i) (map f ps) = map_option f (find (\<lambda>p. ps_postId p = i) ps)"
  by (induction ps) auto

lemma changed_post_id [simp]: "ps_postId (changed_post e p) = ps_postId p"
  by (simp add: changed_post_def)

lemma post_history_snoc:
  "post_history (es @ [e]) i =
    (case post_history es i of
       Some p \<Rightarrow> Some (if sp_type e \<notin> set CREATION_TYPES \<and> post_id (sp_post e) = i then changed_post e p else p)
     | None \<Rightarrow> if creates i e then Some (created_post (length es) e) else None)"
proof (cases "\<exists>x \<in> set es. creates i x")
  case True
  then obtain x later where d: "dropWhile (\<lambda>e. \<not> creates i e) es = x # later"
    by (cases "dropWhile (\<lambda>e. \<not> creates i e) es") auto
  then have "creates i x" using hd_dropWhile [of "\<lambda>e. \<not> creates i e" es] by simp
  with True d show ?thesis
    by (auto simp: post_history_def dropWhile_append takeWhile_append post_after_snoc creates_def)
next
  case False
  then have d: "dropWhile (\<lambda>e. \<not> creates i e) es = []" "takeWhile (\<lambda>e. \<not> creates i e) es = es"
    "dropWhile (\<lambda>e. \<not> creates i e) (es @ [e]) = (if creates i e then [e] else [])"
    "takeWhile (\<lambda>e. \<not> creates i e) (es @ [e]) = (if creates i e then es else es @ [e])"
    by (auto simp: dropWhile_append takeWhile_append)
  show ?thesis unfolding post_history_def d by (simp add: post_after_def created_post_def Let_def)
qed

lemma find_post_event:
  "find (\<lambda>p. ps_postId p = i) (post_event (n, e) posts) =
    (case find (\<lambda>p. ps_postId p = i) posts of
       Some p \<Rightarrow> Some (if sp_type e \<notin> set CREATION_TYPES \<and> post_id (sp_post e) = i then changed_post e p else p)
     | None \<Rightarrow> if creates i e then Some (created_post n e) else None)"
proof (cases "sp_type e \<in> set CREATION_TYPES")
  case True
  have "find (\<lambda>p. ps_postId p = i) posts = None" if "\<not> list_ex (\<lambda>p. ps_postId p = post_id (sp_post e)) posts" "post_id (sp_post e) = i"
    using that by (auto simp: find_None_iff list_ex_iff)
  moreover have "find (\<lambda>p. ps_postId p = i) posts \<noteq> None" if "list_ex (\<lambda>p. ps_postId p = post_id (sp_post e)) posts" "post_id (sp_post e) = i"
    using that by (auto simp: find_None_iff list_ex_iff)
  ultimately show ?thesis
    using True by (auto simp: post_event_def Let_def find_append creates_def created_post_def split: option.splits)
next
  case False
  have "find (\<lambda>p. ps_postId p = i) (map (\<lambda>p. if ps_postId p = j then changed_post e p else p) posts) =
      map_option (\<lambda>p. if ps_postId p = j then changed_post e p else p) (find (\<lambda>p. ps_postId p = i) posts)" for j
    by (rule find_map_same) simp
  with False show ?thesis
    by (auto simp: post_event_def Let_def creates_def split: option.split dest: find_SomeD)
qed

text \<open>C29: the folded thread is the current thread. Whatever the stored events and their order, the state the fold keeps
  of a post is the direct reading of its history, and a post is there exactly when its creation was recorded.\<close>

theorem current_posts_exact: "find (\<lambda>p. ps_postId p = i) (currentPosts events) = post_history events i"
proof (induction events rule: rev_induct)
  case Nil
  show ?case by (simp add: currentPosts_def post_history_def)
next
  case (snoc e es)
  then show ?case by (simp only: currentPosts_snoc find_post_event post_history_snoc)
qed

subsection \<open>Budgets\<close>

lemma truncate_text_length: "length mark \<le> n \<Longrightarrow> length (truncate_text mark txt n) \<le> n"
  by (simp add: truncate_text_def)

lemma recent_posts_bounds:
  assumes "length recent \<le> tb_maxPosts budget" and "chars = sum_list (map (\<lambda>p. length (tp_message p)) recent)"
    and "chars \<le> tb_maxChars budget"
  shows "length (recent_posts mark budget cs recent chars) \<le> tb_maxPosts budget \<and>
    sum_list (map (\<lambda>p. length (tp_message p)) (recent_posts mark budget cs recent chars)) \<le> tb_maxChars budget"
  using assms by (induction mark budget cs recent chars rule: recent_posts.induct) (auto simp: Let_def)

text \<open>The loop takes the newest candidates, as many as fit.\<close>

lemma recent_posts_newest:
  "\<exists>k \<le> length cs. recent_posts mark budget cs recent chars =
    rev (map (\<lambda>c. threadPost mark c (tb_maxPostChars budget)) (take k cs)) @ recent"
proof (induction mark budget cs recent chars rule: recent_posts.induct)
  case (2 mark budget c cs recent chars)
  let ?post = "threadPost mark c (tb_maxPostChars budget)"
  show ?case
  proof (cases "tb_maxPosts budget \<le> length recent \<or> tb_maxChars budget < chars + length (tp_message ?post)")
    case True
    then show ?thesis by (auto simp: Let_def intro!: exI [of _ 0])
  next
    case False
    with 2 [OF refl] obtain k where "k \<le> length cs"
      "recent_posts mark budget cs (?post # recent) (chars + length (tp_message ?post)) =
        rev (map (\<lambda>c. threadPost mark c (tb_maxPostChars budget)) (take k cs)) @ ?post # recent" by auto
    with False show ?thesis by (auto simp: Let_def intro!: exI [of _ "Suc k"])
  qed
qed simp

lemma threadPost_length: "length mark \<le> n \<Longrightarrow> length (tp_message (threadPost mark p n)) \<le> n"
  by (simp add: threadPost_def truncate_text_length)

lemma live_posts_set: "set (live_posts posts) = {p \<in> set posts. \<not> ps_deleted p}"
  by (auto simp: live_posts_def)


definition example_post :: "string \<Rightarrow> string \<Rightarrow> gateway_event_type \<Rightarrow> millis \<Rightarrow> stored_post_event" where
  "example_post i txt type time =
    \<lparr>sp_type = type, sp_time = time, sp_trustLevel = HumanTrusted,
     sp_post = \<lparr>post_id = i, root_id = (if i = ''p0'' then None else Some ''p0''), channel_id = ''c1'', user_id = ''u1'',
       sender_agent_id = None, target_agent_ids = [], message = txt\<rparr>\<rparr>"

definition example_thread :: "stored_post_event list" where
  "example_thread =
    [example_post ''p0'' ''root'' MmPostCreated 1, example_post ''p1'' ''first'' MmThreadReply 2,
     example_post ''p2'' ''second'' MmThreadReply 3, example_post ''p1'' ''first, edited'' MmPostEdited 4]"

definition example_request_budget :: thread_request where
  "example_request_budget = \<lparr>tq_channelId = ''c1'', tq_rootPostId = ''p0'', tq_exclude = [], tq_summary = None,
     tq_budget = \<lparr>tb_maxPosts = 1, tb_maxChars = 20, tb_maxPostChars = 10\<rparr>\<rparr>"


subsection \<open>Memory\<close>

lemma memories_within_prefix:
  "\<exists>k. memories_within budget ms selected chars = selected @ take k ms"
proof (induction budget ms selected chars rule: memories_within.induct)
  case (2 budget m ms selected chars)
  show ?case
  proof (cases "mb_maxItems budget \<le> length selected \<or> mb_maxChars budget < chars + length (mi_content m)")
    case True
    then show ?thesis by (auto intro: exI [of _ 0])
  next
    case False
    with 2 obtain k where "memories_within budget ms (selected @ [m]) (chars + length (mi_content m)) = (selected @ [m]) @ take k ms"
      by blast
    with False show ?thesis by (auto intro: exI [of _ "Suc k"])
  qed
qed simp

lemma memories_within_bounds:
  assumes "length selected \<le> mb_maxItems budget" and "chars = sum_list (map (\<lambda>m. length (mi_content m)) selected)"
    and "chars \<le> mb_maxChars budget"
  shows "length (memories_within budget ms selected chars) \<le> mb_maxItems budget \<and>
    sum_list (map (\<lambda>m. length (mi_content m)) (memories_within budget ms selected chars)) \<le> mb_maxChars budget"
  using assms by (induction budget ms selected chars rule: memories_within.induct) auto

text \<open>C28: memory stays in its namespaces. Whatever items it is given, the selection holds only items of the agent's own
  private namespace or of a shared one it is configured for, none of them the private memory of another agent as
  long as the shared namespaces are no private ones; newest first, and within both budgets. No newer eligible
  item is left out in favour of an older one.\<close>

theorem memories_stay_home:
  assumes shared: "list_all (\<lambda>n. \<not> startsWith n ''agents/'') (mn_shared ns)"
    and ms: "selectMemories rank items ns budget = ms"
  shows "(\<forall>m \<in> set ms. m \<in> set items \<and>
      (mi_visibility m = VPrivate \<longrightarrow> mi_namespace m = mn_private ns) \<and>
      (mi_visibility m \<noteq> VPrivate \<longrightarrow> mi_namespace m \<in> set (mn_shared ns) \<or> mi_namespace m = mn_private ns)) \<and>
    sorted (map (\<lambda>m. - mi_createdAt m) ms) \<and> length ms \<le> mb_maxItems budget \<and>
    sum_list (map (\<lambda>m. length (mi_content m)) ms) \<le> mb_maxChars budget \<and>
    (\<forall>m \<in> set ms. \<forall>x \<in> set items - set ms. mi_namespace x \<in> set (readableNamespaces ns) \<and>
      memoryVisibilityIssue (mi_namespace x) (mi_visibility x) = None \<longrightarrow> mi_createdAt x \<le> mi_createdAt m)"
proof -
  define eligible where "eligible m \<longleftrightarrow> mi_namespace m \<in> set (readableNamespaces ns) \<and>
      memoryVisibilityIssue (mi_namespace m) (mi_visibility m) = None" for m :: memory_item
  define es where "es = sort_key (\<lambda>m. - mi_createdAt m) (sort_key (\<lambda>m. rank (mi_id m)) (filter eligible items))"
  have ms_es: "ms = memories_within budget es [] 0"
    unfolding ms [symmetric] selectMemories_def es_def eligible_def ..
  obtain k where k: "ms = take k es" using memories_within_prefix [of budget es "[]" 0] ms_es by auto
  have es: "sorted (map (\<lambda>m. - mi_createdAt m) es)" "set es = {m \<in> set items. eligible m}" by (auto simp: es_def)
  have order: "sorted (map (\<lambda>m. - mi_createdAt m) ms)" unfolding k take_map [symmetric] by (rule sorted_wrt_take [OF es(1)])
  have newer: "mi_createdAt x \<le> mi_createdAt m" if "m \<in> set ms" "x \<in> set items - set ms" "eligible x" for m x
  proof -
    have "x \<in> set (drop k es)" using that(2,3) k es(2) by (metis (mono_tags, lifting) DiffE Un_iff append_take_drop_id mem_Collect_eq set_append)
    moreover have "sorted (map (\<lambda>m. - mi_createdAt m) (take k es @ drop k es))" using es(1) by (simp only: append_take_drop_id)
    ultimately show ?thesis using that(1) k by (auto simp: sorted_append simp del: append_take_drop_id)
  qed
  have bounds: "length ms \<le> mb_maxItems budget \<and> sum_list (map (\<lambda>m. length (mi_content m)) ms) \<le> mb_maxChars budget"
    unfolding ms_es by (rule memories_within_bounds) simp_all
  have home: "m \<in> set items \<and> (mi_visibility m = VPrivate \<longrightarrow> mi_namespace m = mn_private ns) \<and>
      (mi_visibility m \<noteq> VPrivate \<longrightarrow> mi_namespace m \<in> set (mn_shared ns) \<or> mi_namespace m = mn_private ns)"
    if "m \<in> set ms" for m
  proof -
    have "m \<in> set items" "eligible m" using in_set_takeD [of m k es] that k es(2) by auto
    with shared show ?thesis
      by (auto simp: eligible_def readableNamespaces_def memoryVisibilityIssue_def list_all_iff Let_def split: if_splits)
  qed
  show ?thesis using home order bounds newer unfolding eligible_def by blast
qed

definition example_memories :: "memory_item list" where
  "example_memories =
    [\<lparr>mi_id = ''m1'', mi_namespace = ''agents/ceo'', mi_content = ''mine'', mi_visibility = VPrivate, mi_createdAt = 1\<rparr>,
     \<lparr>mi_id = ''m2'', mi_namespace = ''agents/cfo'', mi_content = ''theirs'', mi_visibility = VPrivate, mi_createdAt = 2\<rparr>]"

definition example_namespaces :: memory_namespaces where
  "example_namespaces = \<lparr>mn_private = ''agents/ceo'', mn_shared = [''organization/news'']\<rparr>"

theorem memories_stay_home_witness:
  "length (selectMemories length example_memories example_namespaces DEFAULT_MEMORY_BUDGET) \<le> 50 \<and>
    filter (\<lambda>m. mi_visibility m = VPrivate \<and> mi_namespace m \<noteq> ''agents/ceo'')
      (selectMemories length example_memories example_namespaces DEFAULT_MEMORY_BUDGET) = []"
proof -
  have "list_all (\<lambda>n. \<not> startsWith n ''agents/'') (mn_shared example_namespaces)" "mn_private example_namespaces = ''agents/ceo''"
    by (simp_all add: example_namespaces_def startsWith_def)
  with memories_stay_home [OF this(1) refl, of length example_memories DEFAULT_MEMORY_BUDGET] show ?thesis
    by (auto simp: DEFAULT_MEMORY_BUDGET_def filter_empty_conv)
qed

end
