(* ===== verification/Wait_Store.thy ===== *)
theory Wait_Store
  imports Event_Log
begin

text \<open>
  Durable waits, \<open>packages/core/src/services/wait-store.ts\<close>: the waits as the matcher sees them, the
  atomic resolution of a wait with its siblings, and the search for answers that arrived before the
  wait existed. A late answer that was never routed to the agent passes the loop guards of
  \<open>routeEvent\<close> first, and its route is recorded.

  The properties: a wait is resolved at most once and ends its siblings, and a missed answer resumes an
  agent only with a visible, unseen event that answers one of its active waits.
\<close>

definition WAIT_PRIORITY :: nat where "WAIT_PRIORITY = 10"

definition to_active_wait :: "wait_row \<Rightarrow> string list option \<Rightarrow> active_wait" where
  "to_active_wait w roots =
    \<lparr>wait_id = wt_id w, wait_agentId = wt_agentId w, wait_condition = wt_condition w,
     wait_timeoutAt = wt_timeoutAt w, wait_threadRootIds = roots\<rparr>"

text \<open>The root posts the run of a wait published itself, found by causation.\<close>

definition run_roots :: "gateway \<Rightarrow> wait_row list \<Rightarrow> string \<Rightarrow> string list" where
  "run_roots s rows runId =
    (case map_of (rev (map (\<lambda>w. (wt_createdByRunId w, wt_agentId w)) rows)) runId of
       None \<Rightarrow> []
     | Some agentId \<Rightarrow>
         concat (map (\<lambda>e. case payload_text e ''post_id'' of None \<Rightarrow> [] | Some p \<Rightarrow> [p])
           (filter (\<lambda>e. ev_causationid (er_event e) = Some (''run:'' @ runId) \<and>
              ev_type (er_event e) \<in> {MmPostCreated, MmAgentMentioned} \<and>
              er_senderAgentId e = Some agentId \<and>
              has_member e ''post_id'' \<and> payload_text e ''root_id'' = None) (gw_events s))))"

definition toActiveWaits :: "gateway \<Rightarrow> wait_row list \<Rightarrow> active_wait list" where
  "toActiveWaits s rows =
    map (\<lambda>w. to_active_wait w
      (case wt_threadRootIds w of
         None \<Rightarrow> None
       | Some roots \<Rightarrow> Some (js_set (roots @ run_roots s rows (wt_createdByRunId w))))) rows"

definition active_wait_row :: "string \<Rightarrow> wait_row \<Rightarrow> bool" where
  "active_wait_row waitId w \<longleftrightarrow> wt_id w = waitId \<and> wt_status w = WActive"

definition resolveWait ::
    "uow \<Rightarrow> string \<Rightarrow> string \<Rightarrow> bool \<Rightarrow> gateway \<Rightarrow> bool \<times> gateway" where
  "resolveWait u waitId eventId timedOut s =
    (case find (active_wait_row waitId) (gw_waits s) of
       None \<Rightarrow> (False, s)
     | Some wait \<Rightarrow>
         let waits = update_where (active_wait_row waitId)
               (\<lambda>w. w\<lparr>wt_status := (if timedOut then WTimedOut else WMatched),
                      wt_matchedEventId := Some eventId, wt_resolvedAt := Some (u_now u)\<rparr>) (gw_waits s)
         in (True, s\<lparr>gw_waits := update_where
               (\<lambda>w. wt_createdByRunId w = wt_createdByRunId wait \<and> wt_status w = WActive \<and> wt_id w \<noteq> waitId)
               (\<lambda>w. w\<lparr>wt_status := WCancelled, wt_resolvedAt := Some (u_now u)\<rparr>) waits\<rparr>))"

definition cancelActiveWaits :: "uow \<Rightarrow> string \<Rightarrow> gateway \<Rightarrow> string list \<times> gateway" where
  "cancelActiveWaits u agentId s =
    (let own = (\<lambda>w. wt_agentId w = agentId \<and> wt_status w = WActive) in
     (map wt_correlationId (filter own (gw_waits s)),
      s\<lparr>gw_waits := update_where own
          (\<lambda>w. w\<lparr>wt_status := WCancelled, wt_resolvedAt := Some (u_now u)\<rparr>) (gw_waits s)\<rparr>))"

fun route_reason_name :: "route_reason \<Rightarrow> string" where
  "route_reason_name WaitMatchedR = ''wait_matched''"
| "route_reason_name WaitTimeoutR = ''wait_timeout''"
| "route_reason_name WaitLostR = ''wait_lost''"
| "route_reason_name TargetR = ''target''"
| "route_reason_name SubscriptionR = ''subscription''"
| "route_reason_name SelfPostR = ''self_post''"
| "route_reason_name ChannelNotAllowedR = ''channel_not_allowed''"
| "route_reason_name AgentDisabledR = ''agent_disabled''"
| "route_reason_name HopLimitR = ''hop_limit''"
| "route_reason_name CascadeLimitR = ''cascade_limit''"
| "route_reason_name RateLimitR = ''rate_limit''"
| "route_reason_name ThreadRateLimitR = ''thread_rate_limit''"
| "route_reason_name DuplicatePayloadR = ''duplicate_payload''"
| "route_reason_name PairwiseLimitR = ''pairwise_limit''"

text \<open>\<open>insert into event_routes\<close>; with \<open>quiet\<close>, a row that is there already is kept.\<close>

definition known_route :: "route_row \<Rightarrow> gateway \<Rightarrow> bool" where
  "known_route r s \<longleftrightarrow>
    list_ex (\<lambda>x. ro_eventId x = ro_eventId r \<and> ro_agentId x = ro_agentId r \<and> ro_decision x = ro_decision r)
      (gw_routes s)"

definition insert_route_quiet :: "route_row \<Rightarrow> gateway \<Rightarrow> gateway" where
  "insert_route_quiet r s = (if known_route r s then s else s\<lparr>gw_routes := gw_routes s @ [r]\<rparr>)"

definition loop_alert :: "uow \<Rightarrow> string \<Rightarrow> string \<Rightarrow> gateway_event \<Rightarrow> string \<Rightarrow> string \<Rightarrow> gateway \<Rightarrow> gateway" where
  "loop_alert u eventId agentId e reason msg s =
    raiseAlert u (''loop:'' @ eventId @ '':'' @ agentId) msg
      [(''event_id'', JStr eventId), (''agent_id'', JStr agentId), (''reason'', JStr reason),
       (''hop'', JNum (int (ev_hop e)))] s"

definition lateMatchAllowed ::
    "uow \<Rightarrow> string \<Rightarrow> gateway_event \<Rightarrow> event_row \<Rightarrow> active_wait \<Rightarrow> gateway \<Rightarrow> bool \<times> gateway" where
  "lateMatchAllowed u agentId e position wait s =
    (case (loadActiveConfig s, find (\<lambda>a. ag_id a = agentId) (loadAgents s)) of
       (Some config, Some agent) \<Rightarrow>
         let guards = loopStats u e position s;
             routes = routeEvent (u_uuid_ok u)
               \<lparr>ri_event = e, ri_agents = [toRoutingAgent agent (loadChannelAccess s)], ri_waits = [wait],
                ri_limits = ac_limits config, ri_stats = fst guards, ri_now = u_now u\<rparr>;
             first = (case routes of [] \<Rightarrow> None | r # _ \<Rightarrow> Some r);
             allowed = (case first of None \<Rightarrow> False | Some r \<Rightarrow> rt_decision r = RWaitMatch);
             row = \<lparr>ro_eventId = er_id position, ro_agentId = agentId,
               ro_decision = (if allowed then RWaitMatch
                              else case first of None \<Rightarrow> RIgnore | Some r \<Rightarrow> rt_decision r),
               ro_reasonCode = (if allowed then ''wait_matched_late''
                                else case first of None \<Rightarrow> ''no_match'' | Some r \<Rightarrow> route_reason_name (rt_reason r)),
               ro_waitId = Some (wait_id wait), ro_cascadeAnchor = snd guards, ro_createdAt = u_now u\<rparr>;
             s1 = insert_route_quiet row s
         in (allowed,
             case first of
               None \<Rightarrow> s1
             | Some r \<Rightarrow>
                 if rt_decision r = RBlocked then
                   loop_alert u (er_id position) agentId e (route_reason_name (rt_reason r))
                     (''Loop guard '' @ quoted (route_reason_name (rt_reason r)) @
                      '' kept a late answer from resuming @'' @ agentId @ '' in '' @
                      quoted (ev_correlationid e) @ ''.'') s1
                 else s1)
     | _ \<Rightarrow> (False, s))"

subsection \<open>Missed answers\<close>

text \<open>The active waits of an agent with the moment their run was queued.\<close>

definition agent_waits :: "gateway \<Rightarrow> string \<Rightarrow> (wait_row \<times> millis) list" where
  "agent_waits s agentId =
    concat (map (\<lambda>w. case find_run s (wt_createdByRunId w) of None \<Rightarrow> [] | Some r \<Rightarrow> [(w, rn_queuedAt r)])
      (filter (\<lambda>w. wt_agentId w = agentId \<and> wt_status w = WActive) (gw_waits s)))"

definition pending_events :: "gateway \<Rightarrow> string \<Rightarrow> string list" where
  "pending_events s agentId =
    map ib_eventId (filter (\<lambda>i. ib_agentId i = agentId \<and> ib_status i = IPending) (gw_inbox s))"

definition missed_candidates :: "gateway \<Rightarrow> string \<Rightarrow> (wait_row \<times> millis) list \<Rightarrow> event_row list" where
  "missed_candidates s agentId waitRows =
    (let since = (case map snd waitRows of [] \<Rightarrow> 0 | t # ts \<Rightarrow> fold min ts t);
         correlations = js_set (map (wt_correlationId \<circ> fst) waitRows) in
     sort_key er_receivedAt (sort_key er_id (filter (\<lambda>e. \<not> er_contentExpired e \<and>
       (er_id e \<in> set (pending_events s agentId) \<or>
        ev_correlationid (er_event e) \<in> set correlations \<and> since \<le> er_receivedAt e)) (gw_events s))))"

definition already_seen :: "gateway \<Rightarrow> string \<Rightarrow> event_row \<Rightarrow> bool" where
  "already_seen s agentId e \<longleftrightarrow>
    list_ex (\<lambda>i. ib_agentId i = agentId \<and> ib_status i \<noteq> IPending \<and> ib_eventId i = er_id e) (gw_inbox s) \<or>
    list_ex (\<lambda>r. ro_agentId r = agentId \<and> (ro_decision r = RBlocked \<or> ro_decision r = RIgnore) \<and>
      ro_eventId r = er_id e) (gw_routes s)"

definition answer_hidden ::
    "string list \<Rightarrow> string list \<Rightarrow> (string \<times> millis) list \<Rightarrow> gateway_event \<Rightarrow> bool" where
  "answer_hidden deleted allowed floors e \<longleftrightarrow>
    (case mattermostPost e of
       None \<Rightarrow> False
     | Some post \<Rightarrow>
         post_id post \<in> set deleted \<or> channel_id post \<notin> set allowed \<or>
         (case map_of floors (channel_id post) of None \<Rightarrow> False | Some f \<Rightarrow> ev_time e \<le> f))"

text \<open>\<open>insert into agent_inbox ... on conflict (agent_id, event_id) do update\<close>.\<close>

definition resume_entry :: "uow \<Rightarrow> string \<Rightarrow> string \<Rightarrow> string \<Rightarrow> gateway \<Rightarrow> gateway" where
  "resume_entry u agentId eventId waitId s =
    (let key = (\<lambda>i. ib_agentId i = agentId \<and> ib_eventId i = eventId) in
     if list_ex key (gw_inbox s)
     then s\<lparr>gw_inbox := update_where key
            (\<lambda>i. i\<lparr>ib_waitId := Some waitId, ib_priority := WAIT_PRIORITY\<rparr>) (gw_inbox s)\<rparr>
     else s\<lparr>gw_inbox := gw_inbox s @
            [\<lparr>ib_id = fresh_id u s, ib_agentId = agentId, ib_eventId = eventId, ib_status = IPending,
              ib_priority = WAIT_PRIORITY, ib_runId = None, ib_waitId = Some waitId, ib_createdAt = u_now u\<rparr>],
            gw_ids := Suc (gw_ids s)\<rparr>)"

text \<open>The loop over the candidates: \<open>waits\<close>, \<open>routed\<close>, \<open>seen\<close> and \<open>deleted\<close> were read before it.\<close>

fun missed_loop ::
    "uow \<Rightarrow> string \<Rightarrow> active_wait list \<Rightarrow> string list \<Rightarrow> (event_row \<Rightarrow> bool) \<Rightarrow> (gateway_event \<Rightarrow> bool) \<Rightarrow>
     event_row list \<Rightarrow> gateway \<Rightarrow> bool \<times> gateway" where
  "missed_loop u agentId waits routed seen hidden [] s = (False, s)"
| "missed_loop u agentId waits routed seen hidden (row # rows) s =
    (if seen row \<or> hidden (er_event row) then missed_loop u agentId waits routed seen hidden rows s
     else case find (\<lambda>w. waitMatches w (er_event row) (u_now u)) waits of
       None \<Rightarrow> missed_loop u agentId waits routed seen hidden rows s
     | Some wait \<Rightarrow>
         let (allowed, s1) =
           (if er_id row \<in> set routed then (True, s)
            else lateMatchAllowed u agentId (er_event row) row wait s)
         in if \<not> allowed then missed_loop u agentId waits routed seen hidden rows s1
            else let (resolved, s2) = resolveWait u (wait_id wait) (er_id row) False s1
                 in if \<not> resolved then missed_loop u agentId waits routed seen hidden rows s2
                    else (True, resume_entry u agentId (er_id row) (wait_id wait) s2))"

definition matchMissedAnswers ::
    "uow \<Rightarrow> string \<Rightarrow> string list \<Rightarrow> (string \<times> millis) list \<Rightarrow> gateway \<Rightarrow> bool \<times> gateway" where
  "matchMissedAnswers u agentId allowed floors s =
    (let waitRows = agent_waits s agentId in
     if waitRows = [] then (False, s)
     else
       let waits = toActiveWaits s (map fst waitRows);
           candidates = missed_candidates s agentId waitRows;
           deleted = deletedPosts s (map er_event candidates)
       in if candidates = [] then (False, s)
          else missed_loop u agentId waits (pending_events s agentId) (already_seen s agentId)
                 (answer_hidden deleted allowed floors) candidates s)"

end
