(* ===== verification/Scheduler.thy ===== *)
theory Scheduler
  imports Wait_Store
begin

text \<open>
  Starting runs, \<open>packages/core/src/services/scheduler.ts\<close>: \<open>scheduleAgent\<close> with every gate before it
  claims work, the enqueueing of an attempt with its session offer and deadline checks, and the budget
  gate \<open>budgetHoldFor\<close> of \<open>budgets.ts\<close>. A UTC day is written by its number in an alert key.

  The content of a turn is assembled by other parts (\<open>withCurrentPosts\<close>, \<open>previousRun\<close>,
  \<open>assembleTurnContext\<close>, \<open>loadSystemStatus\<close>, \<open>loadEffectivePermissionsIn\<close>, \<open>buildTurnContext\<close>), which read
  the state and change nothing: they are the parameter \<open>td_build\<close>, the reason of a failure or the input,
  authority and thread of the turn. \<open>td_inputBytes\<close> is the size of a serialised input.

  The properties: an agent gets a run only from a state that may start one, only with pending work, never
  under the kill switch, a spent budget or an unready lifecycle; and a skipped call starts nothing.
\<close>

record turn_deps =
  td_build :: "gateway \<Rightarrow> agent_row \<Rightarrow> event_row list \<Rightarrow> wait_row list \<Rightarrow> string \<Rightarrow>
    string + (turn_input \<times> turn_authority_context \<times> thread_ref option)"
  td_inputBytes :: "turn_input \<Rightarrow> nat"

definition MAX_RUN_ATTEMPTS :: nat where "MAX_RUN_ATTEMPTS = 3"
definition MAX_COALESCED_EVENTS :: nat where "MAX_COALESCED_EVENTS = 20"
definition MAX_JOB_EXPIRATION_SECONDS :: nat where "MAX_JOB_EXPIRATION_SECONDS = 86400"
definition TIMEOUT_GRACE_SECONDS :: nat where "TIMEOUT_GRACE_SECONDS = 30"
definition MAX_TURN_INPUT_BYTES :: nat where "MAX_TURN_INPUT_BYTES = 2 * 1024 * 1024"

definition hourlyQuotaReached :: "uow \<Rightarrow> string \<Rightarrow> gateway \<Rightarrow> bool" where
  "hourlyQuotaReached u agentId s =
    (case loadActiveConfig s of
       None \<Rightarrow> False
     | Some config \<Rightarrow>
         max_runs_per_agent_per_hour (ac_limits config) \<le>
         length (filter (\<lambda>r. rn_agentId r = agentId \<and> u_now u - 3600000 < rn_queuedAt r) (gw_runs s)))"

definition budgetHoldFor ::
    "uow \<Rightarrow> string \<Rightarrow> gateway \<Rightarrow> (budget_scope \<times> budget_reason) option \<times> gateway" where
  "budgetHoldFor u agentId s =
    (case Option.bind (loadActiveConfig s) ac_budgets of
       None \<Rightarrow> (None, s)
     | Some budgets \<Rightarrow>
         let day = utcDay (u_now u);
             hold = budgetHold (Some budgets) (totals day (Some agentId) (gw_usage s))
                      (totals day None (gw_usage s))
         in (hold,
             case hold of
               None \<Rightarrow> s
             | Some (scope, reason) \<Rightarrow>
                 raiseAlert u
                   (''budget:'' @ (if scope = ScopeGlobal then ''global'' else ''agent:'' @ agentId) @ '':'' @ show_int day)
                   ((if scope = ScopeGlobal then ''No agent starts a run until the end of ''
                     else CHR ''@'' # agentId @ '' starts no run until the end of '') @
                    show_int day @ '' (UTC): '' @ u_budget_text u reason @ ''.'')
                   [(''day'', JStr (show_int day)),
                    (''scope'', JStr (if scope = ScopeGlobal then ''global'' else ''agent''))] s))"

subsection \<open>Sessions and attempts\<close>

definition sessionScope :: "string \<Rightarrow> turn_input \<Rightarrow> string" where
  "sessionScope configVersion input =
    canonicalJson (JArr [JStr configVersion,
      JArr (map JStr (sort (js_set (map ev_correlationid (ti_trigger input # ti_pendingInbox input))))),
      JArr (map JStr (sort (js_set (ti_channels input))))])"

definition RuntimeSessionHandleSchema :: "session_handle \<Rightarrow> bool" where
  "RuntimeSessionHandleSchema h \<longleftrightarrow>
    1 \<le> length (sh_providerSessionId h) \<and> length (sh_providerSessionId h) \<le> 512 \<and>
    1 \<le> length (sh_runtimeVersion h) \<and> length (sh_runtimeVersion h) \<le> 128"

definition storedSession ::
    "uow \<Rightarrow> string \<Rightarrow> runtime_adapter_id \<Rightarrow> string \<Rightarrow> gateway \<Rightarrow> session_handle option" where
  "storedSession u agentId adapter scope s =
    (case find (\<lambda>r. se_agentId r = agentId \<and> se_adapter r = adapter \<and> se_active r \<and>
            (case se_expiresAt r of None \<Rightarrow> True | Some t \<Rightarrow> u_now u < t)) (gw_sessions s) of
       None \<Rightarrow> None
     | Some row \<Rightarrow>
         let handle = \<lparr>sh_adapter = se_adapter row, sh_providerSessionId = se_providerSessionRef row,
               sh_runtimeVersion = se_runtimeVersion row, sh_expiresAt = se_expiresAt row\<rparr>
         in if se_scope row \<noteq> scope \<or> \<not> RuntimeSessionHandleSchema handle then None else Some handle)"

record attempt_init =
  ai_runId :: string
  ai_attempt :: nat
  ai_adapter :: runtime_adapter_id
  ai_agentId :: string
  ai_model :: "string option"
  ai_sessionPolicy :: session_policy
  ai_sessionScope :: string
  ai_input :: turn_input
  ai_timeoutSeconds :: nat
  ai_startAfter :: "millis option"

definition enqueueAttempt :: "uow \<Rightarrow> attempt_init \<Rightarrow> gateway \<Rightarrow> gateway" where
  "enqueueAttempt u init s =
    (let start = (case ai_startAfter init of None \<Rightarrow> u_now u | Some t \<Rightarrow> t);
         runtime = \<lparr>rr_model = ai_model init, rr_sessionPolicy = ai_sessionPolicy init,
           rr_session = (if ai_sessionPolicy init = ResumableIfAvailable
             then storedSession u (ai_agentId init) (ai_adapter init) (ai_sessionScope init) s else None)\<rparr>;
         jobId = fresh_id u s;
         s1 = send_job u (RunJob (ai_adapter init) (ai_runId init) (ai_attempt init) (ai_timeoutSeconds init)
                runtime (ai_input init) (ai_startAfter init)
                (min MAX_JOB_EXPIRATION_SECONDS (ai_timeoutSeconds init + 60))) s;
         s2 = s1\<lparr>gw_runs := update_where (\<lambda>r. rn_id r = ai_runId init)
                (\<lambda>r. r\<lparr>rn_jobId := Some jobId\<rparr>) (gw_runs s1)\<rparr>
     in send_job u (AgentTimeoutJob (ai_runId init) (ai_attempt init)
          (start + int (ai_timeoutSeconds init + TIMEOUT_GRACE_SECONDS) * 1000)) s2)"

definition enqueueRunDeadline :: "uow \<Rightarrow> string \<Rightarrow> nat \<Rightarrow> millis \<Rightarrow> gateway \<Rightarrow> gateway" where
  "enqueueRunDeadline u runId attempt deadline s =
    send_job u (AgentTimeoutJob runId attempt (deadline + int TIMEOUT_GRACE_SECONDS * 1000)) s"

subsection \<open>Scheduling\<close>

datatype schedule_result = Scheduled string | Skipped string

record redrive =
  rd_runId :: string
  rd_triggerEventId :: string

text \<open>The transition a run of this agent starts with, if its state allows one.\<close>

definition schedule_transition :: "agent_state \<Rightarrow> redrive option \<Rightarrow> agent_transition option" where
  "schedule_transition state rd =
    (if state = Idle then Some Schedule
     else if state = Waiting then Some WaitResolved
     else if state = Failed \<and> rd \<noteq> None then Some Redrive
     else None)"

fun lifecycle_name :: "lifecycle_status \<Rightarrow> string" where
  "lifecycle_name LPending = ''pending''"
| "lifecycle_name LReconciling = ''reconciling''"
| "lifecycle_name LReady = ''ready''"
| "lifecycle_name LFailed = ''failed''"
| "lifecycle_name LRetiring = ''retiring''"
| "lifecycle_name LRetired = ''retired''"

text \<open>Pending entries with their events, by priority, then age, then id.\<close>

definition pendingRows ::
    "gateway \<Rightarrow> string \<Rightarrow> (inbox_row \<Rightarrow> bool) \<Rightarrow> nat \<Rightarrow> (inbox_row \<times> event_row) list" where
  "pendingRows s agentId condition limit =
    take limit (sort_key (\<lambda>p. - int (ib_priority (fst p))) (sort_key (ib_createdAt \<circ> fst) (sort_key (ib_id \<circ> fst)
      (concat (map (\<lambda>i. case find_event s (ib_eventId i) of None \<Rightarrow> [] | Some e \<Rightarrow> [(i, e)])
        (filter (\<lambda>i. ib_agentId i = agentId \<and> ib_status i = IPending \<and> condition i) (gw_inbox s)))))))"

definition trigger_condition :: "agent_state \<Rightarrow> redrive option \<Rightarrow> inbox_row \<Rightarrow> bool" where
  "trigger_condition state rd i \<longleftrightarrow>
    (case rd of
       Some r \<Rightarrow> ib_eventId i = rd_triggerEventId r
     | None \<Rightarrow> if state = Waiting then ib_waitId i \<noteq> None else True)"

text \<open>Stale entries are retired and missed answers matched, before any claim.\<close>

definition refresh_inbox ::
    "uow \<Rightarrow> agent_row \<Rightarrow> channel_access \<Rightarrow> gateway \<Rightarrow> gateway" where
  "refresh_inbox u agent access s =
    (if named access = [] then s
     else
       let allowed = agentChannelIds (agent_channels_of agent) access;
           floors = agentChannelFloors (agent_channels_of agent) access;
           (dropped, s1) = retireInbox (ag_id agent) allowed floors s;
           s2 = (if dropped \<noteq> []
                 then audit u ''system'' ''inbox.dropped'' ''agent'' (ag_id agent)
                   [(''reason'', JStr ''deleted post or channel no longer allowed''),
                    (''event_ids'', JArr (map JStr (take 50 dropped)))] s1
                 else s1)
       in if ag_state agent = Waiting then snd (matchMissedAnswers u (ag_id agent) allowed floors s2) else s2)"

definition new_run ::
    "uow \<Rightarrow> agent_row \<Rightarrow> redrive option \<Rightarrow> event_row \<Rightarrow> turn_input \<Rightarrow> string \<Rightarrow> gateway \<Rightarrow> run_row" where
  "new_run u agent rd trigger input runId s =
    (let generation = length (filter (\<lambda>r. rn_agentId r = ag_id agent \<and> rn_triggerEventId r = er_id trigger) (gw_runs s))
     in \<lparr>rn_id = runId, rn_agentId = ag_id agent, rn_triggerEventId = er_id trigger,
      rn_idempotencyKey = ''agent-run:'' @ ag_id agent @ '':'' @ er_id trigger @ '':'' @ show_nat generation,
      rn_status = RQueued, rn_attempt = 1, rn_maxAttempts = MAX_RUN_ATTEMPTS,
      rn_runtimeAdapter = cfg_adapter (ag_config agent), rn_runtimeVersion = None,
      rn_model = cfg_model (ag_config agent), rn_correlationId = ev_correlationid (er_event trigger),
      rn_hop = ev_hop (er_event trigger), rn_queuedAt = u_now u, rn_startedAt = None, rn_finishedAt = None,
      rn_timeoutAt = ti_deadline input, rn_timeoutSeconds = cfg_timeout_seconds (ag_config agent),
      rn_outcome = None, rn_errorCode = None, rn_errorDetail = None, rn_usage = None, rn_publicSummary = None,
      rn_result = None, rn_parentRunId = map_option rd_runId rd, rn_jobId = None\<rparr>)"

definition in_progress :: "run_row \<Rightarrow> bool" where
  "in_progress r \<longleftrightarrow> rn_status r = RQueued \<or> rn_status r = RRunning"

text \<open>\<open>insert into agent_runs\<close> under its unique indexes: the idempotency key, and one active run per
  agent (\<open>agent_runs_one_active\<close>).\<close>

definition insert_run :: "run_row \<Rightarrow> gateway \<Rightarrow> gateway_error + gateway" where
  "insert_run r s =
    (if list_ex (\<lambda>x. rn_idempotencyKey x = rn_idempotencyKey r) (gw_runs s)
     then Inl (UniqueViolation ''agent_runs_idempotency_key_unique'')
     else if in_progress r \<and> list_ex (\<lambda>x. rn_agentId x = rn_agentId r \<and> in_progress x) (gw_runs s)
     then Inl (UniqueViolation ''agent_runs_one_active'')
     else Inr (s\<lparr>gw_runs := gw_runs s @ [r]\<rparr>))"

definition claim_inbox :: "string list \<Rightarrow> string \<Rightarrow> gateway \<Rightarrow> gateway" where
  "claim_inbox ids runId s =
    s\<lparr>gw_inbox := update_where (\<lambda>i. ib_id i \<in> set ids)
        (\<lambda>i. i\<lparr>ib_status := IClaimed, ib_runId := Some runId\<rparr>) (gw_inbox s)\<rparr>"

text \<open>The writes of a started run: run, snapshot, claimed entries, agent state, attempt, audit.\<close>

definition start_run ::
    "uow \<Rightarrow> turn_deps \<Rightarrow> agent_row \<Rightarrow> redrive option \<Rightarrow> agent_transition \<Rightarrow> (inbox_row \<times> event_row) list \<Rightarrow>
     event_row \<Rightarrow> turn_input \<Rightarrow> turn_authority_context \<Rightarrow> thread_ref option \<Rightarrow> string \<Rightarrow> gateway \<Rightarrow>
     schedule_result uow_result" where
  "start_run u td agent rd transition claimed trigger input authority threadRef runId s =
    (case insert_run (new_run u agent rd trigger input runId s) (s\<lparr>gw_ids := Suc (gw_ids s)\<rparr>) of
       Inl e \<Rightarrow> Inl e
     | Inr s1 \<Rightarrow>
         (case requireTransition (ag_id agent) (ag_state agent) transition of
            Inl e \<Rightarrow> Inl (TransitionRefused e)
          | Inr next \<Rightarrow>
              let s2 = s1\<lparr>gw_snapshots := gw_snapshots s1 @
                    [\<lparr>sn_runId = runId, sn_agentId = ag_id agent, sn_configVersion = ag_configVersion agent,
                      sn_threadRef = map_option formatThreadRef threadRef, sn_input = input,
                      sn_authority = authority, sn_sizeBytes = td_inputBytes td input\<rparr>]\<rparr>;
                  s3 = claim_inbox (map (ib_id \<circ> fst) claimed) runId s2;
                  s4 = setAgentState u (ag_id agent) (ag_state agent) next (''run '' @ runId) s3;
                  s5 = enqueueAttempt u
                    \<lparr>ai_runId = runId, ai_attempt = 1, ai_adapter = cfg_adapter (ag_config agent),
                     ai_agentId = ag_id agent, ai_model = cfg_model (ag_config agent),
                     ai_sessionPolicy = cfg_session_policy (ag_config agent),
                     ai_sessionScope = sessionScope (ag_configVersion agent) input, ai_input = input,
                     ai_timeoutSeconds = cfg_timeout_seconds (ag_config agent), ai_startAfter = None\<rparr> s4;
                  s6 = audit u ''system'' ''run.scheduled'' ''run'' runId
                    [(''agent_id'', JStr (ag_id agent)), (''trigger_event_id'', JStr (er_id trigger)),
                     (''inbox_events'', JNum (int (length claimed))),
                     (''redrive_of'', json_option (map_option rd_runId rd))] s5
              in Inr (Scheduled runId, s6)))"

definition context_unavailable ::
    "uow \<Rightarrow> string \<Rightarrow> string \<Rightarrow> string \<Rightarrow> gateway \<Rightarrow> schedule_result uow_result" where
  "context_unavailable u agentId eventId reason s =
    Inr (Skipped ''context_unavailable'',
         raiseAlert u (''context:'' @ agentId @ '':'' @ eventId)
           (''Cannot start a run of @'' @ agentId @ '': '' @ reason) [] s)"

text \<open>From the claimed rows on: the resolved waits, the turn, its size, the run.\<close>

definition build_and_start ::
    "uow \<Rightarrow> turn_deps \<Rightarrow> agent_row \<Rightarrow> redrive option \<Rightarrow> agent_transition \<Rightarrow> (inbox_row \<times> event_row) list \<Rightarrow>
     event_row \<Rightarrow> gateway \<Rightarrow> schedule_result uow_result" where
  "build_and_start u td agent rd transition claimed trigger s =
    (if loadActiveConfig s = None then Inr (Skipped ''no_active_config'', s)
     else
       let waitIds = concat (map (\<lambda>p. case ib_waitId (fst p) of None \<Rightarrow> [] | Some w \<Rightarrow> [w]) claimed);
           resolved = filter (\<lambda>w. wt_id w \<in> set waitIds) (gw_waits s);
           runId = fresh_id u s
       in case td_build td s agent (map snd claimed) resolved runId of
            Inl reason \<Rightarrow> context_unavailable u (ag_id agent) (er_id trigger) reason s
          | Inr (input, authority, threadRef) \<Rightarrow>
              if MAX_TURN_INPUT_BYTES < td_inputBytes td input
              then context_unavailable u (ag_id agent) (er_id trigger)
                (''its turn input is '' @ show_nat (td_inputBytes td input) @ '' bytes, over the limit of '' @
                 show_nat MAX_TURN_INPUT_BYTES @ ''.'') s
              else start_run u td agent rd transition claimed trigger input authority threadRef runId s)"

text \<open>The gates of an agent that is known and ready.\<close>

definition schedule_ready ::
    "uow \<Rightarrow> turn_deps \<Rightarrow> agent_row \<Rightarrow> redrive option \<Rightarrow> gateway \<Rightarrow> schedule_result uow_result" where
  "schedule_ready u td agent rd s =
    (case schedule_transition (ag_state agent) rd of
       None \<Rightarrow> Inr (Skipped (''state_'' @ agent_state_name (ag_state agent)), s)
     | Some transition \<Rightarrow>
         if isKillSwitchOn s then Inr (Skipped ''kill_switch'', s)
         else
           let s1 = refresh_inbox u agent (loadChannelAccess s) s in
           if rd = None \<and> hourlyQuotaReached u (ag_id agent) s1 then Inr (Skipped ''rate_limited'', s1)
           else case pendingRows s1 (ag_id agent) (trigger_condition (ag_state agent) rd) 1 of
             [] \<Rightarrow> Inr (Skipped ''nothing_pending'', s1)
           | (i, e) # _ \<Rightarrow>
               (case budgetHoldFor u (ag_id agent) s1 of
                  (Some _, s2) \<Rightarrow> Inr (Skipped ''budget_hold'', s2)
                | (None, s2) \<Rightarrow>
                    let others =
                      (if cfg_while_running (ag_config agent) = EnqueueAndCoalesce
                       then pendingRows s2 (ag_id agent) (\<lambda>j. ib_id j \<noteq> ib_id i) (MAX_COALESCED_EVENTS - 1)
                       else [])
                    in build_and_start u td agent rd transition ((i, e) # others) e s2))"

definition scheduleAgent ::
    "uow \<Rightarrow> turn_deps \<Rightarrow> string \<Rightarrow> redrive option \<Rightarrow> gateway \<Rightarrow> schedule_result uow_result" where
  "scheduleAgent u td agentId rd s =
    (case lockAgent s agentId of
       None \<Rightarrow> Inr (Skipped ''unknown_agent'', s)
     | Some agent \<Rightarrow>
         case loadAgentLifecycleStatus s agentId of
           Some status \<Rightarrow>
             if status \<noteq> LReady then Inr (Skipped (''lifecycle_'' @ lifecycle_name status), s)
             else schedule_ready u td agent rd s
         | None \<Rightarrow> schedule_ready u td agent rd s)"

text \<open>\<open>sweepSchedules\<close>: every agent with startable pending work is scheduled in a transaction of its own,
  with its own unit of work; an error ends the sweep and keeps what was committed.\<close>

definition sweep_candidates :: "gateway \<Rightarrow> string list" where
  "sweep_candidates s =
    sort (js_set (map ib_agentId (filter (\<lambda>i. ib_status i = IPending \<and>
      (case lockAgent s (ib_agentId i) of
         None \<Rightarrow> False
       | Some a \<Rightarrow> ag_state a = Idle \<or> (ag_state a = Waiting \<and> ib_waitId i \<noteq> None))) (gw_inbox s))))"

fun sweep_loop ::
    "(string \<Rightarrow> uow) \<Rightarrow> turn_deps \<Rightarrow> string list \<Rightarrow> nat \<Rightarrow> gateway \<Rightarrow> (gateway_error + nat) \<times> gateway" where
  "sweep_loop us td [] started s = (Inr started, s)"
| "sweep_loop us td (i # ids) started s =
    (case withTransaction (scheduleAgent (us i) td i None s) s of
       (Inl e, s1) \<Rightarrow> (Inl e, s1)
     | (Inr (Scheduled _), s1) \<Rightarrow> sweep_loop us td ids (started + 1) s1
     | (Inr (Skipped _), s1) \<Rightarrow> sweep_loop us td ids started s1)"

definition sweepSchedules :: "(string \<Rightarrow> uow) \<Rightarrow> turn_deps \<Rightarrow> gateway \<Rightarrow> (gateway_error + nat) \<times> gateway" where
  "sweepSchedules us td s = sweep_loop us td (sweep_candidates s) 0 s"

end
