(* ===== verification/Thread_Summary.thy ===== *)
theory Thread_Summary
  imports Gateway_Store
begin

text \<open>
  The durable summary of a thread, \<open>packages/context/src/summary.ts\<close>: the entry a run leaves and the merge
  into the thread's history, which keeps the newest runs whole and compacts the older ones into
  attributed lines. Cutting a text (\<open>truncate\<close>, whose mark is outside Latin-1) is the argument \<open>shorten\<close>.

  The properties: whatever was merged, at most eight runs are whole and at most twenty-four lines of each
  kind are kept, no run is merged twice, and no run is lost from the count.
\<close>

definition MAX_SUMMARY_ENTRIES :: nat where "MAX_SUMMARY_ENTRIES = 8"
definition MAX_EARLIER_LINES :: nat where "MAX_EARLIER_LINES = 24"
definition MAX_LINE_CHARS :: nat where "MAX_LINE_CHARS = 300"

definition EMPTY_THREAD_SUMMARY :: thread_summary where
  "EMPTY_THREAD_SUMMARY = \<lparr>ts_entries = [], ts_decisions = [], ts_done = [], ts_compactedRuns = 0\<rparr>"

definition threadSummaryEntry ::
    "(string \<Rightarrow> nat \<Rightarrow> string) \<Rightarrow> string \<Rightarrow> string \<Rightarrow> millis \<Rightarrow> working_summary \<Rightarrow> thread_summary_entry" where
  "threadSummaryEntry shorten runId agentId now summary =
    (let short_lines = map (\<lambda>item. shorten item MAX_LINE_CHARS) in
     \<lparr>te_runId = runId, te_agentId = agentId, te_at = now, te_assigned = shorten (ws_assigned summary) MAX_LINE_CHARS,
      te_facts = short_lines (ws_facts summary), te_done = short_lines (ws_done summary),
      te_decisions = short_lines (ws_decisions summary), te_remaining = short_lines (ws_remaining summary),
      te_waitingFor = short_lines (ws_waitingFor summary), te_risks = short_lines (ws_risks summary)\<rparr>)"

text \<open>\<open>items.slice(-MAX_EARLIER_LINES)\<close>.\<close>

definition keepNewest :: "string list \<Rightarrow> string list" where
  "keepNewest items = drop (length items - MAX_EARLIER_LINES) items"

definition attributed :: "thread_summary_entry \<Rightarrow> string list \<Rightarrow> string list" where
  "attributed e items = map (\<lambda>d. CHR ''@'' # te_agentId e @ '': '' @ d) items"

text \<open>The loop: the oldest entries move into the compacted lines until few enough are whole.\<close>

fun compact_oldest ::
    "thread_summary_entry list \<Rightarrow> string list \<Rightarrow> string list \<Rightarrow> nat \<Rightarrow> thread_summary" where
  "compact_oldest [] decisions done' n =
    \<lparr>ts_entries = [], ts_decisions = decisions, ts_done = done', ts_compactedRuns = n\<rparr>"
| "compact_oldest (oldest # entries) decisions done' n =
    (if MAX_SUMMARY_ENTRIES < length (oldest # entries)
     then compact_oldest entries (keepNewest (decisions @ attributed oldest (te_decisions oldest)))
            (keepNewest (done' @ attributed oldest (te_done oldest))) (n + 1)
     else \<lparr>ts_entries = oldest # entries, ts_decisions = decisions, ts_done = done', ts_compactedRuns = n\<rparr>)"

definition mergeThreadSummary :: "thread_summary option \<Rightarrow> thread_summary_entry \<Rightarrow> thread_summary" where
  "mergeThreadSummary previous e =
    (let base = (case previous of None \<Rightarrow> EMPTY_THREAD_SUMMARY | Some p \<Rightarrow> p) in
     if list_ex (\<lambda>known. te_runId known = te_runId e) (ts_entries base) then base
     else compact_oldest (ts_entries base @ [e]) (ts_decisions base) (ts_done base) (ts_compactedRuns base))"

subsection \<open>Lemmas\<close>

definition summary_wf :: "thread_summary \<Rightarrow> bool" where
  "summary_wf t \<longleftrightarrow>
    length (ts_entries t) \<le> MAX_SUMMARY_ENTRIES \<and> length (ts_decisions t) \<le> MAX_EARLIER_LINES \<and>
    length (ts_done t) \<le> MAX_EARLIER_LINES \<and> distinct (map te_runId (ts_entries t))"

lemma keepNewest_length: "length (keepNewest items) \<le> MAX_EARLIER_LINES"
  by (simp add: keepNewest_def)

lemma compact_oldest_suffix: "\<exists>dropped. entries = dropped @ ts_entries (compact_oldest entries d e n)"
proof (induction entries arbitrary: d e n)
  case (Cons x entries)
  show ?case
  proof (cases "MAX_SUMMARY_ENTRIES < length (x # entries)")
    case True
    with Cons obtain dropped where "entries = dropped @ ts_entries (compact_oldest (x # entries) d e n)"
      by (metis compact_oldest.simps(2))
    then show ?thesis by (metis append_Cons)
  next
    case False
    then show ?thesis by simp
  qed
qed simp

lemma compact_oldest_bounds:
  assumes "length d \<le> MAX_EARLIER_LINES" and "length e \<le> MAX_EARLIER_LINES"
  shows "length (ts_entries (compact_oldest entries d e n)) \<le> MAX_SUMMARY_ENTRIES"
    and "length (ts_decisions (compact_oldest entries d e n)) \<le> MAX_EARLIER_LINES"
    and "length (ts_done (compact_oldest entries d e n)) \<le> MAX_EARLIER_LINES"
  using assms by (induction entries arbitrary: d e n) (simp_all add: keepNewest_length)

lemma compact_oldest_count:
  "length (ts_entries (compact_oldest entries d e n)) + ts_compactedRuns (compact_oldest entries d e n)
    = length entries + n"
  by (induction entries arbitrary: d e n) auto

lemma compact_oldest_last:
  "entries \<noteq> [] \<Longrightarrow> last entries \<in> set (ts_entries (compact_oldest entries d e n))"
proof (induction entries arbitrary: d e n)
  case (Cons x entries)
  then show ?case by (cases "entries = []") (auto simp: MAX_SUMMARY_ENTRIES_def)
qed simp

subsection \<open>Properties\<close>

text \<open>C40: the thread summary stays within its budget and loses no run silently. Merging a run into a
  well-formed summary keeps it well formed (at most eight whole runs, at most 24 compacted lines of each
  kind, no run twice); the new run is there whole; one more run is accounted for; and merging the same
  run again changes nothing.\<close>

theorem thread_summary_bounded:
  assumes "summary_wf t" and "\<not> list_ex (\<lambda>known. te_runId known = te_runId e) (ts_entries t)"
  shows "summary_wf (mergeThreadSummary (Some t) e) \<and>
    e \<in> set (ts_entries (mergeThreadSummary (Some t) e)) \<and>
    length (ts_entries (mergeThreadSummary (Some t) e)) + ts_compactedRuns (mergeThreadSummary (Some t) e) =
      length (ts_entries t) + ts_compactedRuns t + 1 \<and>
    mergeThreadSummary (Some (mergeThreadSummary (Some t) e)) e = mergeThreadSummary (Some t) e"
proof -
  let ?c = "compact_oldest (ts_entries t @ [e]) (ts_decisions t) (ts_done t) (ts_compactedRuns t)"
  have m: "mergeThreadSummary (Some t) e = ?c"
    using assms(2) by (simp add: mergeThreadSummary_def)
  have wf: "length (ts_decisions t) \<le> MAX_EARLIER_LINES" "length (ts_done t) \<le> MAX_EARLIER_LINES"
    "distinct (map te_runId (ts_entries t @ [e]))"
    using assms by (auto simp: summary_wf_def list_ex_iff)
  obtain dropped where "ts_entries t @ [e] = dropped @ ts_entries ?c" using compact_oldest_suffix by blast
  with wf(3) have "distinct (map te_runId (ts_entries ?c))" by (metis distinct_append map_append)
  with compact_oldest_bounds [OF wf(1,2)] have w: "summary_wf ?c" by (simp add: summary_wf_def)
  have e: "e \<in> set (ts_entries ?c)" using compact_oldest_last [of "ts_entries t @ [e]"] by simp
  then have "mergeThreadSummary (Some ?c) e = ?c" by (auto simp: mergeThreadSummary_def list_ex_iff Let_def)
  with m w e compact_oldest_count [of "ts_entries t @ [e]" "ts_decisions t" "ts_done t" "ts_compactedRuns t"]
  show ?thesis by simp
qed

definition example_entry :: thread_summary_entry where
  "example_entry = \<lparr>te_runId = ''r1'', te_agentId = ''developer'', te_at = 0, te_assigned = ''fix it'',
    te_facts = [], te_done = [''done''], te_decisions = [], te_remaining = [], te_waitingFor = [], te_risks = []\<rparr>"

theorem thread_summary_bounded_witness:
  "example_entry \<in> set (ts_entries (mergeThreadSummary (Some EMPTY_THREAD_SUMMARY) example_entry))"
proof -
  have w: "summary_wf EMPTY_THREAD_SUMMARY"
    and n: "\<not> list_ex (\<lambda>known. te_runId known = te_runId example_entry) (ts_entries EMPTY_THREAD_SUMMARY)"
    by (simp_all add: summary_wf_def EMPTY_THREAD_SUMMARY_def)
  show ?thesis using thread_summary_bounded [OF w n] by blast
qed

end
