(* ===== verification/Runs.thy ===== *)
theory Runs
  imports Scheduler Thread_Summary
begin

text \<open>
  What happens to a run, \<open>packages/core/src/services/runs.ts\<close>: a worker's report, the deadline backstop
  and a lost attempt, with the failure path (retry, deferral by the budget, failure), the completion path
  (validation, authority and scope, approval, publication, next state) and everything they write.

  Parameters: the Zod parse of a turn result, of usage and of an approval card, the custom-tool services
  (\<open>prepareCustomApprovalDraft\<close>, \<open>customApprovalRequestPreview\<close>), \<open>fitApprovalCard\<close> and \<open>truncate\<close>.
\<close>

record completion_deps =
  cp_parse :: "json \<Rightarrow> string list + agent_turn_result"
  cp_parseUsage :: "json option \<Rightarrow> runtime_usage option"
  cp_prepareCustomDraft :: "gateway \<Rightarrow> string \<Rightarrow> approval_draft \<Rightarrow> string list + approval_draft"
  cp_customPreview :: "gateway \<Rightarrow> approval_draft \<Rightarrow> string list + string option"
  cp_fitApprovalCard :: "approval_card \<Rightarrow> string \<Rightarrow> bool"
  cp_cardIssues :: "approval_card \<Rightarrow> string list"
  cp_truncate :: "string \<Rightarrow> nat \<Rightarrow> string"

subsection \<open>Reports\<close>

datatype run_error_code =
  ETimeout | ECancelled | EInvalidOutput | ERuntimeRetryable | ERuntimePermanent | EInvalidJob

fun error_code_name :: "run_error_code \<Rightarrow> string" where
  "error_code_name ETimeout = ''timeout''"
| "error_code_name ECancelled = ''cancelled''"
| "error_code_name EInvalidOutput = ''invalid_output''"
| "error_code_name ERuntimeRetryable = ''runtime_retryable''"
| "error_code_name ERuntimePermanent = ''runtime_permanent''"
| "error_code_name EInvalidJob = ''invalid_job''"

record run_error =
  re_code :: run_error_code
  re_retryable :: bool
  re_detail :: string

datatype report_body = ReportStarted | ReportCompleted json | ReportFailed run_error "runtime_usage option"

record run_report =
  rp_runId :: string
  rp_attempt :: nat
  rp_agentId :: string
  rp_runtimeVersion :: string
  rp_body :: report_body

datatype report_outcome =
    RepStarted | RepCompleted | RepRetryScheduled | RepDeferred | RepFailed
  | RepIgnoredStale | RepIgnoredUnknown | RepIgnoredRetired

definition inProgress :: "run_row \<Rightarrow> bool" where
  "inProgress run = in_progress run"

definition lockRun :: "gateway \<Rightarrow> string \<Rightarrow> string option \<Rightarrow> (run_row \<times> agent_row) option" where
  "lockRun s runId agentId =
    (case find_run s runId of
       None \<Rightarrow> None
     | Some peek \<Rightarrow>
         if (case agentId of None \<Rightarrow> False | Some a \<Rightarrow> rn_agentId peek \<noteq> a) then None
         else (case (lockAgent s (rn_agentId peek), find_run s runId) of
                 (Some agent, Some run) \<Rightarrow> Some (run, agent)
               | _ \<Rightarrow> None))"

definition update_run :: "string \<Rightarrow> (run_row \<Rightarrow> run_row) \<Rightarrow> gateway \<Rightarrow> gateway" where
  "update_run runId f s = s\<lparr>gw_runs := update_where (\<lambda>r. rn_id r = runId) f (gw_runs s)\<rparr>"

subsection \<open>Failure\<close>

definition issuesDetail :: "issue list \<Rightarrow> string" where
  "issuesDetail issues = js_join ''; '' (map (\<lambda>i. fst i @ '': '' @ snd i) issues)"

definition release_inbox :: "string \<Rightarrow> gateway \<Rightarrow> gateway" where
  "release_inbox runId s =
    s\<lparr>gw_inbox := update_where (\<lambda>i. ib_runId i = Some runId \<and> ib_status i = IClaimed)
        (\<lambda>i. i\<lparr>ib_status := IPending, ib_runId := None\<rparr>) (gw_inbox s)\<rparr>"

definition deferForBudget ::
    "uow \<Rightarrow> run_row \<Rightarrow> agent_row \<Rightarrow> run_error \<Rightarrow> string \<Rightarrow> string \<Rightarrow> runtime_usage option \<Rightarrow> gateway \<Rightarrow>
     report_outcome uow_result" where
  "deferForBudget u run agent error reason runtimeVersion usage s =
    (case requireTransition (ag_id agent) (ag_state agent) CompleteIdle of
       Inl e \<Rightarrow> Inl (TransitionRefused e)
     | Inr next \<Rightarrow>
         let s1 = update_run (rn_id run)
               (\<lambda>r. r\<lparr>rn_status := RCancelled, rn_finishedAt := Some (u_now u),
                 rn_errorCode := Some (error_code_name (re_code error)),
                 rn_errorDetail := Some (u_redact u (re_detail error @ ''; retry deferred: '' @ reason)),
                 rn_runtimeVersion := Some runtimeVersion, rn_usage := usage\<rparr>) s;
             s2 = release_inbox (rn_id run) s1;
             s3 = setAgentState u (ag_id agent) (ag_state agent) next
               (''run '' @ rn_id run @ '' deferred by the budget'') s2;
             s4 = audit u ''system'' ''run.deferred'' ''run'' (rn_id run)
               [(''attempt'', JNum (int (rn_attempt run))), (''error_code'', JStr (error_code_name (re_code error))),
                (''reason'', JStr reason)] s3
         in Inr (RepDeferred, s4))"

definition retry_attempt ::
    "uow \<Rightarrow> run_row \<Rightarrow> agent_row \<Rightarrow> run_error \<Rightarrow> (turn_input \<Rightarrow> nat) \<Rightarrow> string \<Rightarrow> runtime_usage option \<Rightarrow> gateway \<Rightarrow>
     report_outcome uow_result" where
  "retry_attempt u run agent error inputBytes runtimeVersion usage s =
    (let attempt = rn_attempt run + 1;
         delaySeconds = runRetryDelaySeconds (int (rn_attempt run)) (u_random u);
         startAfter = u_now u + delaySeconds * 1000;
         timeoutSeconds = rn_timeoutSeconds run;
         deadline = startAfter + int timeoutSeconds * 1000
     in case find_snapshot s (rn_id run) of
          None \<Rightarrow> Inl (NoSnapshot (rn_id run))
        | Some snapshot \<Rightarrow>
            (case requireTransition (ag_id agent) (ag_state agent) Retry of
               Inl e \<Rightarrow> Inl (TransitionRefused e)
             | Inr next \<Rightarrow>
                 let input = (sn_input snapshot)\<lparr>ti_deadline := deadline\<rparr>;
                     s1 = s\<lparr>gw_snapshots := update_where (\<lambda>n. sn_runId n = rn_id run)
                            (\<lambda>n. n\<lparr>sn_input := input, sn_sizeBytes := inputBytes input\<rparr>) (gw_snapshots s)\<rparr>;
                     s2 = update_run (rn_id run)
                       (\<lambda>r. r\<lparr>rn_status := RQueued, rn_attempt := attempt, rn_startedAt := None,
                         rn_timeoutAt := deadline, rn_errorCode := Some (error_code_name (re_code error)),
                         rn_errorDetail := Some (u_redact u (re_detail error)),
                         rn_runtimeVersion := Some runtimeVersion, rn_usage := usage\<rparr>) s1;
                     s3 = setAgentState u (ag_id agent) (ag_state agent) next
                       (''run '' @ rn_id run @ '' attempt '' @ show_nat attempt) s2;
                     s4 = enqueueAttempt u
                       \<lparr>ai_runId = rn_id run, ai_attempt = attempt, ai_adapter = rn_runtimeAdapter run,
                        ai_agentId = ag_id agent, ai_model = rn_model run,
                        ai_sessionPolicy = cfg_session_policy (ag_config agent),
                        ai_sessionScope = sessionScope (sn_configVersion snapshot) (sn_input snapshot),
                        ai_input = input, ai_timeoutSeconds = timeoutSeconds, ai_startAfter = Some startAfter\<rparr> s3;
                     s5 = audit u ''system'' ''run.retry'' ''run'' (rn_id run)
                       [(''attempt'', JNum (int attempt)), (''error_code'', JStr (error_code_name (re_code error))),
                        (''delay_seconds'', JNum delaySeconds)] s4
                 in Inr (RepRetryScheduled, s5)))"

definition fail_run ::
    "uow \<Rightarrow> run_row \<Rightarrow> agent_row \<Rightarrow> run_error \<Rightarrow> string \<Rightarrow> runtime_usage option \<Rightarrow> gateway \<Rightarrow>
     report_outcome uow_result" where
  "fail_run u run agent error runtimeVersion usage s =
    (case requireTransition (ag_id agent) (ag_state agent) Fail of
       Inl e \<Rightarrow> Inl (TransitionRefused e)
     | Inr next \<Rightarrow>
         let code = error_code_name (re_code error);
             s1 = update_run (rn_id run)
               (\<lambda>r. r\<lparr>rn_status := RFailed, rn_finishedAt := Some (u_now u), rn_errorCode := Some code,
                 rn_errorDetail := Some (u_redact u (re_detail error)),
                 rn_runtimeVersion := Some runtimeVersion, rn_usage := usage\<rparr>) s;
             s2 = setAgentState u (ag_id agent) (ag_state agent) next
               (''run '' @ rn_id run @ '' failed: '' @ code) s1;
             s3 = raiseAlert u (''run-failed:'' @ rn_id run)
               (''Run '' @ rn_id run @ '' of @'' @ ag_id agent @ '' failed ('' @ code @
                ''); the agent is FAILED until redriven.'')
               [(''run_id'', JStr (rn_id run)), (''agent_id'', JStr (ag_id agent)), (''error_code'', JStr code),
                (''attempt'', JNum (int (rn_attempt run)))] s2
         in Inr (RepFailed, audit u ''system'' ''run.failed'' ''run'' (rn_id run) [(''error_code'', JStr code)] s3))"

definition applyFailure ::
    "uow \<Rightarrow> turn_deps \<Rightarrow> run_row \<Rightarrow> agent_row \<Rightarrow> run_error \<Rightarrow> string \<Rightarrow> runtime_usage option \<Rightarrow> gateway \<Rightarrow>
     report_outcome uow_result" where
  "applyFailure u td run agent error runtimeVersion usage s =
    (if re_retryable error \<and> rn_attempt run < rn_maxAttempts run
     then (case budgetHoldFor u (ag_id agent) s of
             (Some (scope, reason), s1) \<Rightarrow>
               deferForBudget u run agent error (u_budget_text u reason) runtimeVersion usage s1
           | (None, s1) \<Rightarrow> retry_attempt u run agent error (td_inputBytes td) runtimeVersion usage s1)
     else fail_run u run agent error runtimeVersion usage s)"

subsection \<open>Completion: scope and approval\<close>

definition completionScope :: "gateway \<Rightarrow> snapshot_row \<Rightarrow> run_scope" where
  "completionScope s snapshot =
    (let scope = runScope (ti_trigger (sn_input snapshot) # ti_pendingInbox (sn_input snapshot)) in
     case parseThreadRef (sn_threadRef snapshot) of
       None \<Rightarrow> scope
     | Some ref \<Rightarrow>
         if map_of (rs_threadRoots scope) (tf_rootPostId ref) \<noteq> None then scope
         else
           let correlationId = threadCorrelationOf s ref in
           \<lparr>rs_correlationIds = js_add correlationId (rs_correlationIds scope),
            rs_threadRoots = rs_threadRoots scope @ [(tf_rootPostId ref,
              \<lparr>tsc_channelId = tf_channelId ref, tsc_correlationId = correlationId\<rparr>)],
            rs_maxHop = rs_maxHop scope\<rparr>)"

record approval_identity =
  id_approvalId :: string
  id_nonce :: string
  id_immutableActionHash :: string
  id_riskLevel :: risk_level
  id_expiresAt :: millis
  id_approvalCode :: string

definition APPROVAL_TTL_MS :: int where "APPROVAL_TTL_MS = 24 * 60 * 60 * 1000"

definition prepareApprovalIdentity :: "uow \<Rightarrow> approval_draft \<Rightarrow> string \<Rightarrow> approval_identity" where
  "prepareApprovalIdentity u draft approvalId =
    (let h = approvalActionHash (u_sha256Hex u) (dr_actionType draft) (dr_actionParams draft) in
     \<lparr>id_approvalId = approvalId, id_nonce = u_nonce u, id_immutableActionHash = h,
      id_riskLevel = riskLevelFor (dr_actionType draft), id_expiresAt = u_now u + APPROVAL_TTL_MS,
      id_approvalCode = approvalCode (u_digest u) approvalId (u_nonce u) h\<rparr>)"

definition buildApprovalCard ::
    "approval_identity \<Rightarrow> string \<Rightarrow> approval_draft \<Rightarrow> string \<Rightarrow> string option \<Rightarrow> string option \<Rightarrow> approval_card" where
  "buildApprovalCard i agentId draft channelName channelId preview =
    \<lparr>cd_approvalId = id_approvalId i, cd_channelName = channelName, cd_channelId = channelId,
     cd_requestedByAgentId = agentId, cd_actionType = dr_actionType draft,
     cd_actionSummary = dr_actionSummary draft, cd_actionParams = dr_actionParams draft,
     cd_riskLevel = id_riskLevel i, cd_immutableActionHash = id_immutableActionHash i,
     cd_expiresAt = id_expiresAt i, cd_approvalCode = id_approvalCode i, cd_customRequestPreview = preview\<rparr>"

definition TOOL_NAMESPACES :: "string list" where
  "TOOL_NAMESPACES = [''finance'', ''mail'', ''deploy'', ''publish'', ''issue'', ''custom'', ''utility'']"

definition toolNamespace :: "string \<Rightarrow> string option" where
  "toolNamespace actionType =
    (let n = hd (js_split (CHR ''.'') actionType) in if n \<in> set TOOL_NAMESPACES then Some n else None)"

definition record_decision :: "uow \<Rightarrow> string \<Rightarrow> string \<Rightarrow> string \<Rightarrow> policy_verdict \<Rightarrow> string \<Rightarrow> gateway \<Rightarrow> gateway" where
  "record_decision u runId agentId action decision reason s =
    s\<lparr>gw_decisions := gw_decisions s @
      [\<lparr>pd_runId = runId, pd_agentId = agentId, pd_action = action, pd_decision = decision,
        pd_reason = reason, pd_createdAt = u_now u\<rparr>]\<rparr>"

definition approval_policy_reasons ::
    "string \<Rightarrow> turn_authority_context \<Rightarrow> approval_draft \<Rightarrow> gateway \<Rightarrow> string list" where
  "approval_policy_reasons agentId authority draft s =
    (let financeAgentId = (case loadActiveConfig s of None \<Rightarrow> [] | Some c \<Rightarrow> ac_finance_agent_id c) in
     approvedActionIssues (tc_toolPolicy authority) \<lparr>ts_agentId = agentId, ts_financeAgentId = financeAgentId\<rparr>
       (dr_actionType draft) (dr_actionParams draft) @
     (if toolNamespace (dr_actionType draft) = None
      then [''no tool namespace executes '' @ quoted (dr_actionType draft)] else []))"

definition approvalPolicyIssues ::
    "uow \<Rightarrow> run_row \<Rightarrow> string \<Rightarrow> turn_authority_context \<Rightarrow> approval_draft \<Rightarrow> gateway \<Rightarrow> string list \<times> gateway" where
  "approvalPolicyIssues u run agentId authority draft s =
    (let issues = approval_policy_reasons agentId authority draft s;
         rows = (if issues = [] then [(PRequireApproval, ''approval requested'')]
                 else map (\<lambda>reason. (PDeny, reason)) (take 20 issues))
     in (issues, fold (\<lambda>(d, reason). record_decision u (rn_id run) agentId (dr_actionType draft) d reason) rows s))"

record prepared_approval =
  pa_draft :: approval_draft
  pa_identity :: approval_identity
  pa_preview :: "string option"
  pa_approvers :: "string list"

text \<open>A request that is refused before anything of the run is published: one alert, then the run fails.\<close>

definition refuse_approval ::
    "uow \<Rightarrow> turn_deps \<Rightarrow> run_row \<Rightarrow> agent_row \<Rightarrow> string \<Rightarrow> string \<Rightarrow> string \<Rightarrow> string \<Rightarrow> runtime_usage option \<Rightarrow> gateway \<Rightarrow>
     report_outcome uow_result" where
  "refuse_approval u td run agent what actionType detail runtimeVersion usage s =
    applyFailure u td run agent \<lparr>re_code = EInvalidOutput, re_retryable = False, re_detail = detail\<rparr>
      runtimeVersion usage
      (raiseAlert u (''approval-policy:'' @ rn_id run)
        (''Run '' @ rn_id run @ '' of @'' @ ag_id agent @ '' asked to approve '' @ what @
         ''; no approval card was posted.'') [(''action_type'', JStr actionType)] s)"

text \<open>The preparation of a \<open>needs_human\<close> result: the finished failure, or what the approval needs.\<close>

definition prepare_approval ::
    "uow \<Rightarrow> turn_deps \<Rightarrow> completion_deps \<Rightarrow> run_row \<Rightarrow> agent_row \<Rightarrow> turn_authority_context \<Rightarrow> approval_draft \<Rightarrow>
     string \<Rightarrow> runtime_usage option \<Rightarrow> gateway \<Rightarrow> report_outcome uow_result + (prepared_approval \<times> gateway)" where
  "prepare_approval u td cp run agent authority requested runtimeVersion usage s =
    (case cp_prepareCustomDraft cp s (ag_id agent) requested of
       Inl issues \<Rightarrow> Inl (refuse_approval u td run agent ''a custom tool action that is refused''
         (dr_actionType requested) (js_join ''; '' issues) runtimeVersion usage s)
     | Inr draft \<Rightarrow>
         let (refusal, s1) = approvalPolicyIssues u run (ag_id agent) authority draft s in
         if refusal \<noteq> [] then Inl (refuse_approval u td run agent ''an action the policy refuses''
           (dr_actionType requested) (js_join ''; '' refusal) runtimeVersion usage s1)
         else case cp_customPreview cp s1 draft of
           Inl issues \<Rightarrow> Inl (refuse_approval u td run agent
             ''a custom tool action whose request preview is too large to show in full''
             (dr_actionType draft) (js_join ''; '' issues) runtimeVersion usage s1)
         | Inr preview \<Rightarrow>
             let ident = prepareApprovalIdentity u draft (fresh_id u s1);
                 s2 = s1\<lparr>gw_ids := Suc (gw_ids s1)\<rparr>;
                 fields = buildApprovalCard ident (ag_id agent) draft [] None None;
                 fits = (case preview of None \<Rightarrow> True | Some p \<Rightarrow> cp_fitApprovalCard cp fields p);
                 approvers = loadOwnerUserIds s2
             in if \<not> fits then Inl (refuse_approval u td run agent
                  (''a custom tool action whose card cannot fit Mattermost'' @ CHR 0x27 #
                   ''s own post limit even with its summary shortened'')
                  (dr_actionType draft) ''the request is too large to show in full for approval; use shorter values''
                  runtimeVersion usage s2)
                else if approvers = [] then Inl (applyFailure u td run agent
                  \<lparr>re_code = ERuntimePermanent, re_retryable = False,
                   re_detail = ''no approver is resolved to a Mattermost user id''\<rparr> runtimeVersion usage s2)
                else Inr (\<lparr>pa_draft = draft, pa_identity = ident, pa_preview = preview,
                           pa_approvers = approvers\<rparr>, s2))"

subsection \<open>Completion: publication\<close>

text \<open>The artifacts of a result have distinct keys (\<open>AgentTurnResultSchema\<close>), so every insert succeeds.\<close>

fun persistArtifacts ::
    "uow \<Rightarrow> run_row \<Rightarrow> artifact_descriptor list \<Rightarrow> (string \<times> string) list \<Rightarrow> gateway \<Rightarrow>
     (string \<times> string) list \<times> gateway" where
  "persistArtifacts u run [] ids s = (ids, s)"
| "persistArtifacts u run (a # as) ids s =
    persistArtifacts u run as (AList.update (ad_key a) (fresh_id u s) ids)
      (s\<lparr>gw_artifacts := gw_artifacts s @
          [\<lparr>at_id = fresh_id u s, at_runId = rn_id run, at_agentId = rn_agentId run, at_artifact = a,
            at_createdAt = u_now u\<rparr>], gw_ids := Suc (gw_ids s)\<rparr>)"

definition attachmentIds :: "(string \<times> string) list \<Rightarrow> artifact_ref list \<Rightarrow> string list" where
  "attachmentIds artifactIds refs =
    concat (map (\<lambda>ref. case ar_artifactId ref of
        Some i \<Rightarrow> [i]
      | None \<Rightarrow> (case Option.bind (ar_artifactKey ref) (map_of artifactIds) of None \<Rightarrow> [] | Some i \<Rightarrow> [i])) refs)"

definition postPayload ::
    "run_row \<Rightarrow> agent_row \<Rightarrow> (string \<times> string) list \<Rightarrow> run_scope \<Rightarrow> public_message \<Rightarrow> post_payload" where
  "postPayload run agent artifactIds scope m =
    \<lparr>pp_agentId = ag_id agent, pp_runId = rn_id run, pp_channelId = pm_channelId m,
     pp_rootPostId = pm_rootPostId m, pp_message = renderPostMessage (pm_targetAgentIds m) (pm_markdown m),
     pp_targetAgentIds = pm_targetAgentIds m,
     pp_attachmentArtifactIds = attachmentIds artifactIds (pm_attachments m),
     pp_correlationId =
       (case pm_rootPostId m of
          None \<Rightarrow> rn_correlationId run
        | Some rt \<Rightarrow> (case map_of (rs_threadRoots scope) rt of
                       None \<Rightarrow> rn_correlationId run | Some t \<Rightarrow> tsc_correlationId t)),
     pp_hop = max (rn_hop run) (rs_maxHop scope) + 1\<rparr>"

fun persistMessages ::
    "uow \<Rightarrow> run_row \<Rightarrow> agent_row \<Rightarrow> (string \<times> string) list \<Rightarrow> run_scope \<Rightarrow> nat \<Rightarrow> public_message list \<Rightarrow>
     gateway \<Rightarrow> gateway" where
  "persistMessages u run agent artifactIds scope index [] s = s"
| "persistMessages u run agent artifactIds scope index (m # ms) s =
    persistMessages u run agent artifactIds scope (Suc index) ms
      (enqueueOutbox u (''channel/'' @ pm_channelId m)
        (MattermostPost (postPayload run agent artifactIds scope m))
        (''mattermost-post:'' @ rn_id run @ '':'' @ show_nat index) (Some (rn_id run)) s)"

definition supersedeMemory :: "uow \<Rightarrow> string \<Rightarrow> string \<Rightarrow> gateway \<Rightarrow> gateway" where
  "supersedeMemory u ns key s =
    s\<lparr>gw_memory := update_where
        (\<lambda>r. me_namespace r = ns \<and> me_key r = key \<and> me_status r = MAccepted)
        (\<lambda>r. r\<lparr>me_status := MSuperseded, me_supersededAt := Some (u_now u)\<rparr>) (gw_memory s)\<rparr>"

definition persistProposal :: "uow \<Rightarrow> run_row \<Rightarrow> agent_row \<Rightarrow> memory_proposal \<Rightarrow> gateway \<Rightarrow> gateway" where
  "persistProposal u run agent p s =
    (let own = (mp_namespace p = cfg_private_namespace (ag_config agent));
         s1 = (if own then supersedeMemory u (mp_namespace p) (mp_key p) s else s)
     in s1\<lparr>gw_memory := gw_memory s1 @
          [\<lparr>me_namespace = mp_namespace p, me_key = mp_key p, me_content = mp_content p,
            me_sourceEventId = rn_triggerEventId run, me_sourceRunId = rn_id run,
            me_status = (if own then MAccepted else MProposed), me_visibility = mp_visibility p,
            me_createdAt = u_now u, me_supersededAt = None\<rparr>]\<rparr>)"

definition persistMemory :: "uow \<Rightarrow> run_row \<Rightarrow> agent_row \<Rightarrow> memory_proposal list \<Rightarrow> gateway \<Rightarrow> gateway" where
  "persistMemory u run agent proposals s = fold (persistProposal u run agent) proposals s"

text \<open>\<open>insert into runtime_sessions ... on conflict (agent, adapter) do update\<close>, unless a grant of the
  agent changed since the run was queued.\<close>

definition persistSession ::
    "uow \<Rightarrow> string \<Rightarrow> session_handle option \<Rightarrow> string \<Rightarrow> millis \<Rightarrow> gateway \<Rightarrow> gateway" where
  "persistSession u agentId session scope queuedAt s =
    (case session of
       None \<Rightarrow> s
     | Some h \<Rightarrow>
         if list_ex (\<lambda>g. gr_agentId g = agentId \<and>
              (queuedAt < gr_grantedAt g \<or> (case gr_revokedAt g of None \<Rightarrow> False | Some t \<Rightarrow> queuedAt < t)))
              (gw_grants s)
         then s
         else
           let row = \<lparr>se_agentId = agentId, se_adapter = sh_adapter h, se_providerSessionRef = sh_providerSessionId h,
                 se_runtimeVersion = sh_runtimeVersion h, se_scope = scope, se_lastUsedAt = u_now u,
                 se_expiresAt = sh_expiresAt h, se_active = True\<rparr>;
               key = (\<lambda>r. se_agentId r = agentId \<and> se_adapter r = sh_adapter h)
           in if list_ex key (gw_sessions s)
              then s\<lparr>gw_sessions := update_where key (\<lambda>_. row) (gw_sessions s)\<rparr>
              else s\<lparr>gw_sessions := gw_sessions s @ [row]\<rparr>)"

definition recordThreadSummary ::
    "uow \<Rightarrow> completion_deps \<Rightarrow> thread_ref \<Rightarrow> string \<Rightarrow> string \<Rightarrow> working_summary \<Rightarrow> gateway \<Rightarrow> gateway" where
  "recordThreadSummary u cp ref runId agentId summary s =
    (let key = (tf_channelId ref, tf_rootPostId ref);
         previous = (case map_of (gw_summaries s) key of None \<Rightarrow> EMPTY_THREAD_SUMMARY | Some t \<Rightarrow> t);
         e = threadSummaryEntry (cp_truncate cp) runId agentId (u_now u) summary
     in s\<lparr>gw_summaries := AList.update key (mergeThreadSummary (Some previous) e) (gw_summaries s)\<rparr>)"

definition carriedChannels :: "turn_input \<Rightarrow> string list" where
  "carriedChannels input =
    js_set (concat (map (\<lambda>e. case mattermostPost e of None \<Rightarrow> [] | Some p \<Rightarrow> [channel_id p])
      (ti_trigger input # ti_pendingInbox input)))"

definition summarise_thread ::
    "uow \<Rightarrow> completion_deps \<Rightarrow> run_row \<Rightarrow> agent_row \<Rightarrow> snapshot_row \<Rightarrow> working_summary \<Rightarrow> gateway \<Rightarrow> gateway" where
  "summarise_thread u cp run agent snapshot summary s =
    (case parseThreadRef (sn_threadRef snapshot) of
       None \<Rightarrow> s
     | Some ref \<Rightarrow>
         if list_all (\<lambda>c. c = tf_channelId ref) (carriedChannels (sn_input snapshot))
         then recordThreadSummary u cp ref (rn_id run) (ag_id agent) summary s else s)"

text \<open>Everything an accepted result publishes, before its next state.\<close>

definition publish_result ::
    "uow \<Rightarrow> completion_deps \<Rightarrow> run_row \<Rightarrow> agent_row \<Rightarrow> snapshot_row \<Rightarrow> agent_turn_result \<Rightarrow> run_scope \<Rightarrow> gateway \<Rightarrow> gateway" where
  "publish_result u cp run agent snapshot result scope s =
    (let (artifactIds, s1) = persistArtifacts u run (tr_artifacts result) [] s;
         s2 = persistMessages u run agent artifactIds scope 0 (tr_publicMessages result) s1;
         s3 = persistMemory u run agent (tr_memoryProposals result) s2;
         s4 = persistSession u (ag_id agent) (tr_session result)
                (sessionScope (sn_configVersion snapshot) (sn_input snapshot)) (rn_queuedAt run) s3
     in summarise_thread u cp run agent snapshot (tr_publicSummary result) s4)"

subsection \<open>Completion: next state\<close>

definition insertWait ::
    "uow \<Rightarrow> run_row \<Rightarrow> string \<Rightarrow> wait_condition \<Rightarrow> millis \<Rightarrow> string list option \<Rightarrow> gateway \<Rightarrow> gateway" where
  "insertWait u run agentId condition timeoutAt threadRootIds s =
    (let i = fresh_id u s;
         row = \<lparr>wt_id = i, wt_agentId = agentId, wt_createdByRunId = rn_id run, wt_status = WActive,
           wt_correlationId = wc_correlationId condition, wt_condition = condition\<lparr>wc_timeoutAt := timeoutAt\<rparr>,
           wt_threadRootIds = threadRootIds, wt_timeoutAt = timeoutAt, wt_matchedEventId = None,
           wt_createdAt = u_now u, wt_resolvedAt = None\<rparr>
     in send_job u (WaitTimeoutJob i timeoutAt)
          (s\<lparr>gw_waits := gw_waits s @ [row], gw_ids := Suc (gw_ids s)\<rparr>))"

definition createWaits ::
    "uow \<Rightarrow> run_row \<Rightarrow> string \<Rightarrow> wait_condition list \<Rightarrow> run_scope \<Rightarrow> gateway \<Rightarrow> gateway" where
  "createWaits u run agentId waits scope s =
    fold (\<lambda>c s.
      let roots = map fst (filter (\<lambda>p. tsc_correlationId (snd p) = wc_correlationId c) (rs_threadRoots scope))
      in insertWait u run agentId c (clampWaitTimeout (wc_timeoutAt c) (u_now u))
           (if isThreadBound c then Some roots else None) s) waits s"

definition approvalCorrelation :: "string \<Rightarrow> string" where
  "approvalCorrelation approvalId = ''approval:'' @ approvalId"

definition createApproval ::
    "uow \<Rightarrow> turn_deps \<Rightarrow> completion_deps \<Rightarrow> run_row \<Rightarrow> agent_row \<Rightarrow> prepared_approval \<Rightarrow> string \<Rightarrow>
     runtime_usage option \<Rightarrow> gateway \<Rightarrow> report_outcome uow_result + gateway" where
  "createApproval u td cp run agent p runtimeVersion usage s =
    (case loadActiveConfig s of
       None \<Rightarrow> Inl (Inl NoActiveConfig)
     | Some config \<Rightarrow>
         let draft = pa_draft p; i = pa_identity p;
             channelName = ac_approvals_channel config;
             card = buildApprovalCard i (ag_id agent) draft channelName
               (map_of (loadTeamChannels s) channelName) (pa_preview p);
             issues = cp_cardIssues cp card
         in if issues \<noteq> [] then
              Inl (refuse_approval u td run agent ''an action whose card fails validation'' (dr_actionType draft)
                (''approval card fails validation: '' @ js_join ''; '' (take 10 issues)) runtimeVersion usage s)
            else if list_ex (\<lambda>a. aq_id a = id_approvalId i \<or> aq_runId a = rn_id run) (gw_approvals s)
            then Inl (Inl (UniqueViolation ''approval_requests''))
            else
              let s1 = s\<lparr>gw_approvals := gw_approvals s @
                    [\<lparr>aq_id = id_approvalId i, aq_requestedByAgentId = ag_id agent, aq_runId = rn_id run,
                      aq_actionType = dr_actionType draft, aq_actionParams = dr_actionParams draft,
                      aq_immutableActionHash = id_immutableActionHash i, aq_actionSummary = dr_actionSummary draft,
                      aq_riskLevel = id_riskLevel i, aq_status = APending,
                      aq_allowedApproverUserIds = pa_approvers p, aq_nonce = id_nonce i, aq_createdAt = u_now u,
                      aq_expiresAt = id_expiresAt i, aq_decidedByUserId = None, aq_decidedAt = None,
                      aq_decisionPostId = None, aq_resolvedAt = None\<rparr>]\<rparr>;
                  s2 = enqueueOutbox u (''channel/'' @ channelName) (MattermostApproval card)
                    (''approval-card:'' @ id_approvalId i) (Some (rn_id run)) s1;
                  s3 = insertWait u run (ag_id agent)
                    \<lparr>wc_eventType = ApprovalResolved, wc_correlationId = approvalCorrelation (id_approvalId i),
                     wc_expectedSenderAgentIds = [], wc_expectedSenderUserIds = [], wc_requireTargetAgentId = None,
                     wc_timeoutAt = id_expiresAt i\<rparr> (id_expiresAt i) None s2
              in Inr (audit u ''system'' ''approval.requested'' ''approval'' (id_approvalId i)
                   [(''run_id'', JStr (rn_id run)), (''action_type'', JStr (dr_actionType draft))] s3))"

fun outcome_of :: "next_state \<Rightarrow> run_outcome" where
  "outcome_of NIdle = OIdle"
| "outcome_of (NWaiting _) = OWaiting"
| "outcome_of (NNeedsHuman _) = ONeedsHuman"
| "outcome_of (NFailed _ _) = OFailed"

text \<open>The switch over the next state: the waits or the approval, then the agent's transition. \<open>Inl\<close> is a
  finished outcome (or an error) instead of the run's completion.\<close>

definition move_agent ::
    "uow \<Rightarrow> agent_row \<Rightarrow> agent_transition \<Rightarrow> string \<Rightarrow> gateway \<Rightarrow> report_outcome uow_result + gateway" where
  "move_agent u agent transition reason s =
    (case requireTransition (ag_id agent) (ag_state agent) transition of
       Inl e \<Rightarrow> Inl (Inl (TransitionRefused e))
     | Inr next \<Rightarrow> Inr (setAgentState u (ag_id agent) (ag_state agent) next reason s))"

definition apply_next_state ::
    "uow \<Rightarrow> turn_deps \<Rightarrow> completion_deps \<Rightarrow> run_row \<Rightarrow> agent_row \<Rightarrow> agent_turn_result \<Rightarrow> run_scope \<Rightarrow>
     prepared_approval option \<Rightarrow> string \<Rightarrow> gateway \<Rightarrow> report_outcome uow_result + gateway" where
  "apply_next_state u td cp run agent result scope prepared runtimeVersion s =
    (case tr_nextState result of
       NIdle \<Rightarrow> move_agent u agent CompleteIdle (''run '' @ rn_id run) s
     | NWaiting waits \<Rightarrow>
         move_agent u agent CompleteWaiting (''run '' @ rn_id run)
           (createWaits u run (ag_id agent) waits scope s)
     | NNeedsHuman draft \<Rightarrow>
         let p = (case prepared of
                Some q \<Rightarrow> q
              | None \<Rightarrow> \<lparr>pa_draft = draft, pa_identity = prepareApprovalIdentity u draft (fresh_id u s),
                         pa_preview = None, pa_approvers = []\<rparr>)
         in (case createApproval u td cp run agent p runtimeVersion (tr_usage result) s of
               Inl failed \<Rightarrow> Inl failed
             | Inr s1 \<Rightarrow> move_agent u agent CompleteWaiting (''run '' @ rn_id run @ '' needs a human'') s1)
     | NFailed publicError _ \<Rightarrow>
         (case move_agent u agent Fail (''run '' @ rn_id run @ '' reported failure'') s of
            Inl failed \<Rightarrow> Inl failed
          | Inr s1 \<Rightarrow> Inr (raiseAlert u (''run-failed:'' @ rn_id run)
              (CHR ''@'' # ag_id agent @ '' reported a failure in run '' @ rn_id run @
               ''; the agent is FAILED until redriven.'') [] s1)))"

definition finished_row :: "uow \<Rightarrow> run_row \<Rightarrow> agent_turn_result \<Rightarrow> string \<Rightarrow> run_row \<Rightarrow> run_row" where
  "finished_row u run result runtimeVersion r =
    (let failed = (outcome_of (tr_nextState result) = OFailed) in
     r\<lparr>rn_status := (if failed then RFailed else RSucceeded),
       rn_outcome := Some (outcome_of (tr_nextState result)), rn_finishedAt := Some (u_now u),
       rn_runtimeVersion := Some runtimeVersion,
       rn_model := (case Option.bind (tr_usage result) ru_model of None \<Rightarrow> rn_model run | Some m \<Rightarrow> Some m),
       rn_usage := tr_usage result, rn_publicSummary := Some (tr_publicSummary result),
       rn_result := Some result,
       rn_errorCode := (if failed then Some ''agent_reported_failure'' else None),
       rn_errorDetail := (case tr_nextState result of
          NFailed publicError _ \<Rightarrow> Some (u_redact u publicError) | _ \<Rightarrow> None)\<rparr>)"

definition finish_run ::
    "uow \<Rightarrow> run_row \<Rightarrow> agent_turn_result \<Rightarrow> string \<Rightarrow> gateway \<Rightarrow> gateway" where
  "finish_run u run result runtimeVersion s =
    (let failed = (outcome_of (tr_nextState result) = OFailed);
         s1 = update_run (rn_id run) (finished_row u run result runtimeVersion) s;
         s2 = s1\<lparr>gw_inbox := update_where (\<lambda>i. ib_runId i = Some (rn_id run) \<and> ib_status i = IClaimed)
                (\<lambda>i. i\<lparr>ib_status := IConsumed\<rparr>) (gw_inbox s1)\<rparr>
     in audit u ''system'' ''run.completed'' ''run'' (rn_id run)
          [(''outcome'', JStr (case outcome_of (tr_nextState result) of OIdle \<Rightarrow> ''idle'' | OWaiting \<Rightarrow> ''waiting''
              | ONeedsHuman \<Rightarrow> ''needs_human'' | OFailed \<Rightarrow> ''failed'')),
           (''status'', JStr (if failed then ''failed'' else ''succeeded''))] s2)"

text \<open>An accepted result: its effects, its next state, the finished run, and the agent's next work.\<close>

definition accept_result ::
    "uow \<Rightarrow> turn_deps \<Rightarrow> completion_deps \<Rightarrow> run_row \<Rightarrow> agent_row \<Rightarrow> snapshot_row \<Rightarrow> agent_turn_result \<Rightarrow>
     run_scope \<Rightarrow> prepared_approval option \<Rightarrow> string \<Rightarrow> gateway \<Rightarrow> report_outcome uow_result" where
  "accept_result u td cp run agent snapshot result scope prepared runtimeVersion s =
    (case apply_next_state u td cp run agent result scope prepared runtimeVersion
            (publish_result u cp run agent snapshot result scope s) of
       Inl r \<Rightarrow> r
     | Inr s1 \<Rightarrow>
         (case scheduleAgent u td (ag_id agent) None (finish_run u run result runtimeVersion s1) of
            Inl e \<Rightarrow> Inl e
          | Inr (_, s2) \<Rightarrow> Inr (RepCompleted, s2)))"

definition deny_result ::
    "uow \<Rightarrow> turn_deps \<Rightarrow> run_row \<Rightarrow> agent_row \<Rightarrow> issue list \<Rightarrow> string \<Rightarrow> runtime_usage option \<Rightarrow> gateway \<Rightarrow>
     report_outcome uow_result" where
  "deny_result u td run agent issues runtimeVersion usage s =
    (let s1 = fold (\<lambda>i. record_decision u (rn_id run) (ag_id agent) (''turn_result.'' @ fst i) PDeny (snd i))
           (take 20 issues) s;
         s2 = raiseAlert u (''authority:'' @ rn_id run)
           (''Run '' @ rn_id run @ '' of @'' @ ag_id agent @ '' exceeded its authority; nothing from it was published.'')
           [(''issues'', JNum (int (length issues)))] s1
     in applyFailure u td run agent
          \<lparr>re_code = EInvalidOutput, re_retryable = False, re_detail = issuesDetail issues\<rparr> runtimeVersion usage s2)"

definition applyCompletion ::
    "uow \<Rightarrow> turn_deps \<Rightarrow> completion_deps \<Rightarrow> run_row \<Rightarrow> agent_row \<Rightarrow> json \<Rightarrow> string \<Rightarrow> gateway \<Rightarrow>
     report_outcome uow_result" where
  "applyCompletion u td cp run agent rawResult runtimeVersion s =
    (case cp_parse cp rawResult of
       Inl problems \<Rightarrow>
         applyFailure u td run agent
           \<lparr>re_code = EInvalidOutput, re_retryable = False, re_detail = js_join ''; '' (take 10 problems)\<rparr>
           runtimeVersion None
           (raiseAlert u (''invalid-output:'' @ rn_id run)
             (''Run '' @ rn_id run @ '' of @'' @ ag_id agent @ '' returned a result that fails validation.'') [] s)
     | Inr result \<Rightarrow>
         (case find_snapshot s (rn_id run) of
            None \<Rightarrow> Inl (NoSnapshot (rn_id run))
          | Some snapshot \<Rightarrow>
              let scope = completionScope s snapshot;
                  issues = checkTurnResultAuthority result (sn_authority snapshot) @ checkRunScope result scope
              in if issues \<noteq> [] then deny_result u td run agent issues runtimeVersion (tr_usage result) s
                 else case tr_nextState result of
                   NNeedsHuman requested \<Rightarrow>
                     (case prepare_approval u td cp run agent (sn_authority snapshot) requested runtimeVersion
                             (tr_usage result) s of
                        Inl failed \<Rightarrow> failed
                      | Inr (prepared, s1) \<Rightarrow>
                          accept_result u td cp run agent snapshot result scope (Some prepared) runtimeVersion s1)
                 | _ \<Rightarrow> accept_result u td cp run agent snapshot result scope None runtimeVersion s))"

subsection \<open>The use cases\<close>

definition reportedUsage :: "completion_deps \<Rightarrow> json \<Rightarrow> runtime_usage option" where
  "reportedUsage cp result =
    (case result of JObj obj \<Rightarrow> cp_parseUsage cp (map_of obj ''usage'') | _ \<Rightarrow> None)"

text \<open>Usage counts whatever happens to the report, except a report of an attempt not made yet.\<close>

definition bookUsage :: "uow \<Rightarrow> completion_deps \<Rightarrow> run_report \<Rightarrow> run_row \<Rightarrow> agent_row \<Rightarrow> gateway \<Rightarrow> gateway" where
  "bookUsage u cp report run agent s =
    (let book = (\<lambda>usage. s\<lparr>gw_usage :=
           recordRunUsage (u_now u) (rn_id run) (rp_attempt report) (ag_id agent) usage (gw_usage s)\<rparr>) in
     case rp_body report of
       ReportStarted \<Rightarrow> s
     | ReportCompleted result \<Rightarrow>
         if rp_attempt report \<le> rn_attempt run then book (reportedUsage cp result) else s
     | ReportFailed _ usage \<Rightarrow>
         if rp_attempt report \<le> rn_attempt run \<and> usage \<noteq> None then book usage else s)"

definition apply_started :: "uow \<Rightarrow> run_row \<Rightarrow> agent_row \<Rightarrow> string \<Rightarrow> gateway \<Rightarrow> gateway" where
  "apply_started u run agent runtimeVersion s =
    (if rn_status run = RQueued then
       let deadline = u_now u + int (rn_timeoutSeconds run) * 1000;
           s1 = update_run (rn_id run)
             (\<lambda>r. r\<lparr>rn_status := RRunning, rn_startedAt := Some (u_now u), rn_timeoutAt := deadline,
               rn_runtimeVersion := Some runtimeVersion\<rparr>) s;
           s2 = enqueueRunDeadline u (rn_id run) (rn_attempt run) deadline s1
       in if ag_state agent = Queued
          then setAgentState u (ag_id agent) (ag_state agent) Running (''run '' @ rn_id run @ '' started'') s2
          else s2
     else s)"

fun report_kind :: "report_body \<Rightarrow> string" where
  "report_kind ReportStarted = ''started''"
| "report_kind (ReportCompleted _) = ''completed''"
| "report_kind (ReportFailed _ _) = ''failed''"

definition handleRunReport ::
    "uow \<Rightarrow> turn_deps \<Rightarrow> completion_deps \<Rightarrow> run_report \<Rightarrow> runtime_adapter_id \<Rightarrow> gateway \<Rightarrow>
     report_outcome uow_result" where
  "handleRunReport u td cp report adapter s =
    (case lockRun s (rp_runId report) (Some (rp_agentId report)) of
       None \<Rightarrow> Inr (RepIgnoredUnknown, s)
     | Some (run, agent) \<Rightarrow>
         if rn_runtimeAdapter run \<noteq> adapter then Inr (RepIgnoredUnknown, s)
         else
           let s1 = bookUsage u cp report run agent s in
           if \<not> inProgress run \<or> rn_attempt run \<noteq> rp_attempt report then Inr (RepIgnoredStale, s1)
           else
             let status = loadAgentLifecycleStatus s1 (ag_id agent) in
             if status = Some LRetiring \<or> status = Some LRetired
             then Inr (RepIgnoredRetired,
               audit u ''system'' ''run.report.dropped_retired'' ''run'' (rn_id run)
                 [(''kind'', JStr (report_kind (rp_body report))),
                  (''lifecycle_status'', json_option (map_option lifecycle_name status))] s1)
             else case rp_body report of
               ReportStarted \<Rightarrow> Inr (RepStarted, apply_started u run agent (rp_runtimeVersion report) s1)
             | ReportFailed error usage \<Rightarrow> applyFailure u td run agent error (rp_runtimeVersion report) usage s1
             | ReportCompleted result \<Rightarrow> applyCompletion u td cp run agent result (rp_runtimeVersion report) s1)"

fun adapter_name :: "runtime_adapter_id \<Rightarrow> string" where
  "adapter_name Mock = ''mock''"
| "adapter_name Codex = ''codex''"
| "adapter_name ClaudeCode = ''claude-code''"
| "adapter_name Grok = ''grok''"
| "adapter_name Kiro = ''kiro''"
| "adapter_name OpencodeGo = ''opencode-go''"
| "adapter_name Hermes = ''hermes''"

definition handleRunTimeout ::
    "uow \<Rightarrow> turn_deps \<Rightarrow> string \<Rightarrow> nat \<Rightarrow> gateway \<Rightarrow> report_outcome uow_result" where
  "handleRunTimeout u td runId attempt s =
    (case lockRun s runId None of
       None \<Rightarrow> Inr (RepIgnoredStale, s)
     | Some (run, agent) \<Rightarrow>
         if \<not> inProgress run \<or> rn_attempt run \<noteq> attempt then Inr (RepIgnoredStale, s)
         else if rn_status run = RQueued then
           (if map_of (gw_availability s) (rn_runtimeAdapter run) = Some False then Inr (RepIgnoredStale, s)
            else Inr (RepIgnoredStale,
              raiseAlert u (''queued:'' @ rn_id run @ '':'' @ show_nat (rn_attempt run))
                (''Run '' @ rn_id run @ '' of @'' @ ag_id agent @ '' is still queued; is a '' @
                 quoted (adapter_name (rn_runtimeAdapter run)) @
                 '' worker running? If its job was dead-lettered, pause and resume the agent to queue the work again.'')
                [] s))
         else if u_now u < rn_timeoutAt run then Inr (RepIgnoredStale, s)
         else applyFailure u td run agent
                \<lparr>re_code = ETimeout, re_retryable = True,
                 re_detail = ''no report before the run deadline; the worker may have stopped''\<rparr>
                (case rn_runtimeVersion run of None \<Rightarrow> ''unknown'' | Some v \<Rightarrow> v) None s)"

record observed_attempt =
  oa_runId :: string
  oa_jobId :: "string option"
  oa_running :: bool
  oa_attempt :: nat

definition failLostAttempt ::
    "uow \<Rightarrow> turn_deps \<Rightarrow> observed_attempt \<Rightarrow> string \<Rightarrow> gateway \<Rightarrow> report_outcome uow_result" where
  "failLostAttempt u td observed detail s =
    (case lockRun s (oa_runId observed) None of
       None \<Rightarrow> Inr (RepIgnoredStale, s)
     | Some (run, agent) \<Rightarrow>
         if rn_jobId run \<noteq> oa_jobId observed \<or> rn_status run \<noteq> (if oa_running observed then RRunning else RQueued) \<or>
            rn_attempt run \<noteq> oa_attempt observed \<or> (rn_status run = RRunning \<and> u_now u < rn_timeoutAt run)
         then Inr (RepIgnoredStale, s)
         else applyFailure u td run agent
                \<lparr>re_code = ERuntimeRetryable, re_retryable = True, re_detail = detail\<rparr>
                (case rn_runtimeVersion run of None \<Rightarrow> ''unknown'' | Some v \<Rightarrow> v) None s)"

end
