(* ===== verification/Operations.thy ===== *)
theory Operations
  imports Runs
begin

text \<open>
  The operator's use cases of \<open>packages/core/src/services/admin.ts\<close> that move agents and runs: pause, resume,
  cancel, redrive, enable and disable, kill-all and its release, and the redrive of a dead outbox item;
  with \<open>withdrawOpenApprovals\<close> of \<open>approvals.ts\<close>. \<open>AdminError\<close> is the error of a refused command.

  A result of \<open>killAll\<close> and \<open>pauseInTransaction\<close> is the list of queue jobs the caller cancels.
\<close>

type_synonym cancelled_job = "string \<times> string"

definition cancel_jobs :: "run_row list \<Rightarrow> cancelled_job list" where
  "cancel_jobs runs =
    concat (map (\<lambda>r. case rn_jobId r of None \<Rightarrow> []
      | Some j \<Rightarrow> [(''agent.run.'' @ adapter_name (rn_runtimeAdapter r), j)]) runs)"

definition active_runs :: "gateway \<Rightarrow> string \<Rightarrow> run_row list" where
  "active_runs s agentId = filter (\<lambda>r. rn_agentId r = agentId \<and> in_progress r) (gw_runs s)"

definition cancel_active :: "uow \<Rightarrow> string \<Rightarrow> string \<Rightarrow> gateway \<Rightarrow> gateway" where
  "cancel_active u agentId reason s =
    s\<lparr>gw_runs := update_where (\<lambda>r. rn_agentId r = agentId \<and> in_progress r)
        (\<lambda>r. r\<lparr>rn_status := RCancelled, rn_finishedAt := Some (u_now u), rn_errorCode := Some ''cancelled'',
               rn_errorDetail := Some reason\<rparr>) (gw_runs s)\<rparr>"

definition pauseInTransaction ::
    "uow \<Rightarrow> string \<Rightarrow> string \<Rightarrow> string \<Rightarrow> gateway \<Rightarrow> cancelled_job list uow_result" where
  "pauseInTransaction u agentId actor reason s =
    (case lockAgent s agentId of
       None \<Rightarrow> Inl (AdminError (''agent '' @ quoted agentId @ '' does not exist''))
     | Some agent \<Rightarrow>
         if ag_state agent = Paused \<or> ag_state agent = Disabled \<or> ag_state agent = Failed then Inr ([], s)
         else case requireTransition agentId (ag_state agent) Pause of
           Inl e \<Rightarrow> Inl (TransitionRefused e)
         | Inr next \<Rightarrow>
             let active = active_runs s agentId;
                 s1 = cancel_active u agentId reason s;
                 s2 = fold (\<lambda>r s. audit u actor ''run.cancel'' ''run'' (rn_id r) [(''reason'', JStr reason)]
                        (release_inbox (rn_id r) s)) active s1;
                 s3 = setAgentState u agentId (ag_state agent) next reason s2
             in Inr (cancel_jobs active,
                  audit u actor ''agent.pause'' ''agent'' agentId [(''reason'', JStr reason)] s3))"

definition pauseAgent :: "uow \<Rightarrow> string \<Rightarrow> string \<Rightarrow> gateway \<Rightarrow> cancelled_job list uow_result" where
  "pauseAgent u agentId actor s = pauseInTransaction u agentId actor (''paused by '' @ actor) s"

definition resumeAgent :: "uow \<Rightarrow> turn_deps \<Rightarrow> string \<Rightarrow> string \<Rightarrow> gateway \<Rightarrow> agent_state uow_result" where
  "resumeAgent u td agentId actor s =
    (case lockAgent s agentId of
       None \<Rightarrow> Inl (AdminError (''agent '' @ quoted agentId @ '' does not exist''))
     | Some agent \<Rightarrow>
         if ag_state agent \<noteq> Paused
         then Inl (AdminError (''agent '' @ quoted agentId @ '' is '' @ quoted (agent_state_name (ag_state agent)) @
                '', not paused''))
         else
           let waiting = list_ex (\<lambda>w. wt_agentId w = agentId \<and> wt_status w = WActive) (gw_waits s) in
           case requireTransition agentId (ag_state agent) (if waiting then ResumeWaiting else ResumeIdle) of
             Inl e \<Rightarrow> Inl (TransitionRefused e)
           | Inr next \<Rightarrow>
               let s1 = setAgentState u agentId (ag_state agent) next (''resumed by '' @ actor) s;
                   s2 = audit u actor ''agent.resume'' ''agent'' agentId [] s1
               in (case scheduleAgent u td agentId None s2 of
                     Inl e \<Rightarrow> Inl e
                   | Inr (_, s3) \<Rightarrow>
                       Inr (case lockAgent s3 agentId of None \<Rightarrow> next | Some a \<Rightarrow> ag_state a, s3)))"

fun run_status_name :: "run_status \<Rightarrow> string" where
  "run_status_name RQueued = ''queued''"
| "run_status_name RRunning = ''running''"
| "run_status_name RSucceeded = ''succeeded''"
| "run_status_name RFailed = ''failed''"
| "run_status_name RCancelled = ''cancelled''"

definition cancelRun :: "uow \<Rightarrow> string \<Rightarrow> string \<Rightarrow> gateway \<Rightarrow> cancelled_job list uow_result" where
  "cancelRun u runId actor s =
    (case find_run s runId of
       None \<Rightarrow> Inl (AdminError (''run '' @ quoted runId @ '' does not exist''))
     | Some run \<Rightarrow>
         if \<not> in_progress run
         then Inl (AdminError (''run '' @ quoted runId @ '' is '' @ quoted (run_status_name (rn_status run)) @
                '', not in progress''))
         else pauseInTransaction u (rn_agentId run) actor (''run '' @ runId @ '' cancelled by '' @ actor) s)"

text \<open>The agent's run that was queued last.\<close>

definition latest_run :: "gateway \<Rightarrow> string \<Rightarrow> run_row option" where
  "latest_run s agentId =
    (case sort_key (\<lambda>r. - rn_queuedAt r) (filter (\<lambda>r. rn_agentId r = agentId) (gw_runs s)) of
       [] \<Rightarrow> None | r # _ \<Rightarrow> Some r)"

definition reopen_inbox :: "string \<Rightarrow> gateway \<Rightarrow> gateway" where
  "reopen_inbox runId s =
    s\<lparr>gw_inbox := update_where
        (\<lambda>i. ib_runId i = Some runId \<and> (ib_status i = IClaimed \<or> ib_status i = IConsumed))
        (\<lambda>i. i\<lparr>ib_status := IPending, ib_runId := None\<rparr>) (gw_inbox s)\<rparr>"

definition redriveRun :: "uow \<Rightarrow> turn_deps \<Rightarrow> string \<Rightarrow> string \<Rightarrow> gateway \<Rightarrow> schedule_result uow_result" where
  "redriveRun u td runId actor s =
    (case find_run s runId of
       None \<Rightarrow> Inl (AdminError (''run '' @ quoted runId @ '' does not exist''))
     | Some run \<Rightarrow>
         if map_option ag_state (lockAgent s (rn_agentId run)) \<noteq> Some Failed
         then Inl (AdminError (''agent '' @ quoted (rn_agentId run) @ '' is '' @
                quoted (case lockAgent s (rn_agentId run) of None \<Rightarrow> ''undefined''
                        | Some a \<Rightarrow> agent_state_name (ag_state a)) @ '', not failed''))
         else if rn_status run \<noteq> RFailed \<or> map_option rn_id (latest_run s (rn_agentId run)) \<noteq> Some (rn_id run)
         then Inl (AdminError (''run '' @ quoted runId @ '' is not the agent'' @ CHR 0x27 # ''s latest failed run''))
         else if list_ex (\<lambda>i. ib_runId i = Some (rn_id run) \<and>
                (case find_event s (ib_eventId i) of None \<Rightarrow> False | Some e \<Rightarrow> er_contentExpired e)) (gw_inbox s)
         then Inl (AdminError (''run '' @ quoted runId @ '' cannot be redriven: its content expired under retention''))
         else
           let s1 = audit u actor ''run.redrive'' ''run'' runId [] (reopen_inbox (rn_id run) s) in
           case scheduleAgent u td (rn_agentId run)
                  (Some \<lparr>rd_runId = rn_id run, rd_triggerEventId = rn_triggerEventId run\<rparr>) s1 of
             Inl e \<Rightarrow> Inl e
           | Inr (Skipped reason, _) \<Rightarrow>
               Inl (AdminError (''redrive of '' @ quoted runId @ '' did not start a run: '' @ reason))
           | Inr (Scheduled newId, s2) \<Rightarrow> Inr (Scheduled newId, s2))"

subsection \<open>Withdrawing approvals, enabling, the kill switch\<close>

definition withdraws_approval :: "string option \<Rightarrow> approval_row \<Rightarrow> bool" where
  "withdraws_approval agentId a \<longleftrightarrow>
    aq_status a = APending \<and> (case agentId of None \<Rightarrow> True | Some i \<Rightarrow> aq_requestedByAgentId a = i)"

definition withdraws_action :: "tool_action_status \<Rightarrow> string option \<Rightarrow> tool_action_row \<Rightarrow> bool" where
  "withdraws_action status agentId t \<longleftrightarrow>
    ta_status t = status \<and> (status = TRunning \<longrightarrow> ta_cancelRequestedAt t = None) \<and>
    (case agentId of None \<Rightarrow> True | Some i \<Rightarrow> ta_agentId t = i)"

definition cancel_pending :: "string option \<Rightarrow> gateway \<Rightarrow> gateway" where
  "cancel_pending agentId s =
    s\<lparr>gw_approvals := update_where (withdraws_approval agentId) (\<lambda>a. a\<lparr>aq_status := ACancelled\<rparr>) (gw_approvals s)\<rparr>"

definition audited_ids :: "string list \<Rightarrow> json" where
  "audited_ids ids = JArr (map JStr (take 50 ids))"

definition withdrawOpenApprovals :: "uow \<Rightarrow> string option \<Rightarrow> string \<Rightarrow> bool \<Rightarrow> gateway \<Rightarrow> nat \<times> gateway" where
  "withdrawOpenApprovals u agentId reason pendingOnly s =
    (let pending = filter (withdraws_approval agentId) (gw_approvals s);
         s1 = cancel_pending agentId s;
         subject = (case agentId of None \<Rightarrow> ''all'' | Some i \<Rightarrow> i)
     in if pendingOnly then
          (length pending,
           if pending = [] then s1
           else audit u ''system'' ''approvals.withdrawn'' ''gateway'' subject
             [(''reason'', JStr reason), (''approvals'', audited_ids (map aq_id pending))] s1)
        else
          let queued = filter (withdraws_action TQueued agentId) (gw_toolActions s);
              running = filter (withdraws_action TRunning agentId) (gw_toolActions s);
              s2 = s1\<lparr>gw_toolActions := update_where (withdraws_action TRunning agentId)
                  (\<lambda>t. t\<lparr>ta_cancelRequestedAt := Some (u_now u)\<rparr>)
                  (update_where (withdraws_action TQueued agentId)
                    (\<lambda>t. t\<lparr>ta_status := TCancelled, ta_completedAt := Some (u_now u),
                           ta_errorRedacted := Some (take 500 reason)\<rparr>) (gw_toolActions s))\<rparr>
          in (length pending + length queued,
              if 0 < length pending + length queued + length running
              then audit u ''system'' ''approvals.withdrawn'' ''gateway'' subject
                [(''reason'', JStr reason), (''approvals'', audited_ids (map aq_id pending)),
                 (''cancelled_actions'', audited_ids (map ta_id queued)),
                 (''stop_requested'', audited_ids (map ta_id running))] s2
              else s2))"

definition applyEnabled :: "uow \<Rightarrow> string \<Rightarrow> agent_state \<Rightarrow> bool \<Rightarrow> string \<Rightarrow> gateway \<Rightarrow> unit uow_result" where
  "applyEnabled u agentId state enabled actor s =
    (if enabled = (state \<noteq> Disabled) then Inr ((), s)
     else
       let reason = (if enabled then ''enabled'' else ''disabled'') @ '' by '' @ actor in
       if \<not> enabled then
         (case nextAgentState state Disable of
            None \<Rightarrow> Inl (AdminError (''agent '' @ quoted agentId @ '' is '' @ quoted (agent_state_name state) @
                   ''; pause it before disabling''))
          | Some next \<Rightarrow>
              let (_, s1) = cancelActiveWaits u agentId s;
                  (_, s2) = withdrawOpenApprovals u (Some agentId) reason False s1
              in Inr ((), setAgentState u agentId state next reason s2))
       else
         let transition =
           (if map_option rn_status (latest_run s agentId) = Some RFailed then EnableFailed else Enable)
         in case requireTransition agentId state transition of
              Inl e \<Rightarrow> Inl (TransitionRefused e)
            | Inr next \<Rightarrow> Inr ((), setAgentState u agentId state next reason s))"

fun pause_all ::
    "uow \<Rightarrow> string \<Rightarrow> string list \<Rightarrow> cancelled_job list \<Rightarrow> gateway \<Rightarrow> cancelled_job list uow_result" where
  "pause_all u actor [] jobs s = Inr (jobs, s)"
| "pause_all u actor (i # ids) jobs s =
    (case pauseInTransaction u i actor (''kill-all by '' @ actor) s of
       Inl e \<Rightarrow> Inl e
     | Inr (js, s1) \<Rightarrow> pause_all u actor ids (jobs @ js) s1)"

text \<open>The kill-all transaction; the approvals are resolved after it by the sweep.\<close>

definition killAll :: "uow \<Rightarrow> string \<Rightarrow> gateway \<Rightarrow> cancelled_job list uow_result" where
  "killAll u actor s =
    (let s1 = s\<lparr>gw_killSwitch := True\<rparr>;
         s2 = audit u actor ''gateway.kill_all'' ''gateway'' ''controls'' [] s1;
         (_, s3) = withdrawOpenApprovals u None (''kill-all by '' @ actor) False s2
     in pause_all u actor (map ag_id (loadAgents s3)) [] s3)"

definition releaseKillSwitch :: "uow \<Rightarrow> string \<Rightarrow> gateway \<Rightarrow> gateway" where
  "releaseKillSwitch u actor s =
    audit u actor ''gateway.kill_all_release'' ''gateway'' ''controls'' [] (s\<lparr>gw_killSwitch := False\<rparr>)"

definition OUTBOX_REDRIVE_ATTEMPTS :: nat where "OUTBOX_REDRIVE_ATTEMPTS = 8"

definition redriveOutbox :: "uow \<Rightarrow> string \<Rightarrow> string \<Rightarrow> gateway \<Rightarrow> unit uow_result" where
  "redriveOutbox u outboxId actor s =
    (let dead = (\<lambda>x. ox_id x = outboxId \<and> ox_status x = ODead \<and> \<not> ox_contentExpired x) in
     if \<not> list_ex dead (gw_outbox s)
     then Inl (AdminError (''outbox item '' @ quoted outboxId @
            '' does not exist, is not dead, or its payload expired under retention''))
     else
       let s1 = s\<lparr>gw_outbox := update_where dead
              (\<lambda>x. x\<lparr>ox_status := OPending, ox_maxAttempts := ox_attempts x + OUTBOX_REDRIVE_ATTEMPTS,
                     ox_nextAttemptAt := u_now u, ox_lockedUntil := None\<rparr>) (gw_outbox s)\<rparr>;
           s2 = send_job u (OutboxDeliverJob outboxId) s1
       in Inr ((), audit u actor ''outbox.redrive'' ''outbox'' outboxId [] s2))"

end
