(* ===== verification/Ingest.thy ===== *)
theory Ingest
  imports Scheduler
begin

text \<open>
  Accepting events, \<open>packages/core/src/services/ingest.ts\<close>: the admission of external events, the durable
  and deduplicated insert, routing with the loop counters, the application of every route (inbox entry,
  wait resolution, or what became of a lost wait), the recorded decisions and the runs they start; and
  the late routing of a mention made before a grant was recorded.
\<close>

datatype ingest_status = IngestAccepted | IngestDuplicate | IngestConflict

record ingest_result =
  ir_status :: ingest_status
  ir_eventId :: string
  ir_routes :: "route list"

text \<open>The event if an external source may ingest it; its shape was validated by the envelope's schema.\<close>

definition externalEvent :: "gateway_event \<Rightarrow> gateway_error + gateway_event" where
  "externalEvent e =
    (if isReservedEventType (ev_type e) \<or> ev_source e = GATEWAY_SOURCE \<or> ev_trustlevel e = SystemTrusted
     then Inl (ReservedEvent (ev_type e)) else Inr e)"

definition stored_event :: "gateway_event \<Rightarrow> event_row \<Rightarrow> bool" where
  "stored_event e x \<longleftrightarrow> ev_source (er_event x) = ev_source e \<and> ev_id (er_event x) = ev_id e"

definition event_row_for :: "uow \<Rightarrow> gateway_event \<Rightarrow> gateway \<Rightarrow> event_row" where
  "event_row_for u e s =
    \<lparr>er_id = fresh_id u s, er_seq = gw_seq s, er_event = e, er_payloadHash = payloadHash u e,
     er_contentHash = contentHash u e, er_senderAgentId = eventSenderAgentId e, er_receivedAt = u_now u,
     er_contentExpired = False\<rparr>"

definition insert_event :: "event_row \<Rightarrow> gateway \<Rightarrow> gateway" where
  "insert_event x s = s\<lparr>gw_events := gw_events s @ [x], gw_ids := Suc (gw_ids s), gw_seq := Suc (gw_seq s)\<rparr>"

definition duplicate :: "uow \<Rightarrow> gateway_event \<Rightarrow> string \<Rightarrow> gateway \<Rightarrow> ingest_result uow_result" where
  "duplicate u e hash s =
    (case find (stored_event e) (gw_events s) of
       None \<Rightarrow> Inl (EventNotFound (ev_id e))
     | Some existing \<Rightarrow>
         if er_payloadHash existing = hash
         then Inr (\<lparr>ir_status = IngestDuplicate, ir_eventId = er_id existing, ir_routes = []\<rparr>, s)
         else Inr (\<lparr>ir_status = IngestConflict, ir_eventId = er_id existing, ir_routes = []\<rparr>,
           audit u ''system'' ''event.conflict'' ''event'' (er_id existing)
             [(''source'', JStr (ev_source e)), (''external_id'', JStr (ev_id e))] s))"

definition addToInbox :: "uow \<Rightarrow> route \<Rightarrow> string \<Rightarrow> string option \<Rightarrow> gateway \<Rightarrow> gateway" where
  "addToInbox u r eventId waitId s =
    (if list_ex (\<lambda>i. ib_agentId i = rt_agentId r \<and> ib_eventId i = eventId) (gw_inbox s) then s
     else s\<lparr>gw_inbox := gw_inbox s @
            [\<lparr>ib_id = fresh_id u s, ib_agentId = rt_agentId r, ib_eventId = eventId, ib_status = IPending,
              ib_priority = rt_priority r, ib_runId = None, ib_waitId = waitId, ib_createdAt = u_now u\<rparr>],
            gw_ids := Suc (gw_ids s)\<rparr>)"

definition candidateWaits :: "uow \<Rightarrow> gateway_event \<Rightarrow> gateway \<Rightarrow> active_wait list" where
  "candidateWaits u e s =
    (let timeout = (if ev_type e = AgentWaitTimeout then WaitTimeoutDataSchema (u_uuid_ok u) (ev_data e) else None)
     in toActiveWaits s (filter (\<lambda>w. wt_status w = WActive \<and>
          (case timeout of Some (_, waitId) \<Rightarrow> wt_id w = waitId
           | None \<Rightarrow> wt_correlationId w = ev_correlationid e)) (gw_waits s)))"

definition applyRoute ::
    "uow \<Rightarrow> route \<Rightarrow> string \<Rightarrow> gateway_event \<Rightarrow> routing_agent list \<Rightarrow> gateway \<Rightarrow> route \<times> gateway" where
  "applyRoute u r eventId e agents s =
    (if rt_decision r = RWake then (r, addToInbox u r eventId None s)
     else case rt_waitId r of
       None \<Rightarrow> (r, s)
     | Some waitId \<Rightarrow>
         if rt_decision r \<noteq> RWaitMatch then (r, s)
         else
           let (resolved, s1) = resolveWait u waitId eventId (rt_reason r = WaitTimeoutR) s in
           if resolved then (r, addToInbox u r eventId (Some waitId) s1)
           else case Option.bind (find (\<lambda>a. ra_id a = rt_agentId r) agents) (\<lambda>a. wakePriority a e) of
             None \<Rightarrow> (r\<lparr>rt_decision := RIgnore, rt_reason := WaitLostR, rt_waitId := None\<rparr>, s1)
           | Some priority \<Rightarrow>
               let wake = r\<lparr>rt_decision := RWake, rt_reason := TargetR, rt_waitId := None, rt_priority := priority\<rparr>
               in (wake, addToInbox u wake eventId None s1))"

definition route_row_for :: "uow \<Rightarrow> string \<Rightarrow> nat option \<Rightarrow> route \<Rightarrow> route_row" where
  "route_row_for u eventId anchor r =
    \<lparr>ro_eventId = eventId, ro_agentId = rt_agentId r, ro_decision = rt_decision r,
     ro_reasonCode = route_reason_name (rt_reason r), ro_waitId = rt_waitId r, ro_cascadeAnchor = anchor,
     ro_createdAt = u_now u\<rparr>"

definition insert_route :: "route_row \<Rightarrow> gateway \<Rightarrow> gateway_error + gateway" where
  "insert_route r s =
    (if known_route r s then Inl (UniqueViolation ''event_routes_unique'')
     else Inr (s\<lparr>gw_routes := gw_routes s @ [r]\<rparr>))"

definition blocked_alert :: "uow \<Rightarrow> string \<Rightarrow> gateway_event \<Rightarrow> route \<Rightarrow> gateway \<Rightarrow> gateway" where
  "blocked_alert u eventId e r s =
    loop_alert u eventId (rt_agentId r) e (route_reason_name (rt_reason r))
      (''Loop guard '' @ quoted (route_reason_name (rt_reason r)) @ '' blocked a wake-up of @'' @ rt_agentId r @
       '' in '' @ quoted (ev_correlationid e) @ ''; the cascade is stopped.'') s"

text \<open>The loop over the routes: what took effect is recorded, a blocked wake-up is alerted.\<close>

fun apply_routes ::
    "uow \<Rightarrow> string \<Rightarrow> gateway_event \<Rightarrow> routing_agent list \<Rightarrow> nat option \<Rightarrow> route list \<Rightarrow> gateway \<Rightarrow>
     route list uow_result" where
  "apply_routes u eventId e agents anchor [] s = Inr ([], s)"
| "apply_routes u eventId e agents anchor (r # rs) s =
    (let (final, s1) = applyRoute u r eventId e agents s in
     case insert_route (route_row_for u eventId anchor final) s1 of
       Inl err \<Rightarrow> Inl err
     | Inr s2 \<Rightarrow>
         (case apply_routes u eventId e agents anchor rs
                 (if rt_decision final = RBlocked then blocked_alert u eventId e final s2 else s2) of
            Inl err \<Rightarrow> Inl err
          | Inr (finals, s3) \<Rightarrow> Inr (final # finals, s3)))"

fun schedule_each :: "uow \<Rightarrow> turn_deps \<Rightarrow> string list \<Rightarrow> gateway \<Rightarrow> gateway_error + gateway" where
  "schedule_each u td [] s = Inr s"
| "schedule_each u td (i # ids) s =
    (case scheduleAgent u td i None s of Inl err \<Rightarrow> Inl err | Inr (_, s1) \<Rightarrow> schedule_each u td ids s1)"

definition toSchedule :: "route list \<Rightarrow> string list" where
  "toSchedule finals = sort (js_set (map rt_agentId (filter granted finals)))"

definition ingestInTransaction ::
    "uow \<Rightarrow> turn_deps \<Rightarrow> gateway_event \<Rightarrow> gateway \<Rightarrow> ingest_result uow_result" where
  "ingestInTransaction u td e s =
    (if list_ex (stored_event e) (gw_events s) then duplicate u e (payloadHash u e) s
     else
       let position = event_row_for u e s; eventId = er_id position; s1 = insert_event position s in
       case loadActiveConfig s1 of
         None \<Rightarrow> Inr (\<lparr>ir_status = IngestAccepted, ir_eventId = eventId, ir_routes = []\<rparr>, s1)
       | Some config \<Rightarrow>
           let access = loadChannelAccess s1;
               agents = map (\<lambda>a. toRoutingAgent a access) (loadAgents s1);
               waits = candidateWaits u e s1;
               guards = loopStats u e position s1;
               routes = routeEvent (u_uuid_ok u)
                 \<lparr>ri_event = e, ri_agents = agents, ri_waits = waits, ri_limits = ac_limits config,
                  ri_stats = fst guards, ri_now = u_now u\<rparr>
           in (case apply_routes u eventId e agents (snd guards) routes s1 of
                 Inl err \<Rightarrow> Inl err
               | Inr (finals, s2) \<Rightarrow>
                   (case schedule_each u td (toSchedule finals) s2 of
                      Inl err \<Rightarrow> Inl err
                    | Inr s3 \<Rightarrow>
                        Inr (\<lparr>ir_status = IngestAccepted, ir_eventId = eventId, ir_routes = finals\<rparr>, s3))))"

definition ingestEvent :: "uow \<Rightarrow> turn_deps \<Rightarrow> gateway_event \<Rightarrow> gateway \<Rightarrow> ingest_result uow_result" where
  "ingestEvent u td e s =
    (case externalEvent e of Inl err \<Rightarrow> Inl err | Inr valid \<Rightarrow> ingestInTransaction u td valid s)"

definition ingestEventIf ::
    "uow \<Rightarrow> turn_deps \<Rightarrow> gateway_event \<Rightarrow> (gateway \<Rightarrow> bool) \<Rightarrow> gateway \<Rightarrow> ingest_result option uow_result" where
  "ingestEventIf u td e admit s =
    (case externalEvent e of
       Inl err \<Rightarrow> Inl err
     | Inr valid \<Rightarrow>
         if \<not> admit s then Inr (None, s)
         else (case ingestInTransaction u td valid s of
                 Inl err \<Rightarrow> Inl err | Inr (r, s1) \<Rightarrow> Inr (Some r, s1)))"

subsection \<open>A mention from before the grant\<close>

definition with_target :: "gateway_event \<Rightarrow> mattermost_post_data \<Rightarrow> string \<Rightarrow> gateway_event" where
  "with_target e post agentId =
    e\<lparr>ev_data :=
      [(''post_id'', JStr (post_id post)), (''root_id'', json_option (root_id post)),
       (''channel_id'', JStr (channel_id post)), (''user_id'', JStr (user_id post)),
       (''sender_agent_id'', json_option (sender_agent_id post)),
       (''target_agent_ids'', JArr (map JStr (target_agent_ids post @ [agentId]))),
       (''message'', JStr (message post))]\<rparr>"

text \<open>The stored post a late mention is about, if it may be routed to the agent at all.\<close>

definition granted_mention_row ::
    "string \<Rightarrow> string \<Rightarrow> string \<Rightarrow> string \<Rightarrow> gateway \<Rightarrow> (event_row \<times> mattermost_post_data) option" where
  "granted_mention_row source agentId channelId postId s =
    (case find (\<lambda>x. ev_source (er_event x) = source \<and>
            ev_subject (er_event x) = Some (''channel/'' @ channelId @ ''/post/'' @ postId) \<and>
            ev_type (er_event x) \<in> set NEW_POST_EVENT_TYPES) (gw_events s) of
       None \<Rightarrow> None
     | Some row \<Rightarrow>
         if ev_trustlevel (er_event row) \<noteq> HumanTrusted then None
         else case mattermostPost (er_event row) of
           None \<Rightarrow> None
         | Some post \<Rightarrow>
             if agentId \<in> set (target_agent_ids post) \<or> 8 \<le> length (target_agent_ids post) then None
             else if list_ex (\<lambda>r. ro_eventId r = er_id row \<and> ro_agentId r = agentId) (gw_routes s) then None
             else Some (row, post))"

definition routeGrantedMention ::
    "uow \<Rightarrow> turn_deps \<Rightarrow> string \<Rightarrow> string \<Rightarrow> string \<Rightarrow> string \<Rightarrow> gateway \<Rightarrow> bool uow_result" where
  "routeGrantedMention u td source agentId channelId postId s =
    (case (granted_mention_row source agentId channelId postId s, loadActiveConfig s,
           find (\<lambda>a. ag_id a = agentId) (loadAgents s)) of
       (Some (row, post), Some config, Some agent) \<Rightarrow>
         let agents = [toRoutingAgent agent (loadChannelAccess s)];
             e = with_target (er_event row) post agentId;
             guards = loopStats u e row s
         in (case routeEvent (u_uuid_ok u)
                 \<lparr>ri_event = e, ri_agents = agents, ri_waits = [], ri_limits = ac_limits config,
                  ri_stats = fst guards, ri_now = u_now u\<rparr> of
               [] \<Rightarrow> Inr (False, s)
             | r # _ \<Rightarrow>
                 (case apply_routes u (er_id row) e agents (snd guards) [r] s of
                    Inl err \<Rightarrow> Inl err
                  | Inr (finals, s1) \<Rightarrow>
                      if map rt_decision finals \<noteq> [RWake] then Inr (False, s1)
                      else (case scheduleAgent u td agentId None s1 of
                              Inl err \<Rightarrow> Inl err | Inr (_, s2) \<Rightarrow> Inr (True, s2))))
     | _ \<Rightarrow> Inr (False, s))"

end
