(* ===== verification/Approvals.thy ===== *)
theory Approvals
  imports Operations Ingest
begin

text \<open>
  Human approvals and the actions they release: \<open>packages/core/src/services/approval-store.ts\<close>,
  \<open>approvals.ts\<close> and \<open>wait-timeouts.ts\<close>, with the tool runner's door \<open>gateway_begin_tool_action\<close> and the
  guards of the approval tables (\<open>packages/db/migrations/0011_approval_guards.sql\<close>).

  An owner answers a card in its thread (\<open>handleApprovalReply\<close>); a grant stores one tool action and sends
  it to the tool runner, which begins it through the database and reports back (\<open>handleToolReport\<close>). What
  nobody answers, begins or reports is settled by the sweep and by the wait's timeout, and the agent that
  asked is told once (\<open>resolveApproval\<close>). A row that is locked is still there when it is updated, so the
  checks for a vanished row are left out. Receipts hold strings under \<open>postId\<close> and \<open>channelId\<close>.
\<close>

subsection \<open>The approval store\<close>

definition APPROVAL_CORRELATION_PREFIX :: string where "APPROVAL_CORRELATION_PREFIX = ''approval:''"
definition CARD_KEY_PREFIX :: string where "CARD_KEY_PREFIX = ''approval-card:''"

definition approvalIdOf :: "string \<Rightarrow> string option" where
  "approvalIdOf correlationId =
    (if startsWith correlationId APPROVAL_CORRELATION_PREFIX
     then Some (drop (length APPROVAL_CORRELATION_PREFIX) correlationId) else None)"

definition find_approval :: "gateway \<Rightarrow> string \<Rightarrow> approval_row option" where
  "find_approval s i = find (\<lambda>a. aq_id a = i) (gw_approvals s)"

definition action_of :: "gateway \<Rightarrow> string \<Rightarrow> tool_action_row option" where
  "action_of s approvalId = find (\<lambda>t. ta_approvalId t = approvalId) (gw_toolActions s)"

definition find_action :: "gateway \<Rightarrow> string \<Rightarrow> tool_action_row option" where
  "find_action s i = find (\<lambda>t. ta_id t = i) (gw_toolActions s)"

definition lockApproval :: "gateway \<Rightarrow> string \<Rightarrow> (approval_row \<times> tool_action_row option) option" where
  "lockApproval s approvalId =
    map_option (\<lambda>a. (a, action_of s approvalId)) (find_approval s approvalId)"

definition update_approval :: "string \<Rightarrow> (approval_row \<Rightarrow> approval_row) \<Rightarrow> gateway \<Rightarrow> gateway" where
  "update_approval i f s = s\<lparr>gw_approvals := update_where (\<lambda>a. aq_id a = i) f (gw_approvals s)\<rparr>"

definition update_action :: "string \<Rightarrow> (tool_action_row \<Rightarrow> tool_action_row) \<Rightarrow> gateway \<Rightarrow> gateway" where
  "update_action i f s = s\<lparr>gw_toolActions := update_where (\<lambda>t. ta_id t = i) f (gw_toolActions s)\<rparr>"

record card_post =
  ck_postId :: string
  ck_channelId :: string

fun receiptOf :: "json option \<Rightarrow> card_post option" where
  "receiptOf (Some (JObj kvs)) =
    (case (map_of kvs ''postId'', map_of kvs ''channelId'') of
       (Some (JStr p), Some (JStr c)) \<Rightarrow> Some \<lparr>ck_postId = p, ck_channelId = c\<rparr>
     | _ \<Rightarrow> None)"
| "receiptOf _ = None"

definition approvalCard :: "gateway \<Rightarrow> string \<Rightarrow> card_post option" where
  "approvalCard s approvalId =
    Option.bind (find (\<lambda>x. ox_idempotencyKey x = CARD_KEY_PREFIX @ approvalId) (gw_outbox s))
      (\<lambda>x. receiptOf (ox_receipt x))"

datatype card_lookup = Card string card_post | CardPending | NoCard

fun is_card :: "outbox_payload \<Rightarrow> bool" where
  "is_card (MattermostApproval _) = True"
| "is_card _ = False"

text \<open>\<open>receipt ->> 'postId'\<close>.\<close>

fun receipt_post :: "json option \<Rightarrow> string option" where
  "receipt_post (Some (JObj kvs)) = (case map_of kvs ''postId'' of Some (JStr p) \<Rightarrow> Some p | _ \<Rightarrow> None)"
| "receipt_post _ = None"

definition card_row :: "gateway \<Rightarrow> string \<Rightarrow> outbox_row option" where
  "card_row s rootPostId =
    find (\<lambda>x. is_card (ox_payload x) \<and> receipt_post (ox_receipt x) = Some rootPostId) (gw_outbox s)"

definition approvalByCardPost :: "gateway \<Rightarrow> string \<Rightarrow> string option \<Rightarrow> card_lookup" where
  "approvalByCardPost s rootPostId rootCardKey =
    (case Option.bind (card_row s rootPostId) (\<lambda>x. map_option (Pair x) (receiptOf (ox_receipt x))) of
       Some (x, cpost) \<Rightarrow> Card (drop (length CARD_KEY_PREFIX) (ox_idempotencyKey x)) cpost
     | None \<Rightarrow>
         (case rootCardKey of
            None \<Rightarrow> NoCard
          | Some key \<Rightarrow>
              if startsWith key CARD_KEY_PREFIX \<and>
                 list_ex (\<lambda>x. ox_idempotencyKey x = key \<and> is_card (ox_payload x) \<and> ox_receipt x = None \<and>
                   ox_status x \<noteq> ODead) (gw_outbox s)
              then CardPending else NoCard))"

definition postApprovalNotice :: "uow \<Rightarrow> string \<Rightarrow> approval_reply_payload \<Rightarrow> gateway \<Rightarrow> gateway" where
  "postApprovalNotice u key p s =
    enqueueOutbox u (''channel/'' @ ar_channelId p @ ''/thread/'' @ ar_rootPostId p)
      (MattermostApprovalReply p) key None s"

definition postNoticeOnCard ::
    "uow \<Rightarrow> string \<Rightarrow> string \<Rightarrow> approval_notice \<Rightarrow> approval_outcome option \<Rightarrow> (string \<times> json) list option \<Rightarrow>
     string option \<Rightarrow> gateway \<Rightarrow> gateway" where
  "postNoticeOnCard u approvalId key notice outcome receipt detail s =
    (case approvalCard s approvalId of
       None \<Rightarrow> s
     | Some cpost \<Rightarrow>
         postApprovalNotice u key
           \<lparr>ar_approvalId = approvalId, ar_channelId = ck_channelId cpost, ar_rootPostId = ck_postId cpost,
            ar_notice = notice, ar_userId = None, ar_outcome = outcome, ar_receipt = receipt, ar_detail = detail\<rparr> s)"

fun action_outcome :: "tool_action_status \<Rightarrow> approval_outcome option" where
  "action_outcome TQueued = None"
| "action_outcome TRunning = None"
| "action_outcome TSucceeded = Some ApSucceeded"
| "action_outcome TFailed = Some ApFailed"
| "action_outcome TUnknown = Some ApUnknown"
| "action_outcome TCancelled = Some ApCancelled"

definition approvalOutcome :: "approval_row \<Rightarrow> tool_action_row option \<Rightarrow> approval_outcome option" where
  "approvalOutcome approval action =
    (case aq_status approval of
       ADenied \<Rightarrow> Some ApDenied
     | AExpired \<Rightarrow> Some ApExpired
     | ACancelled \<Rightarrow> Some ApCancelled
     | AGranted \<Rightarrow> Option.bind action (\<lambda>t. action_outcome (ta_status t))
     | APending \<Rightarrow> None)"

definition runHop :: "gateway \<Rightarrow> string \<Rightarrow> nat" where
  "runHop s runId = (case find_run s runId of None \<Rightarrow> 0 | Some r \<Rightarrow> rn_hop r)"

fun outcome_name :: "approval_outcome \<Rightarrow> string" where
  "outcome_name ApDenied = ''denied''"
| "outcome_name ApExpired = ''expired''"
| "outcome_name ApCancelled = ''cancelled''"
| "outcome_name ApSucceeded = ''succeeded''"
| "outcome_name ApFailed = ''failed''"
| "outcome_name ApUnknown = ''unknown''"

definition approval_event ::
    "uow \<Rightarrow> string \<Rightarrow> gateway_event_type \<Rightarrow> approval_row \<Rightarrow> (string \<times> json) list \<Rightarrow> gateway \<Rightarrow> gateway_event" where
  "approval_event u i type approval data s =
    internalEvent i type (u_now u) (Some (''approval/'' @ aq_id approval)) (approvalCorrelation (aq_id approval))
      (Some (''run:'' @ aq_runId approval)) (runHop s (aq_runId approval)) data None"

definition resolveApproval ::
    "uow \<Rightarrow> turn_deps \<Rightarrow> approval_row \<Rightarrow> tool_action_row option \<Rightarrow> string option \<Rightarrow> gateway \<Rightarrow> bool uow_result" where
  "resolveApproval u td approval action detail s =
    (case approvalOutcome approval action of
       None \<Rightarrow> Inr (False, s)
     | Some outcome \<Rightarrow>
         if aq_resolvedAt approval \<noteq> None then Inr (False, s)
         else
           let receipt = Option.bind action ta_receipt;
               reason = (case detail of Some d \<Rightarrow> Some d | None \<Rightarrow> Option.bind action ta_errorRedacted);
               data = [(''approval_id'', JStr (aq_id approval)), (''action_type'', JStr (aq_actionType approval)),
                 (''outcome'', JStr (outcome_name outcome)),
                 (''decided_by_user_id'', json_option (aq_decidedByUserId approval)),
                 (''receipt'', case receipt of None \<Rightarrow> JNull | Some r \<Rightarrow> JObj r), (''detail'', json_option reason)]
           in (case ingestInTransaction u td
                      (approval_event u (''approval-resolved:'' @ aq_id approval) ApprovalResolved approval data s) s of
                 Inl e \<Rightarrow> Inl e
               | Inr (_, s1) \<Rightarrow>
                   Inr (True, update_approval (aq_id approval) (\<lambda>a. a\<lparr>aq_resolvedAt := Some (u_now u)\<rparr>) s1)))"

definition recordDecision ::
    "uow \<Rightarrow> turn_deps \<Rightarrow> approval_row \<Rightarrow> gateway_event_type \<Rightarrow> string \<Rightarrow> gateway \<Rightarrow> ingest_result uow_result" where
  "recordDecision u td approval type userId s =
    ingestInTransaction u td
      (approval_event u (event_type_name type @ '':'' @ aq_id approval) type approval
        [(''approval_id'', JStr (aq_id approval)), (''action_type'', JStr (aq_actionType approval)),
         (''decided_by_user_id'', JStr userId)] s) s"

definition extendApprovalWait :: "uow \<Rightarrow> string \<Rightarrow> millis \<Rightarrow> gateway \<Rightarrow> gateway" where
  "extendApprovalWait u approvalId until s =
    (let own = (\<lambda>w. wt_correlationId w = approvalCorrelation approvalId \<and> wt_status w = WActive) in
     fold (\<lambda>w. send_job u (WaitTimeoutJob (wt_id w) until)) (filter own (gw_waits s))
       (s\<lparr>gw_waits := update_where own (\<lambda>w. w\<lparr>wt_timeoutAt := until\<rparr>) (gw_waits s)\<rparr>))"

subsection \<open>Deciding\<close>

definition TOOL_BEGIN_WINDOW_MS :: millis where "TOOL_BEGIN_WINDOW_MS = 15 * 60 * 1000"
definition TOOL_RUN_GRACE_MS :: millis where "TOOL_RUN_GRACE_MS = 15 * 60 * 1000"
definition WAIT_MARGIN_MS :: millis where "WAIT_MARGIN_MS = 5 * 60 * 1000"

record reply_author =
  auth_isBot :: bool
  auth_active :: bool
  auth_automated :: bool

record approval_reply =
  rep_postId :: string
  rep_rootPostId :: string
  rep_rootCardKey :: "string option"
  rep_channelId :: string
  rep_userId :: string
  rep_message :: string
  rep_author :: reply_author

datatype reply_outcome = Notice approval_notice | NotACard | Replayed | IgnoredReply

text \<open>What a grant is checked against and other services compute: the agent's effective tool lists
  (\<open>loadEffectivePermissionsIn\<close>) and the pinned definition of a custom tool (\<open>customGrantTimeIssues\<close>).\<close>

record grant_deps =
  gd_toolPolicy :: "gateway \<Rightarrow> agent_row \<Rightarrow> string \<Rightarrow> tool_lists"
  gd_customIssues :: "gateway \<Rightarrow> string \<Rightarrow> string \<Rightarrow> action_param list \<Rightarrow> string list"

definition notApprover :: "approval_row \<Rightarrow> approval_reply \<Rightarrow> gateway \<Rightarrow> string option" where
  "notApprover approval reply s =
    (if auth_isBot (rep_author reply) then Some ''the author is a bot account''
     else if auth_automated (rep_author reply)
     then Some ''the post was made by an integration (webhook, bot or plugin props)''
     else if \<not> auth_active (rep_author reply) then Some (''the author'' @ CHR 0x27 # ''s account is deactivated'')
     else if rep_userId reply \<notin> set (aq_allowedApproverUserIds approval)
     then Some ''the author is not an approver of this request''
     else if rep_userId reply \<notin> set (loadOwnerUserIds s) then Some ''the author is no longer an owner''
     else None)"

definition executionIssues :: "uow \<Rightarrow> grant_deps \<Rightarrow> approval_row \<Rightarrow> gateway \<Rightarrow> string list" where
  "executionIssues u gd approval s =
    (case (loadActiveConfig s, find (\<lambda>a. ag_id a = aq_requestedByAgentId approval) (loadAgents s)) of
       (Some config, Some agent) \<Rightarrow>
         if ag_state agent = Disabled then [CHR ''@'' # ag_id agent @ '' is disabled'']
         else
           approvedActionIssues (gd_toolPolicy gd s agent (ac_finance_agent_id config))
             \<lparr>ts_agentId = ag_id agent, ts_financeAgentId = ac_finance_agent_id config\<rparr>
             (aq_actionType approval) (aq_actionParams approval) @
           gd_customIssues gd s (ag_id agent) (aq_actionType approval) (aq_actionParams approval) @
           (if approvalActionHash (u_sha256Hex u) (aq_actionType approval) (aq_actionParams approval) \<noteq>
               aq_immutableActionHash approval
            then [''the stored action no longer matches its hash''] else []) @
           (if toolNamespace (aq_actionType approval) = None
            then [''no tool namespace executes '' @ quoted (aq_actionType approval)] else [])
     | _ \<Rightarrow> [''the requesting agent is no longer configured''])"

type_synonym verdict = "approval_notice \<times> string option"

definition deny :: "uow \<Rightarrow> turn_deps \<Rightarrow> approval_row \<Rightarrow> approval_reply \<Rightarrow> gateway \<Rightarrow> verdict uow_result" where
  "deny u td approval reply s =
    (let set_denied = (\<lambda>a. a\<lparr>aq_status := ADenied, aq_decidedByUserId := Some (rep_userId reply),
           aq_decidedAt := Some (u_now u), aq_decisionPostId := Some (rep_postId reply)\<rparr>);
         s1 = update_approval (aq_id approval) set_denied s;
         s2 = audit u (''mattermost:'' @ rep_userId reply) ''approval.denied'' ''approval'' (aq_id approval)
           [(''post_id'', JStr (rep_postId reply))] s1
     in case recordDecision u td (set_denied approval) ApprovalDenied (rep_userId reply) s2 of
          Inl e \<Rightarrow> Inl e
        | Inr (_, s3) \<Rightarrow>
            (case resolveApproval u td (set_denied approval) None None s3 of
               Inl e \<Rightarrow> Inl e
             | Inr (_, s4) \<Rightarrow> Inr ((NDenied, None), s4)))"

definition toolActionIdempotencyKey :: "string \<Rightarrow> string \<Rightarrow> string" where
  "toolActionIdempotencyKey approvalId actionHash = ''tool-action:'' @ approvalId @ '':'' @ actionHash"

definition toolExecuteQueue :: "string \<Rightarrow> string" where
  "toolExecuteQueue namespace = ''tool.execute.'' @ namespace"

text \<open>\<open>Math.ceil(ms / 1000)\<close>.\<close>

definition ceil_seconds :: "millis \<Rightarrow> int" where
  "ceil_seconds ms = - ((- ms) div 1000)"

definition enqueueToolAction :: "uow \<Rightarrow> tool_action_row \<Rightarrow> gateway \<Rightarrow> gateway" where
  "enqueueToolAction u action s =
    send_job u (ToolExecuteJob (toolExecuteQueue (ta_namespace action))
      \<lparr>tj_actionId = ta_id action, tj_approvalId = ta_approvalId action, tj_attempt = ta_attempt action,
       tj_agentId = ta_agentId action, tj_actionType = ta_actionType action,
       tj_actionParams = ta_actionParams action, tj_immutableActionHash = ta_immutableActionHash action,
       tj_deadline = ta_deadlineAt action\<rparr>
      (ceil_seconds (ta_deadlineAt action - u_now u + TOOL_RUN_GRACE_MS))) s"

definition insert_action :: "tool_action_row \<Rightarrow> gateway \<Rightarrow> gateway_error + gateway" where
  "insert_action t s =
    (if list_ex (\<lambda>x. ta_id x = ta_id t \<or> ta_approvalId x = ta_approvalId t \<or>
          ta_idempotencyKey x = ta_idempotencyKey t) (gw_toolActions s)
     then Inl (UniqueViolation ''tool_actions'')
     else Inr (s\<lparr>gw_toolActions := gw_toolActions s @ [t], gw_ids := Suc (gw_ids s)\<rparr>))"

definition note_refusal :: "uow \<Rightarrow> approval_row \<Rightarrow> approval_reply \<Rightarrow> string list \<Rightarrow> gateway \<Rightarrow> gateway" where
  "note_refusal u approval reply issues s =
    raiseAlert u (''approval-refused:'' @ aq_id approval)
      (''Approval '' @ aq_id approval @ '' was approved, but '' @ quoted (aq_actionType approval) @ '' of @'' @
       aq_requestedByAgentId approval @ '' cannot run: '' @ js_join ''; '' (take 3 issues) @ ''.'')
      [(''approval_id'', JStr (aq_id approval))]
      (audit u (''mattermost:'' @ rep_userId reply) ''approval.refused'' ''approval'' (aq_id approval)
        [(''post_id'', JStr (rep_postId reply)), (''reasons'', JArr (map JStr (take 5 issues)))] s)"

definition refuse_grant ::
    "uow \<Rightarrow> turn_deps \<Rightarrow> approval_row \<Rightarrow> approval_reply \<Rightarrow> string list \<Rightarrow> gateway \<Rightarrow> verdict uow_result" where
  "refuse_grant u td approval reply issues s =
    (let s1 = fold (\<lambda>reason. record_decision u (aq_runId approval) (aq_requestedByAgentId approval)
           (aq_actionType approval) PDeny reason) (take 20 issues) s;
         set_cancelled = (\<lambda>a. a\<lparr>aq_status := ACancelled, aq_decisionPostId := Some (rep_postId reply)\<rparr>);
         s2 = update_approval (aq_id approval) set_cancelled s1;
         detail = take 500 (u_redact u (''refused: '' @ js_join ''; '' issues))
     in case resolveApproval u td (set_cancelled approval) None (Some detail)
               (note_refusal u approval reply issues s2) of
          Inl e \<Rightarrow> Inl e
        | Inr (_, s3) \<Rightarrow> Inr ((NRefused, Some detail), s3))"

definition accept_grant ::
    "uow \<Rightarrow> turn_deps \<Rightarrow> approval_row \<Rightarrow> approval_reply \<Rightarrow> string \<Rightarrow> active_config \<Rightarrow> gateway \<Rightarrow> verdict uow_result" where
  "accept_grant u td approval reply namespace config s =
    (let set_granted = (\<lambda>a. a\<lparr>aq_status := AGranted, aq_decidedByUserId := Some (rep_userId reply),
           aq_decidedAt := Some (u_now u), aq_decisionPostId := Some (rep_postId reply)\<rparr>);
         s1 = update_approval (aq_id approval) set_granted s;
         deadline = u_now u + TOOL_BEGIN_WINDOW_MS;
         action = \<lparr>ta_id = fresh_id u s1, ta_approvalId = aq_id approval, ta_agentId = aq_requestedByAgentId approval,
           ta_namespace = namespace, ta_actionType = aq_actionType approval, ta_actionParams = aq_actionParams approval,
           ta_immutableActionHash = aq_immutableActionHash approval,
           ta_idempotencyKey = toolActionIdempotencyKey (aq_id approval) (aq_immutableActionHash approval),
           ta_status = TQueued, ta_attempt = 1, ta_configVersion = ac_version config, ta_deadlineAt = deadline,
           ta_cancelRequestedAt = None, ta_startedAt = None, ta_completedAt = None, ta_receipt = None,
           ta_errorRedacted = None, ta_createdAt = u_now u\<rparr>
     in case insert_action action s1 of
          Inl e \<Rightarrow> Inl e
        | Inr s2 \<Rightarrow>
            let s3 = record_decision u (aq_runId approval) (aq_requestedByAgentId approval) (aq_actionType approval)
                  PAllow ''approved by an owner'' s2;
                s4 = enqueueToolAction u action s3;
                s5 = extendApprovalWait u (aq_id approval) (deadline + TOOL_RUN_GRACE_MS + WAIT_MARGIN_MS) s4;
                s6 = audit u (''mattermost:'' @ rep_userId reply) ''approval.granted'' ''approval'' (aq_id approval)
                  [(''post_id'', JStr (rep_postId reply)), (''tool_action_id'', JStr (ta_id action))] s5
            in (case recordDecision u td (set_granted approval) ApprovalGranted (rep_userId reply) s6 of
                  Inl e \<Rightarrow> Inl e
                | Inr (_, s7) \<Rightarrow> Inr ((NGranted, None), s7)))"

definition grant ::
    "uow \<Rightarrow> turn_deps \<Rightarrow> grant_deps \<Rightarrow> approval_row \<Rightarrow> approval_reply \<Rightarrow> gateway \<Rightarrow> verdict uow_result" where
  "grant u td gd approval reply s =
    (let issues = executionIssues u gd approval s @
           (if isKillSwitchOn s then [''the kill switch is on''] else []) in
     case (toolNamespace (aq_actionType approval), loadActiveConfig s) of
       (Some namespace, Some config) \<Rightarrow>
         if issues \<noteq> [] then refuse_grant u td approval reply issues s
         else accept_grant u td approval reply namespace config s
     | _ \<Rightarrow> refuse_grant u td approval reply issues s)"

fun approval_status_name :: "approval_status \<Rightarrow> string" where
  "approval_status_name APending = ''pending''"
| "approval_status_name AGranted = ''granted''"
| "approval_status_name ADenied = ''denied''"
| "approval_status_name AExpired = ''expired''"
| "approval_status_name ACancelled = ''cancelled''"

definition code_of :: "uow \<Rightarrow> approval_row \<Rightarrow> string" where
  "code_of u approval =
    approvalCode (u_digest u) (aq_id approval) (aq_nonce approval) (aq_immutableActionHash approval)"

text \<open>What an approver's exact command gets: \<open>approves\<close> tells \<open>approve\<close> from \<open>deny\<close>.\<close>

definition decide_command ::
    "uow \<Rightarrow> turn_deps \<Rightarrow> grant_deps \<Rightarrow> approval_row \<Rightarrow> approval_reply \<Rightarrow> bool \<Rightarrow> string \<Rightarrow> gateway \<Rightarrow> verdict uow_result" where
  "decide_command u td gd approval reply approves code s =
    (if code \<noteq> code_of u approval then
       Inr ((NWrongCode, None),
         audit u ''system'' ''approval.wrong_code'' ''approval'' (aq_id approval)
           [(''post_id'', JStr (rep_postId reply)), (''user_id'', JStr (rep_userId reply))] s)
     else if aq_status approval = AExpired then Inr ((NExpired, None), s)
     else if aq_status approval \<noteq> APending
     then Inr ((NAlreadyDecided, Some (approval_status_name (aq_status approval))), s)
     else if aq_expiresAt approval \<le> u_now u then Inr ((NExpired, None), s)
     else if approves then grant u td gd approval reply s
     else deny u td approval reply s)"

definition decide ::
    "uow \<Rightarrow> turn_deps \<Rightarrow> grant_deps \<Rightarrow> approval_row \<Rightarrow> approval_reply \<Rightarrow> approval_command \<Rightarrow> gateway \<Rightarrow> verdict uow_result" where
  "decide u td gd approval reply command s =
    (case notApprover approval reply s of
       Some refusal \<Rightarrow>
         let s1 = audit u ''system'' ''approval.decision_rejected'' ''approval'' (aq_id approval)
               [(''post_id'', JStr (rep_postId reply)), (''user_id'', JStr (rep_userId reply)),
                (''reason'', JStr refusal)] s;
             s2 = raiseAlert u (''approval-forgery:'' @ aq_id approval @ '':'' @ rep_userId reply)
               (''A command in the thread of approval '' @ aq_id approval @ '' was ignored: '' @ refusal @ ''.'')
               [(''approval_id'', JStr (aq_id approval)), (''post_id'', JStr (rep_postId reply)),
                (''user_id'', JStr (rep_userId reply))] s1
         in Inr ((NNotAnApprover, None), s2)
     | None \<Rightarrow>
         (case command of
            Malformed \<Rightarrow> Inr ((NMalformed, None), s)
          | Approve code \<Rightarrow> decide_command u td gd approval reply True code s
          | Deny code \<Rightarrow> decide_command u td gd approval reply False code s))"

definition answer_reply ::
    "uow \<Rightarrow> approval_row \<Rightarrow> approval_reply \<Rightarrow> card_post \<Rightarrow> verdict \<Rightarrow> gateway \<Rightarrow> gateway" where
  "answer_reply u approval reply cpost verdict s =
    postApprovalNotice u (''approval-reply:'' @ rep_postId reply)
      \<lparr>ar_approvalId = aq_id approval, ar_channelId = ck_channelId cpost, ar_rootPostId = ck_postId cpost,
       ar_notice = fst verdict, ar_userId = Some (rep_userId reply), ar_outcome = None, ar_receipt = None,
       ar_detail = snd verdict\<rparr>
      (s\<lparr>gw_replies := gw_replies s @
        [\<lparr>ay_postId = rep_postId reply, ay_approvalId = aq_id approval, ay_userId = rep_userId reply,
          ay_notice = fst verdict, ay_createdAt = u_now u\<rparr>]\<rparr>)"

definition handleApprovalReply ::
    "uow \<Rightarrow> turn_deps \<Rightarrow> grant_deps \<Rightarrow> approval_reply \<Rightarrow> gateway \<Rightarrow> reply_outcome uow_result" where
  "handleApprovalReply u td gd reply s =
    (case parseApprovalCommand (rep_message reply) of
       None \<Rightarrow> Inr (IgnoredReply, s)
     | Some command \<Rightarrow>
         (case approvalByCardPost s (rep_rootPostId reply) (rep_rootCardKey reply) of
            CardPending \<Rightarrow> Inl (ApprovalCardPending (rep_postId reply))
          | NoCard \<Rightarrow> Inr (NotACard, s)
          | Card approvalId cpost \<Rightarrow>
              if ck_channelId cpost \<noteq> rep_channelId reply then Inr (NotACard, s)
              else case lockApproval s approvalId of
                None \<Rightarrow> Inr (NotACard, s)
              | Some (approval, _) \<Rightarrow>
                  if list_ex (\<lambda>y. ay_postId y = rep_postId reply) (gw_replies s) then Inr (Replayed, s)
                  else case decide u td gd approval reply command s of
                    Inl e \<Rightarrow> Inl e
                  | Inr (verdict, s1) \<Rightarrow>
                      Inr (Notice (fst verdict), answer_reply u approval reply cpost verdict s1)))"

end
