(* ===== verification/Tool_Actions.thy ===== *)
theory Tool_Actions
  imports Approvals
begin

text \<open>
  What happens to an approval after its decision, or without one: the tool runner's reports, the sweep of
  overdue actions and unresolved approvals, revocation by a configuration change, an operator's word on an
  unknown outcome (\<open>packages/core/src/services/approvals.ts\<close>), the timeout of a wait
  (\<open>wait-timeouts.ts\<close>), and the database function a tool runner begins an action through.

  The sweeps run one transaction per approval; an error of one is logged and leaves the others alone. Every
  transaction has its own clock, so a sweep takes a unit of work per approval.
\<close>

subsection \<open>Reports\<close>

datatype tool_report_body =
    ToolSucceeded "(string \<times> json) list" | ToolFailed string | ToolUnknown string | ToolRefused string

record tool_report =
  tp_actionId :: string
  tp_attempt :: nat
  tp_body :: tool_report_body

fun tool_report_kind :: "tool_report_body \<Rightarrow> string" where
  "tool_report_kind (ToolSucceeded _) = ''succeeded''"
| "tool_report_kind (ToolFailed _) = ''failed''"
| "tool_report_kind (ToolUnknown _) = ''unknown''"
| "tool_report_kind (ToolRefused _) = ''refused''"

fun action_status_name :: "tool_action_status \<Rightarrow> string" where
  "action_status_name TQueued = ''queued''"
| "action_status_name TRunning = ''running''"
| "action_status_name TSucceeded = ''succeeded''"
| "action_status_name TFailed = ''failed''"
| "action_status_name TUnknown = ''unknown''"
| "action_status_name TCancelled = ''cancelled''"

fun nextStatus :: "tool_action_status \<Rightarrow> tool_report_body \<Rightarrow> tool_action_status option" where
  "nextStatus status (ToolSucceeded _) = (if status = TRunning \<or> status = TUnknown then Some TSucceeded else None)"
| "nextStatus status (ToolFailed _) =
    (if status = TQueued \<or> status = TRunning \<or> status = TUnknown then Some TFailed else None)"
| "nextStatus status (ToolUnknown _) = (if status = TRunning then Some TUnknown else None)"
| "nextStatus status (ToolRefused _) = None"

definition executed_key :: "string \<Rightarrow> string \<Rightarrow> string" where
  "executed_key approvalId status = ''approval-executed:'' @ approvalId @ '':'' @ status"

definition post_executed :: "uow \<Rightarrow> approval_row \<Rightarrow> tool_action_row \<Rightarrow> gateway \<Rightarrow> gateway" where
  "post_executed u approval action s =
    postNoticeOnCard u (aq_id approval) (executed_key (aq_id approval) (action_status_name (ta_status action)))
      NExecuted (action_outcome (ta_status action)) (ta_receipt action) (ta_errorRedacted action) s"

definition settled ::
    "uow \<Rightarrow> turn_deps \<Rightarrow> approval_row \<Rightarrow> tool_action_row \<Rightarrow> bool \<Rightarrow> gateway \<Rightarrow> bool uow_result" where
  "settled u td approval action late s =
    (let s1 = audit u ''system'' (''tool_action.'' @ action_status_name (ta_status action)) ''tool_action'' (ta_id action)
           [(''approval_id'', JStr (aq_id approval))] s;
         s2 = (if ta_status action = TUnknown
               then raiseAlert u (''tool-unknown:'' @ ta_id action)
                 (''Tool action '' @ ta_id action @ '' ('' @ quoted (ta_actionType action) @ '' of @'' @ ta_agentId action @
                  '') began but its outcome is unknown; check the provider before anything is retried.'')
                 [(''tool_action_id'', JStr (ta_id action)), (''approval_id'', JStr (aq_id approval))] s1
               else s1);
         s3 = (if late
               then raiseAlert u (''tool-late:'' @ ta_id action)
                 (''Tool action '' @ ta_id action @ '' reported '' @ quoted (action_status_name (ta_status action)) @
                  '' after it was recorded as unknown.'') [(''tool_action_id'', JStr (ta_id action))] s2
               else s2)
     in resolveApproval u td approval (Some action) None (post_executed u approval action s3))"

datatype report_result = ReportApplied | ReportRefused | ReportIgnored

definition reported_row :: "uow \<Rightarrow> tool_report_body \<Rightarrow> tool_action_status \<Rightarrow> tool_action_row \<Rightarrow> tool_action_row" where
  "reported_row u body status t =
    t\<lparr>ta_status := status, ta_completedAt := (if status = TUnknown then None else Some (u_now u)),
      ta_receipt := (case body of ToolSucceeded r \<Rightarrow> Some r | _ \<Rightarrow> None),
      ta_errorRedacted := (case body of ToolFailed e \<Rightarrow> Some (take 500 (u_redact u e))
        | ToolUnknown e \<Rightarrow> Some (take 500 (u_redact u e)) | _ \<Rightarrow> None)\<rparr>"

text \<open>A report the action cannot take any more.\<close>

definition report_conflict :: "uow \<Rightarrow> tool_action_row \<Rightarrow> tool_report_body \<Rightarrow> gateway \<Rightarrow> gateway" where
  "report_conflict u action body s =
    (let status = action_status_name (ta_status action);
         s1 = audit u ''system'' ''tool_action.report_ignored'' ''tool_action'' (ta_id action)
           [(''reported'', JStr (tool_report_kind body)), (''status'', JStr status)] s;
         harmless = (tool_report_kind body = ''failed'' \<and> ta_status action = TCancelled)
     in if tool_report_kind body \<noteq> status \<and> \<not> harmless
        then raiseAlert u (''tool-conflict:'' @ ta_id action @ '':'' @ tool_report_kind body)
          (''Tool action '' @ ta_id action @ '' is recorded as '' @ quoted status @ '', but its runner reported '' @
           quoted (tool_report_kind body) @ ''; check the provider.'') [(''tool_action_id'', JStr (ta_id action))] s1
        else s1)"

definition take_report ::
    "uow \<Rightarrow> turn_deps \<Rightarrow> approval_row \<Rightarrow> tool_action_row \<Rightarrow> tool_report_body \<Rightarrow> gateway \<Rightarrow> report_result uow_result" where
  "take_report u td approval action body s =
    (case body of
       ToolRefused reason \<Rightarrow>
         Inr (ReportRefused, audit u ''system'' ''tool_action.refused'' ''tool_action'' (ta_id action)
           [(''reason'', JStr reason)] s)
     | _ \<Rightarrow>
         (case nextStatus (ta_status action) body of
            None \<Rightarrow> Inr (ReportIgnored, report_conflict u action body s)
          | Some status \<Rightarrow>
              (case settled u td approval (reported_row u body status action) (ta_status action = TUnknown)
                      (update_action (ta_id action) (reported_row u body status) s) of
                 Inl e \<Rightarrow> Inl e
               | Inr (_, s1) \<Rightarrow> Inr (ReportApplied, s1))))"

definition handleToolReport ::
    "uow \<Rightarrow> turn_deps \<Rightarrow> string \<Rightarrow> tool_report \<Rightarrow> gateway \<Rightarrow> report_result uow_result" where
  "handleToolReport u td namespace report s =
    (case find_action s (tp_actionId report) of
       None \<Rightarrow> Inr (ReportIgnored, s)
     | Some peek \<Rightarrow>
         if ta_namespace peek \<noteq> namespace then Inr (ReportIgnored, s)
         else case lockApproval s (ta_approvalId peek) of
           Some (approval, Some action) \<Rightarrow>
             if ta_attempt action \<noteq> tp_attempt report then Inr (ReportIgnored, s)
             else (case loadAgentLifecycleStatus s (ta_agentId action) of
                 Some status \<Rightarrow>
                   if status = LRetiring \<or> status = LRetired then
                     Inr (ReportIgnored,
                       audit u ''system'' ''tool_action.report_dropped_retired'' ''tool_action'' (ta_id action)
                         [(''reported'', JStr (tool_report_kind (tp_body report))),
                          (''lifecycle_status'', JStr (lifecycle_name status))] s)
                   else take_report u td approval action (tp_body report) s
               | None \<Rightarrow> take_report u td approval action (tp_body report) s)
         | _ \<Rightarrow> Inr (ReportIgnored, s))"

subsection \<open>Expiry and overdue actions\<close>

definition expire :: "approval_row \<Rightarrow> gateway \<Rightarrow> approval_row \<times> gateway" where
  "expire approval s =
    (let set_expired = (\<lambda>a. a\<lparr>aq_status := AExpired\<rparr>) in
     if aq_status approval = APending
     then (set_expired approval,
       s\<lparr>gw_approvals := update_where (\<lambda>a. aq_id a = aq_id approval \<and> aq_status a = APending) set_expired (gw_approvals s)\<rparr>)
     else (approval, s))"

definition finalNotice :: "uow \<Rightarrow> approval_row \<Rightarrow> tool_action_row option \<Rightarrow> gateway \<Rightarrow> gateway" where
  "finalNotice u approval action s =
    (if aq_status approval = AExpired
     then postNoticeOnCard u (aq_id approval) (''approval-final:'' @ aq_id approval) NExpired (Some ApExpired) None None s
     else if aq_status approval = ACancelled \<and> aq_decisionPostId approval = None
     then postNoticeOnCard u (aq_id approval) (''approval-final:'' @ aq_id approval) NWithdrawn (Some ApCancelled) None None s
     else case action of
       None \<Rightarrow> s
     | Some t \<Rightarrow>
         if aq_status approval = AGranted \<and> ta_status t = TCancelled
         then postNoticeOnCard u (aq_id approval) (executed_key (aq_id approval) ''cancelled'') NExecuted
           (Some ApCancelled) None (ta_errorRedacted t) s
         else s)"

definition overdue_row :: "uow \<Rightarrow> tool_action_row \<Rightarrow> tool_action_row" where
  "overdue_row u t =
    (if ta_status t = TQueued
     then t\<lparr>ta_status := TCancelled, ta_completedAt := Some (u_now u), ta_errorRedacted := Some ''did not begin in time''\<rparr>
     else t\<lparr>ta_status := TUnknown, ta_errorRedacted := Some ''began but did not report in time''\<rparr>)"

definition overdue :: "uow \<Rightarrow> tool_action_row \<Rightarrow> bool" where
  "overdue u t \<longleftrightarrow>
    ta_status t = TQueued \<and> ta_deadlineAt t \<le> u_now u \<or>
    ta_status t = TRunning \<and> ta_deadlineAt t + TOOL_RUN_GRACE_MS \<le> u_now u"

text \<open>The overdue action as it moved on, or \<open>None\<close> for one that stays as it is.\<close>

definition settleOverdue ::
    "uow \<Rightarrow> approval_row \<Rightarrow> tool_action_row option \<Rightarrow> gateway \<Rightarrow> tool_action_row option \<times> gateway" where
  "settleOverdue u approval action s =
    (case action of
       None \<Rightarrow> (None, s)
     | Some t \<Rightarrow>
         if aq_status approval = AGranted \<and> overdue u t
         then (Some (overdue_row u t), update_action (ta_id t) (overdue_row u) s) else (None, s))"

definition sweepOne :: "uow \<Rightarrow> turn_deps \<Rightarrow> string \<Rightarrow> gateway \<Rightarrow> bool uow_result" where
  "sweepOne u td approvalId s =
    (case lockApproval s approvalId of
       None \<Rightarrow> Inr (False, s)
     | Some (locked, action) \<Rightarrow>
         let (approval, s1) =
               (if aq_status locked = APending \<and> aq_expiresAt locked \<le> u_now u then expire locked s else (locked, s));
             (moved, s2) = settleOverdue u approval action s1
         in (case moved of
               Some t \<Rightarrow>
                 (case settled u td approval t False s2 of Inl e \<Rightarrow> Inl e | Inr (_, s3) \<Rightarrow> Inr (True, s3))
             | None \<Rightarrow> resolveApproval u td approval action None (finalNotice u approval action s2)))"

definition sweep_candidate :: "millis \<Rightarrow> gateway \<Rightarrow> approval_row \<Rightarrow> bool" where
  "sweep_candidate now s a \<longleftrightarrow>
    aq_resolvedAt a = None \<and>
    (aq_status a = ADenied \<or> aq_status a = AExpired \<or> aq_status a = ACancelled \<or>
     aq_status a = APending \<and> aq_expiresAt a \<le> now \<or>
     aq_status a = AGranted \<and>
       (case action_of s (aq_id a) of
          None \<Rightarrow> False
        | Some t \<Rightarrow>
            action_outcome (ta_status t) \<noteq> None \<or>
            ta_status t = TQueued \<and> ta_deadlineAt t \<le> now \<or>
            ta_status t = TRunning \<and> ta_deadlineAt t \<le> now - TOOL_RUN_GRACE_MS))"

fun sweep_each ::
    "(string \<Rightarrow> uow) \<Rightarrow> (uow \<Rightarrow> string \<Rightarrow> gateway \<Rightarrow> bool uow_result) \<Rightarrow> string list \<Rightarrow> nat \<Rightarrow> gateway \<Rightarrow> nat \<times> gateway" where
  "sweep_each us step [] n s = (n, s)"
| "sweep_each us step (i # ids) n s =
    (case withTransaction (step (us i) i s) s of
       (Inl e, s1) \<Rightarrow> sweep_each us step ids n s1
     | (Inr handled, s1) \<Rightarrow> sweep_each us step ids (if handled then Suc n else n) s1)"

definition LATE_CARD_WINDOW_MS :: millis where "LATE_CARD_WINDOW_MS = 2 * 24 * 60 * 60 * 1000"

definition has_key :: "string \<Rightarrow> gateway \<Rightarrow> bool" where
  "has_key key s \<longleftrightarrow> list_ex (\<lambda>x. ox_idempotencyKey x = key) (gw_outbox s)"

definition late_candidate :: "millis \<Rightarrow> gateway \<Rightarrow> approval_row \<Rightarrow> bool" where
  "late_candidate since s a \<longleftrightarrow>
    list_ex (\<lambda>x. ox_idempotencyKey x = CARD_KEY_PREFIX @ aq_id a \<and>
      (case ox_receipt x of Some (JObj kvs) \<Rightarrow> map_of kvs ''postId'' \<noteq> None | _ \<Rightarrow> False)) (gw_outbox s) \<and>
    aq_resolvedAt a \<noteq> None \<and> since < aq_createdAt a \<and>
    (aq_status a = AExpired \<or> aq_status a = ACancelled \<and> aq_decisionPostId a = None \<or>
     aq_status a = AGranted \<and>
       (case action_of s (aq_id a) of None \<Rightarrow> False | Some t \<Rightarrow> action_outcome (ta_status t) \<noteq> None)) \<and>
    \<not> has_key (''approval-final:'' @ aq_id a) s \<and>
    list_all (\<lambda>st. \<not> has_key (executed_key (aq_id a) st) s) [''succeeded'', ''failed'', ''unknown'', ''cancelled'']"

definition late_notice :: "uow \<Rightarrow> string \<Rightarrow> gateway \<Rightarrow> bool uow_result" where
  "late_notice u approvalId s =
    (case lockApproval s approvalId of
       None \<Rightarrow> Inr (False, s)
     | Some (approval, action) \<Rightarrow>
         Inr (True,
           case action of
             None \<Rightarrow> finalNotice u approval action s
           | Some t \<Rightarrow>
               if aq_status approval = AGranted \<and> ta_status t \<noteq> TCancelled then post_executed u approval t s
               else finalNotice u approval action s))"

definition lateCardNotices :: "(string \<Rightarrow> uow) \<Rightarrow> millis \<Rightarrow> gateway \<Rightarrow> nat \<times> gateway" where
  "lateCardNotices us now s =
    sweep_each us late_notice
      (map aq_id (take 50 (filter (late_candidate (now - LATE_CARD_WINDOW_MS) s) (gw_approvals s)))) 0 s"

definition sweepApprovals ::
    "(string \<Rightarrow> uow) \<Rightarrow> turn_deps \<Rightarrow> millis \<Rightarrow> millis \<Rightarrow> gateway \<Rightarrow> nat \<times> gateway" where
  "sweepApprovals us td now later s =
    (let (handled, s1) = sweep_each us (\<lambda>u. sweepOne u td)
           (map aq_id (take 100 (sort_key aq_createdAt (filter (sweep_candidate now s) (gw_approvals s))))) 0 s;
         (posted, s2) = lateCardNotices us later s1
     in (handled + posted, s2))"

definition settleApprovalOnTimeout :: "uow \<Rightarrow> turn_deps \<Rightarrow> string \<Rightarrow> gateway \<Rightarrow> bool uow_result" where
  "settleApprovalOnTimeout u td approvalId s =
    (case lockApproval s approvalId of
       None \<Rightarrow> Inr (False, s)
     | Some (approval, action) \<Rightarrow>
         if aq_status approval = APending then
           let (expired, s1) = expire approval s in
           resolveApproval u td expired action None (finalNotice u expired action s1)
         else (case action of
           Some t \<Rightarrow>
             if aq_status approval = AGranted \<and> (ta_status t = TQueued \<or> ta_status t = TRunning)
             then (case settled u td approval (overdue_row u t) False (update_action (ta_id t) (overdue_row u) s) of
                     Inl e \<Rightarrow> Inl e | Inr (_, s1) \<Rightarrow> Inr (True, s1))
             else resolveApproval u td approval action None s
         | None \<Rightarrow> resolveApproval u td approval action None s))"

subsection \<open>Revocation and settling by hand\<close>

fun revoke_actions ::
    "uow \<Rightarrow> grant_deps \<Rightarrow> (approval_row \<times> string) list \<Rightarrow> gateway \<Rightarrow> string list \<times> gateway" where
  "revoke_actions u gd [] s = ([], s)"
| "revoke_actions u gd ((approval, actionId) # rows) s =
    (let issues = executionIssues u gd approval s in
     if issues = [] then revoke_actions u gd rows s
     else
       let s1 = s\<lparr>gw_toolActions := update_where (\<lambda>t. ta_id t = actionId \<and> ta_status t = TQueued)
             (\<lambda>t. t\<lparr>ta_status := TCancelled, ta_completedAt := Some (u_now u),
               ta_errorRedacted := Some (take 500 (u_redact u
                 (''revoked by a configuration change: '' @ js_join ''; '' issues)))\<rparr>) (gw_toolActions s)\<rparr>;
           (revoked, s2) = revoke_actions u gd rows s1
       in (actionId # revoked, s2))"

fun revoke_approvals :: "uow \<Rightarrow> grant_deps \<Rightarrow> approval_row list \<Rightarrow> gateway \<Rightarrow> string list \<times> gateway" where
  "revoke_approvals u gd [] s = ([], s)"
| "revoke_approvals u gd (approval # rows) s =
    (if executionIssues u gd approval s = [] then revoke_approvals u gd rows s
     else
       let open_request = (\<lambda>a. aq_id a = aq_id approval \<and> aq_status a = APending);
           found = list_ex open_request (gw_approvals s);
           s1 = s\<lparr>gw_approvals := update_where open_request (\<lambda>a. a\<lparr>aq_status := ACancelled\<rparr>) (gw_approvals s)\<rparr>;
           (revoked, s2) = revoke_approvals u gd rows s1
       in (if found then aq_id approval # revoked else revoked, s2))"

definition audit_ids :: "uow \<Rightarrow> string \<Rightarrow> string \<Rightarrow> string list \<Rightarrow> gateway \<Rightarrow> gateway" where
  "audit_ids u action key ids s =
    (if ids = [] then s else audit u ''system'' action ''gateway'' ''config'' [(key, audited_ids ids)] s)"

definition revokeQueuedActions :: "uow \<Rightarrow> grant_deps \<Rightarrow> gateway \<Rightarrow> nat \<times> gateway" where
  "revokeQueuedActions u gd s =
    (let queued = concat (map (\<lambda>t. case find_approval s (ta_approvalId t) of None \<Rightarrow> [] | Some a \<Rightarrow> [(a, ta_id t)])
           (filter (\<lambda>t. ta_status t = TQueued) (gw_toolActions s)));
         (revokedActions, s1) = revoke_actions u gd queued s;
         s2 = audit_ids u ''tool_actions.revoked'' ''tool_action_ids'' revokedActions s1;
         (revokedApprovals, s3) = revoke_approvals u gd (filter (\<lambda>a. aq_status a = APending) (gw_approvals s2)) s2;
         s4 = audit_ids u ''approvals.revoked'' ''approval_ids'' revokedApprovals s3
     in (length revokedActions + length revokedApprovals, s4))"

datatype manual_outcome = ManuallySucceeded | ManuallyFailed | ManuallyCancelled

fun manual_status :: "manual_outcome \<Rightarrow> tool_action_status" where
  "manual_status ManuallySucceeded = TSucceeded"
| "manual_status ManuallyFailed = TFailed"
| "manual_status ManuallyCancelled = TCancelled"

definition settleToolAction ::
    "uow \<Rightarrow> string \<Rightarrow> manual_outcome \<Rightarrow> string \<Rightarrow> string \<Rightarrow> gateway \<Rightarrow> tool_action_row uow_result" where
  "settleToolAction u actionId outcome actor note s =
    (case Option.bind (find_action s actionId) (\<lambda>peek. lockApproval s (ta_approvalId peek)) of
       Some (approval, Some action) \<Rightarrow>
         if ta_status action \<noteq> TUnknown
         then Inl (ToolActionError (''tool action '' @ quoted actionId @ '' is '' @
                quoted (action_status_name (ta_status action)) @ ''; only an unknown one is settled by hand''))
         else
           let settle = (\<lambda>t. t\<lparr>ta_status := manual_status outcome, ta_completedAt := Some (u_now u),
                 ta_errorRedacted := Some (take 500 (u_redact u (''settled by '' @ actor @ '': '' @ note)))\<rparr>);
               name = action_status_name (manual_status outcome);
               s1 = update_action actionId settle s;
               s2 = audit u actor ''tool_action.settled'' ''tool_action'' actionId
                 [(''outcome'', JStr name), (''note'', JStr note)] s1
           in Inr (settle action,
                postNoticeOnCard u (aq_id approval) (executed_key (aq_id approval) name) NExecuted
                  (action_outcome (manual_status outcome)) None (ta_errorRedacted (settle action)) s2)
     | _ \<Rightarrow> Inl (ToolActionError (''tool action '' @ quoted actionId @ '' does not exist'')))"

definition approvalPending :: "gateway \<Rightarrow> string \<Rightarrow> bool" where
  "approvalPending s approvalId \<longleftrightarrow> map_option aq_status (find_approval s approvalId) = Some APending"

subsection \<open>Wait timeouts\<close>

datatype wait_timeout_outcome = WaitTimedOut | WaitNotDue | WaitIgnored

definition handleWaitTimeout :: "uow \<Rightarrow> turn_deps \<Rightarrow> string \<Rightarrow> gateway \<Rightarrow> wait_timeout_outcome uow_result" where
  "handleWaitTimeout u td waitId s =
    (case Option.bind (find (\<lambda>w. wt_id w = waitId) (gw_waits s))
            (\<lambda>w. map_option (Pair w) (find_run s (wt_createdByRunId w))) of
       None \<Rightarrow> Inr (WaitIgnored, s)
     | Some (wait, run) \<Rightarrow>
         if wt_status wait \<noteq> WActive then Inr (WaitIgnored, s)
         else if u_now u < wt_timeoutAt wait
         then Inr (WaitNotDue, send_job u (WaitTimeoutJob waitId (wt_timeoutAt wait)) s)
         else
           (case (case approvalIdOf (wt_correlationId wait) of
                    None \<Rightarrow> Inr (False, s)
                  | Some approvalId \<Rightarrow> settleApprovalOnTimeout u td approvalId s) of
              Inl e \<Rightarrow> Inl e
            | Inr (True, s1) \<Rightarrow> Inr (WaitTimedOut, s1)
            | Inr (False, s1) \<Rightarrow>
                (case ingestInTransaction u td
                        (internalEvent (''wait-timeout:'' @ waitId) AgentWaitTimeout (u_now u) (Some (''wait/'' @ waitId))
                          (wt_correlationId wait) None (rn_hop run)
                          [(''agent_id'', JStr (wt_agentId wait)), (''wait_id'', JStr waitId)] None) s1 of
                   Inl e \<Rightarrow> Inl e
                 | Inr (r, s2) \<Rightarrow>
                     Inr (if ir_status r = IngestAccepted then WaitTimedOut else WaitIgnored, s2))))"

subsection \<open>The tool runner's door\<close>

datatype begin_verdict =
    UnknownAction | WrongNamespace | KillSwitchOn | NotQueued | StaleAttempt | HashMismatch | CancelRequested
  | DeadlinePassed | NotGranted | AgentDisabled | Begin string

text \<open>\<open>serves\<close> says which namespaces the caller's database role may execute.\<close>

definition begin_verdict_of :: "millis \<Rightarrow> (string \<Rightarrow> bool) \<Rightarrow> string \<Rightarrow> nat \<Rightarrow> string \<Rightarrow> gateway \<Rightarrow> begin_verdict" where
  "begin_verdict_of now serves actionId attempt hash s =
    (case find_action s actionId of
       None \<Rightarrow> UnknownAction
     | Some action \<Rightarrow>
         if \<not> serves (ta_namespace action) then WrongNamespace
         else if gw_killSwitch s then KillSwitchOn
         else if ta_status action \<noteq> TQueued then NotQueued
         else if ta_attempt action \<noteq> attempt then StaleAttempt
         else if ta_immutableActionHash action \<noteq> hash then HashMismatch
         else if ta_cancelRequestedAt action \<noteq> None then CancelRequested
         else if ta_deadlineAt action \<le> now then DeadlinePassed
         else if map_option aq_status (find_approval s (ta_approvalId action)) \<noteq> Some AGranted then NotGranted
         else if map_option ag_enabled (lockAgent s (ta_agentId action)) \<noteq> Some True then AgentDisabled
         else Begin (ta_idempotencyKey action))"

definition gateway_begin_tool_action ::
    "millis \<Rightarrow> (string \<Rightarrow> bool) \<Rightarrow> string \<Rightarrow> nat \<Rightarrow> string \<Rightarrow> gateway \<Rightarrow> begin_verdict \<times> gateway" where
  "gateway_begin_tool_action now serves actionId attempt hash s =
    (let verdict = begin_verdict_of now serves actionId attempt hash s in
     (verdict,
      case verdict of
        Begin _ \<Rightarrow> update_action actionId (\<lambda>t. t\<lparr>ta_status := TRunning, ta_startedAt := Some now\<rparr>) s
      | _ \<Rightarrow> s))"

definition stop_requested :: "string \<Rightarrow> gateway \<Rightarrow> bool" where
  "stop_requested actionId s \<longleftrightarrow>
    (case find_action s actionId of None \<Rightarrow> True | Some t \<Rightarrow> ta_cancelRequestedAt t \<noteq> None) \<or> gw_killSwitch s"

end
