(* ===== verification/Consistency.thy ===== *)
theory Consistency
  imports Scheduler
begin

text \<open>
  The invariant of the control plane's tables, shared by every use case: ids are unique and drawn from the
  id sequence, an agent has at most one run in progress and is QUEUED or RUNNING exactly while it has one,
  attempts stay within their limit, and claimed work belongs to a run that is in progress or failed while
  pending work belongs to none.

  The lemmas of this theory reduce its preservation to what an operation does to the four tables: nothing
  (\<open>consistent_frame\<close>), one run with its agent (\<open>consistent_run_step\<close>), a new run
  (\<open>consistent_new_run\<close>), an idle agent's state (\<open>consistent_move\<close>) or a pause (\<open>consistent_pause\<close>).
\<close>

definition agent_states :: "gateway \<Rightarrow> (string \<times> agent_state) list" where
  "agent_states s = map (\<lambda>a. (ag_id a, ag_state a)) (gw_agents s)"

definition state_of :: "gateway \<Rightarrow> string \<Rightarrow> agent_state option" where
  "state_of s i = map_of (agent_states s) i"

definition set_state :: "string \<Rightarrow> agent_state \<Rightarrow> (string \<times> agent_state) list \<Rightarrow> (string \<times> agent_state) list" where
  "set_state a next sts = map (\<lambda>(i, x). (i, if i = a then next else x)) sts"

definition has_active :: "gateway \<Rightarrow> string \<Rightarrow> bool" where
  "has_active s i \<longleftrightarrow> (\<exists>r \<in> set (gw_runs s). rn_agentId r = i \<and> in_progress r)"

definition open_run :: "run_row \<Rightarrow> bool" where
  "open_run r \<longleftrightarrow> in_progress r \<or> rn_status r = RFailed"

definition entry_ok :: "run_row list \<Rightarrow> inbox_row \<Rightarrow> bool" where
  "entry_ok runs i \<longleftrightarrow>
    (ib_status i = IClaimed \<longrightarrow>
      (\<exists>r \<in> set runs. ib_runId i = Some (rn_id r) \<and> open_run r)) \<and>
    (ib_status i = IPending \<longrightarrow> ib_runId i = None)"

definition attempt_ok :: "run_row \<Rightarrow> bool" where
  "attempt_ok r \<longleftrightarrow> 1 \<le> rn_attempt r \<and> rn_attempt r \<le> rn_maxAttempts r \<and> rn_maxAttempts r = MAX_RUN_ATTEMPTS"

definition consistent :: "(nat \<Rightarrow> string) \<Rightarrow> gateway \<Rightarrow> bool" where
  "consistent uuid s \<longleftrightarrow>
    distinct (map fst (agent_states s)) \<and> distinct (map rn_id (gw_runs s)) \<and>
    (\<forall>r \<in> set (gw_runs s). rn_id r \<in> uuid ` {..<gw_ids s} \<and> attempt_ok r) \<and>
    (\<forall>r \<in> set (gw_runs s). \<forall>r' \<in> set (gw_runs s).
      in_progress r \<and> in_progress r' \<and> rn_agentId r = rn_agentId r' \<longrightarrow> rn_id r = rn_id r') \<and>
    (\<forall>i. has_active s i \<longleftrightarrow> (\<exists>st. state_of s i = Some st \<and> busy st)) \<and>
    (\<forall>i \<in> set (gw_inbox s). entry_ok (gw_runs s) i)"

lemma consistentD:
  assumes "consistent uuid s"
  shows "distinct (map fst (agent_states s))" and "distinct (map rn_id (gw_runs s))"
    and "\<And>r. r \<in> set (gw_runs s) \<Longrightarrow> rn_id r \<in> uuid ` {..<gw_ids s}"
    and "\<And>r. r \<in> set (gw_runs s) \<Longrightarrow> attempt_ok r"
    and "\<And>r r'. r \<in> set (gw_runs s) \<Longrightarrow> r' \<in> set (gw_runs s) \<Longrightarrow> in_progress r \<Longrightarrow> in_progress r' \<Longrightarrow>
      rn_agentId r = rn_agentId r' \<Longrightarrow> rn_id r = rn_id r'"
    and "\<And>i. has_active s i \<longleftrightarrow> (\<exists>st. state_of s i = Some st \<and> busy st)"
    and "\<And>i. i \<in> set (gw_inbox s) \<Longrightarrow> entry_ok (gw_runs s) i"
  using assms unfolding consistent_def by blast+

lemma consistentI:
  assumes "distinct (map fst (agent_states s))" and "distinct (map rn_id (gw_runs s))"
    and "\<And>r. r \<in> set (gw_runs s) \<Longrightarrow> rn_id r \<in> uuid ` {..<gw_ids s}"
    and "\<And>r. r \<in> set (gw_runs s) \<Longrightarrow> attempt_ok r"
    and "\<And>r r'. r \<in> set (gw_runs s) \<Longrightarrow> r' \<in> set (gw_runs s) \<Longrightarrow> in_progress r \<Longrightarrow> in_progress r' \<Longrightarrow>
      rn_agentId r = rn_agentId r' \<Longrightarrow> rn_id r = rn_id r'"
    and "\<And>i. has_active s i \<longleftrightarrow> (\<exists>st. state_of s i = Some st \<and> busy st)"
    and "\<And>i. i \<in> set (gw_inbox s) \<Longrightarrow> entry_ok (gw_runs s) i"
  shows "consistent uuid s"
  using assms unfolding consistent_def by blast

subsection \<open>Agents and runs\<close>

lemma map_fst_set_state [simp]: "map fst (set_state a next sts) = map fst sts"
  by (induction sts) (auto simp: set_state_def)

lemma map_of_set_state:
  "map_of (set_state a next sts) i = (if i = a then map_option (\<lambda>_. next) (map_of sts a) else map_of sts i)"
  by (induction sts) (auto simp: set_state_def)

lemma set_state_same: "map_of sts a = Some x \<Longrightarrow> distinct (map fst sts) \<Longrightarrow> set_state a x sts = sts"
proof (induction sts)
  case (Cons p sts)
  show ?case
  proof (cases "fst p = a")
    case True
    with Cons.prems have "a \<notin> fst ` set sts" "snd p = x" by auto
    then have "map (\<lambda>(i, y). (i, if i = a then x else y)) sts = sts"
      by (intro map_idI) (auto simp: rev_image_eqI)
    with True \<open>snd p = x\<close> show ?thesis by (cases p) (simp add: set_state_def)
  next
    case False
    with Cons show ?thesis by (cases p) (simp add: set_state_def)
  qed
qed (simp add: set_state_def)

lemma lockAgent_state: "lockAgent s i = Some a \<Longrightarrow> state_of s i = Some (ag_state a) \<and> ag_id a = i"
proof -
  assume l: "lockAgent s i = Some a"
  have "map_of (map (\<lambda>a. (ag_id a, ag_state a)) as) i = map_option ag_state (find (\<lambda>a. ag_id a = i) as)" for as
    by (induction as) auto
  then have "state_of s i = map_option ag_state (lockAgent s i)"
    unfolding state_of_def agent_states_def lockAgent_def .
  with l find_SomeD [of "\<lambda>a. ag_id a = i" "gw_agents s" a] show ?thesis by (simp add: lockAgent_def)
qed

lemma agent_states_cong: "gw_agents s' = gw_agents s \<Longrightarrow> agent_states s' = agent_states s"
  by (simp add: agent_states_def)

lemma agent_states_setAgentState:
  assumes "lockAgent s a = Some agent" and "distinct (map fst (agent_states s))"
    and "gw_agents s' = gw_agents s"
  shows "agent_states (setAgentState u a (ag_state agent) next reason s') = set_state a next (agent_states s)"
proof (cases "ag_state agent = next")
  case True
  have "map_of (agent_states s) a = Some next"
    using lockAgent_state [OF assms(1)] True by (simp add: state_of_def)
  with assms(2,3) True show ?thesis
    by (simp add: setAgentState_def agent_states_cong [OF assms(3)] set_state_same)
next
  case False
  then show ?thesis
    by (simp add: setAgentState_def audit_def agent_states_def update_where_def set_state_def assms(3) comp_def)
qed

lemma find_run_SomeD: "find_run s i = Some r \<Longrightarrow> r \<in> set (gw_runs s) \<and> rn_id r = i"
  using find_SomeD [of "\<lambda>r. rn_id r = i" "gw_runs s" r] by (simp add: find_run_def)

lemma update_where_twice:
  assumes "\<And>r. P r \<Longrightarrow> P (f r)"
  shows "update_where P g (update_where P f rows) = update_where P (\<lambda>r. g (f r)) rows"
  using assms by (simp add: update_where_def)

lemma run_unique:
  assumes "consistent uuid s" and "r \<in> set (gw_runs s)" and "r' \<in> set (gw_runs s)" and "rn_id r = rn_id r'"
  shows "r = r'"
  using assms consistentD(2) [OF assms(1)] by (auto simp: distinct_map inj_on_def)

subsection \<open>Operations that leave agents and runs alone\<close>

lemma consistent_frame:
  assumes "consistent uuid s" and "agent_states s' = agent_states s" and "gw_runs s' = gw_runs s"
    and "\<And>i. i \<in> set (gw_inbox s') \<Longrightarrow> entry_ok (gw_runs s) i" and "gw_ids s \<le> gw_ids s'"
  shows "consistent uuid s'"
proof (rule consistentI)
  note D = consistentD [OF assms(1)]
  show "distinct (map fst (agent_states s'))" using D(1) assms(2) by simp
  show "distinct (map rn_id (gw_runs s'))" using D(2) assms(3) by simp
  show "rn_id r \<in> uuid ` {..<gw_ids s'}" if "r \<in> set (gw_runs s')" for r
    using D(3) [of r] that assms(3,5) by auto
  show "attempt_ok r" if "r \<in> set (gw_runs s')" for r using D(4) [of r] that assms(3) by simp
  show "rn_id r = rn_id r'" if "r \<in> set (gw_runs s')" "r' \<in> set (gw_runs s')" "in_progress r" "in_progress r'"
    "rn_agentId r = rn_agentId r'" for r r'
    using D(5) [of r r'] that assms(3) by simp
  show "has_active s' i \<longleftrightarrow> (\<exists>st. state_of s' i = Some st \<and> busy st)" for i
    using D(6) [of i] assms(2,3) by (simp add: has_active_def state_of_def)
  show "entry_ok (gw_runs s') i" if "i \<in> set (gw_inbox s')" for i using assms(4) [OF that] assms(3) by simp
qed

lemma consistent_same:
  assumes "consistent uuid s" and "gw_agents s' = gw_agents s" and "gw_runs s' = gw_runs s"
    and "gw_inbox s' = gw_inbox s" and "gw_ids s \<le> gw_ids s'"
  shows "consistent uuid s'"
  using assms consistentD(7) [OF assms(1)] by (intro consistent_frame [OF assms(1)]) (auto simp: agent_states_def)

context core_effect
begin

lemma keeps_consistent: "consistent uuid s \<Longrightarrow> consistent uuid (f s)"
  by (rule consistent_same [OF _ agents runs inbox ids_mono])

end

subsection \<open>A step of one run\<close>

lemma entry_ok_update:
  assumes "entry_ok runs i" and "\<And>r. P r \<Longrightarrow> rn_id (f r) = rn_id r"
    and "\<And>r. r \<in> set runs \<Longrightarrow> P r \<Longrightarrow> open_run r \<Longrightarrow> ib_runId i = Some (rn_id r) \<Longrightarrow> ib_status i = IClaimed \<Longrightarrow> open_run (f r)"
  shows "entry_ok (update_where P f runs) i"
  unfolding entry_ok_def
proof (intro conjI impI)
  assume c: "ib_status i = IClaimed"
  then obtain r where r: "r \<in> set runs" "ib_runId i = Some (rn_id r)" "open_run r"
    using assms(1) by (auto simp: entry_ok_def)
  let ?r = "if P r then f r else r"
  have "?r \<in> set (update_where P f runs)" using r(1) by (auto simp: set_update_where)
  moreover have "ib_runId i = Some (rn_id ?r)" "open_run ?r"
    using r assms(2) [of r] assms(3) [of r] c by auto
  ultimately show "\<exists>r \<in> set (update_where P f runs).
      ib_runId i = Some (rn_id r) \<and> open_run r" by blast
qed (use assms(1) in \<open>simp add: entry_ok_def\<close>)

lemma consistent_run_step:
  assumes c: "consistent uuid s" and run: "run \<in> set (gw_runs s)" and act: "in_progress run"
    and agents: "agent_states s' = set_state (rn_agentId run) next (agent_states s)"
    and runs: "gw_runs s' = update_where (\<lambda>r. rn_id r = rn_id run) f (gw_runs s)"
    and keep: "\<And>r. rn_id (f r) = rn_id r \<and> rn_agentId (f r) = rn_agentId r \<and> rn_maxAttempts (f r) = rn_maxAttempts r"
    and prog: "in_progress (f run) \<longleftrightarrow> busy next"
    and att: "1 \<le> rn_attempt (f run)" "rn_attempt (f run) \<le> rn_maxAttempts run"
    and inbox: "\<And>i. i \<in> set (gw_inbox s') \<Longrightarrow> entry_ok (gw_runs s') i"
    and ids: "gw_ids s \<le> gw_ids s'"
  shows "consistent uuid s'"
proof -
  note D = consistentD [OF c]
  have only: "r = run" if "r \<in> set (gw_runs s)" "rn_id r = rn_id run" for r
    using run_unique [OF c that(1) run] that(2) .
  have img: "set (gw_runs s') = (\<lambda>r. if rn_id r = rn_id run then f r else r) ` set (gw_runs s)"
    by (simp add: runs set_update_where)
  have cases: "r' = f run \<or> (r' \<in> set (gw_runs s) \<and> rn_id r' \<noteq> rn_id run)" if "r' \<in> set (gw_runs s')" for r'
    using that only unfolding img by auto
  have there: "f run \<in> set (gw_runs s')" using run unfolding img by (auto simp: image_iff)
  have other: "r \<in> set (gw_runs s')" if "r \<in> set (gw_runs s)" "rn_id r \<noteq> rn_id run" for r
    using that unfolding img by (auto simp: image_iff)
  have alone: "\<not> in_progress r" if "r \<in> set (gw_runs s)" "rn_id r \<noteq> rn_id run" "rn_agentId r = rn_agentId run" for r
    using D(5) [OF that(1) run] act that by auto
  have st: "\<exists>x. state_of s (rn_agentId run) = Some x"
    using D(6) [of "rn_agentId run"] run act by (auto simp: has_active_def)
  show ?thesis
  proof (rule consistentI)
    show "distinct (map fst (agent_states s'))" using D(1) agents by simp
    show "distinct (map rn_id (gw_runs s'))" using D(2) keep by (simp add: runs)
  next
    fix r assume "r \<in> set (gw_runs s')"
    from cases [OF this] have "rn_id r \<in> uuid ` {..<gw_ids s}" using D(3) run keep by auto
    then show "rn_id r \<in> uuid ` {..<gw_ids s'}" using ids by (meson image_mono lessThan_subset_iff subsetD)
  next
    fix r assume "r \<in> set (gw_runs s')"
    from cases [OF this] show "attempt_ok r" using D(4) D(4) [OF run] keep att by (auto simp: attempt_ok_def)
  next
    fix r r'
    assume r: "r \<in> set (gw_runs s')" "r' \<in> set (gw_runs s')" "in_progress r" "in_progress r'"
      "rn_agentId r = rn_agentId r'"
    from cases [OF r(1)] cases [OF r(2)] show "rn_id r = rn_id r'"
      using r(3-5) D(5) alone keep by (metis)
  next
    fix i
    show "has_active s' i \<longleftrightarrow> (\<exists>x. state_of s' i = Some x \<and> busy x)"
    proof (cases "i = rn_agentId run")
      case True
      have "has_active s' i \<longleftrightarrow> in_progress (f run)"
        unfolding has_active_def using True cases there alone keep by metis
      with prog st True show ?thesis by (auto simp: state_of_def agents map_of_set_state)
    next
      case False
      have "has_active s' i \<longleftrightarrow> has_active s i"
        unfolding has_active_def using False cases other only keep by metis
      with D(6) [of i] False show ?thesis by (simp add: state_of_def agents map_of_set_state)
    qed
  qed (use inbox in simp)
qed

subsection \<open>A new run, a move, a pause\<close>

lemma consistent_new_run:
  assumes c: "consistent uuid s" and known: "state_of s (rn_agentId run) \<noteq> None"
    and none: "\<not> has_active s (rn_agentId run)"
    and agents: "agent_states s' = set_state (rn_agentId run) next (agent_states s)"
    and runs: "gw_runs s' = gw_runs s @ [run]"
    and new: "rn_id run \<notin> rn_id ` set (gw_runs s)" "rn_id run \<in> uuid ` {..<gw_ids s'}"
    and run: "in_progress run" "busy next" "attempt_ok run"
    and inbox: "\<And>i. i \<in> set (gw_inbox s') \<Longrightarrow> entry_ok (gw_runs s') i"
    and ids: "gw_ids s \<le> gw_ids s'"
  shows "consistent uuid s'"
proof -
  note D = consistentD [OF c]
  have act: "has_active s' i \<longleftrightarrow> i = rn_agentId run \<or> has_active s i" for i
    using run(1) by (auto simp: has_active_def runs)
  show ?thesis
  proof (rule consistentI)
    show "distinct (map fst (agent_states s'))" using D(1) agents by simp
    show "distinct (map rn_id (gw_runs s'))" using D(2) new(1) by (auto simp: runs)
    show "rn_id r \<in> uuid ` {..<gw_ids s'}" if "r \<in> set (gw_runs s')" for r
      using that D(3) [of r] new(2) ids by (auto simp: runs)
    show "attempt_ok r" if "r \<in> set (gw_runs s')" for r using that D(4) [of r] run(3) by (auto simp: runs)
    show "rn_id r = rn_id r'" if "r \<in> set (gw_runs s')" "r' \<in> set (gw_runs s')" "in_progress r" "in_progress r'"
      "rn_agentId r = rn_agentId r'" for r r'
      using that D(5) [of r r'] none by (auto simp: runs has_active_def)
    show "has_active s' i \<longleftrightarrow> (\<exists>st. state_of s' i = Some st \<and> busy st)" for i
    proof (cases "i = rn_agentId run")
      case True
      with act known run(2) show ?thesis by (auto simp: state_of_def agents map_of_set_state)
    next
      case False
      with act D(6) [of i] show ?thesis by (simp add: state_of_def agents map_of_set_state)
    qed
  qed (use inbox in simp)
qed

lemma consistent_pause:
  assumes c: "consistent uuid s"
    and agents: "agent_states s' = set_state a next (agent_states s)" "\<not> busy next"
    and runs: "gw_runs s' = update_where (\<lambda>r. rn_agentId r = a \<and> in_progress r) f (gw_runs s)"
    and keep: "\<And>r. rn_id (f r) = rn_id r \<and> rn_agentId (f r) = rn_agentId r \<and> rn_attempt (f r) = rn_attempt r \<and>
      rn_maxAttempts (f r) = rn_maxAttempts r \<and> \<not> in_progress (f r)"
    and inbox: "\<And>i. i \<in> set (gw_inbox s') \<Longrightarrow> entry_ok (gw_runs s') i"
    and ids: "gw_ids s \<le> gw_ids s'"
  shows "consistent uuid s'"
proof -
  note D = consistentD [OF c]
  let ?g = "\<lambda>r. if rn_agentId r = a \<and> in_progress r then f r else r"
  have img: "set (gw_runs s') = ?g ` set (gw_runs s)" by (simp add: runs set_update_where)
  have still: "r' \<in> set (gw_runs s) \<and> rn_agentId r' \<noteq> a" if r': "r' \<in> set (gw_runs s')" "in_progress r'" for r'
  proof -
    from r'(1) obtain r where r: "r \<in> set (gw_runs s)" "r' = ?g r" unfolding img by blast
    show ?thesis
    proof (cases "rn_agentId r = a \<and> in_progress r")
      case True
      then have "r' = f r" using r(2) by simp
      with keep [of r] r'(2) show ?thesis by simp
    next
      case False
      then have "r' = r" using r(2) by (simp only: if_False)
      with False r(1) r'(2) show ?thesis by simp
    qed
  qed
  have act: "has_active s' i \<longleftrightarrow> i \<noteq> a \<and> has_active s i" for i
  proof
    assume "has_active s' i"
    with still show "i \<noteq> a \<and> has_active s i" by (auto simp: has_active_def)
  next
    assume i: "i \<noteq> a \<and> has_active s i"
    then obtain r where r: "r \<in> set (gw_runs s)" "rn_agentId r = i" "in_progress r" by (auto simp: has_active_def)
    with i have "r = ?g r" by simp
    with r(1) have "r \<in> set (gw_runs s')" unfolding img by blast
    with r show "has_active s' i" by (auto simp: has_active_def)
  qed
  show ?thesis
  proof (rule consistentI)
    show "distinct (map fst (agent_states s'))" using D(1) agents by simp
    show "distinct (map rn_id (gw_runs s'))" using D(2) keep by (simp add: runs)
    show "rn_id r \<in> uuid ` {..<gw_ids s'}" if "r \<in> set (gw_runs s')" for r
    proof -
      from that obtain r0 where "r0 \<in> set (gw_runs s)" "r = ?g r0" unfolding img by blast
      with D(3) [of r0] keep [of r0] have "rn_id r \<in> uuid ` {..<gw_ids s}" by (simp split: if_splits)
      with ids show ?thesis by auto
    qed
    show "attempt_ok r" if "r \<in> set (gw_runs s')" for r
    proof -
      from that obtain r0 where "r0 \<in> set (gw_runs s)" "r = ?g r0" unfolding img by blast
      with D(4) [of r0] keep [of r0] show ?thesis by (simp add: attempt_ok_def split: if_splits)
    qed
    show "rn_id r = rn_id r'" if "r \<in> set (gw_runs s')" "r' \<in> set (gw_runs s')" "in_progress r" "in_progress r'"
      "rn_agentId r = rn_agentId r'" for r r'
      using still that D(5) [of r r'] by blast
    show "has_active s' i \<longleftrightarrow> (\<exists>st. state_of s' i = Some st \<and> busy st)" for i
      using act [of i] D(6) [of i] agents(2) by (cases "i = a") (auto simp: state_of_def agents(1) map_of_set_state)
  qed (use inbox in simp)
qed

lemma consistent_move:
  assumes c: "consistent uuid s" and none: "\<not> has_active s a"
    and agents: "agent_states s' = set_state a next (agent_states s)" "\<not> busy next"
    and "gw_runs s' = gw_runs s" and "gw_inbox s' = gw_inbox s" and "gw_ids s \<le> gw_ids s'"
  shows "consistent uuid s'"
proof (rule consistent_pause [OF c agents, where f = "\<lambda>r. r\<lparr>rn_status := RCancelled\<rparr>"])
  show "gw_runs s' = update_where (\<lambda>r. rn_agentId r = a \<and> in_progress r) (\<lambda>r. r\<lparr>rn_status := RCancelled\<rparr>) (gw_runs s)"
    using none assms(5) by (auto simp: update_where_def has_active_def intro!: map_idI [symmetric])
qed (use consistentD(7) [OF c] assms(5-7) in \<open>simp_all add: in_progress_def\<close>)

end
