(* ===== verification/Scheduler_Safety.thy ===== *)
theory Scheduler_Safety
  imports Consistency
begin

text \<open>
  Scheduling keeps the tables consistent and respects its gates. The steps before a claim (retiring
  entries, matching missed answers, the budget check) touch neither agents nor runs; a started run is
  the only change to them.
\<close>

subsection \<open>What the steps before a claim leave alone\<close>

interpretation route_fx: core_effect "insert_route_quiet r" for r
  by unfold_locales (simp_all add: insert_route_quiet_def)

interpretation loop_alert_fx: quiet_effect "loop_alert u eventId agentId e reason msg"
  for u eventId agentId e reason msg
  by unfold_locales (simp_all add: loop_alert_def)

interpretation resolve_fx: core_effect "\<lambda>s. snd (resolveWait u waitId eventId timedOut s)"
  for u waitId eventId timedOut
  by unfold_locales (simp_all add: resolveWait_def Let_def split: option.split)

interpretation late_fx: core_effect "\<lambda>s. snd (lateMatchAllowed u agentId e position wait s)"
  for u agentId e position wait
  by unfold_locales (auto simp: lateMatchAllowed_def Let_def route_fx.ids_mono loop_alert_fx.ids_mono
      intro: le_trans [OF route_fx.ids_mono loop_alert_fx.ids_mono] split: option.split prod.split list.split)

interpretation hold_fx: core_effect "\<lambda>s. snd (budgetHoldFor u agentId s)" for u agentId
  by unfold_locales (simp_all add: budgetHoldFor_def Let_def split: option.split prod.split)

subsection \<open>Inbox steps\<close>

text \<open>A step that changes at most the inbox, and there keeps every entry in order.\<close>

definition inbox_step :: "gateway \<Rightarrow> gateway \<Rightarrow> bool" where
  "inbox_step s s' \<longleftrightarrow>
    gw_agents s' = gw_agents s \<and> gw_runs s' = gw_runs s \<and> gw_lifecycle s' = gw_lifecycle s \<and>
    gw_config s' = gw_config s \<and> gw_usage s' = gw_usage s \<and> gw_ids s \<le> gw_ids s' \<and>
    ((\<forall>i \<in> set (gw_inbox s). entry_ok (gw_runs s) i) \<longrightarrow> (\<forall>i \<in> set (gw_inbox s'). entry_ok (gw_runs s) i))"

lemma inbox_step_refl [simp]: "inbox_step s s"
  by (simp add: inbox_step_def)

lemma inbox_step_trans [trans]:
  assumes st: "inbox_step s t" and tv: "inbox_step t v"
  shows "inbox_step s v"
proof -
  have ids: "gw_ids s \<le> gw_ids v"
    by (rule le_trans [of _ "gw_ids t"]) (use st tv in \<open>unfold inbox_step_def, blast+\<close>)
  have runs: "gw_runs t = gw_runs s" using st unfolding inbox_step_def by blast
  have "\<forall>i \<in> set (gw_inbox v). entry_ok (gw_runs s) i" if "\<forall>i \<in> set (gw_inbox s). entry_ok (gw_runs s) i"
    using st tv that unfolding inbox_step_def runs by blast
  with ids st tv show ?thesis unfolding inbox_step_def by (metis (no_types))
qed

context core_effect
begin

lemma is_inbox_step [simp]: "inbox_step s (f s)"
  by (simp add: inbox_step_def)

end

lemma inbox_step_consistent:
  assumes "inbox_step s s'" and "consistent uuid s"
  shows "consistent uuid s'"
  using assms consistentD(7) [OF assms(2)]
  by (intro consistent_frame [OF assms(2)]) (auto simp: inbox_step_def agent_states_def)

lemma inbox_step_lockAgent: "inbox_step s s' \<Longrightarrow> lockAgent s' i = lockAgent s i"
  by (simp add: inbox_step_def lockAgent_def)

lemma entry_ok_dead [simp]: "entry_ok runs (i\<lparr>ib_status := IDead\<rparr>)" "entry_ok runs (i\<lparr>ib_status := IConsumed\<rparr>)"
  by (simp_all add: entry_ok_def)

lemma retireInbox_step: "inbox_step s (snd (retireInbox agentId allowed floors s))"
  by (auto simp: inbox_step_def retireInbox_def set_update_where)

lemma resume_entry_step: "inbox_step s (resume_entry u agentId eventId waitId s)"
  by (auto simp: inbox_step_def resume_entry_def Let_def set_update_where entry_ok_def)

lemma missed_loop_step: "inbox_step s (snd (missed_loop u agentId waits routed seen hidden rows s))"
proof (induction rows arbitrary: s)
  case (Cons row rows)
  have late: "inbox_step s s1" if "lateMatchAllowed u agentId (er_event row) row w s = (b, s1)" for w b s1
    using late_fx.is_inbox_step [of s u agentId "er_event row" row w] that by simp
  have res: "inbox_step s1 s2" if "resolveWait u w e False s1 = (b, s2)" for w e b s1 s2
    using resolve_fx.is_inbox_step [of s1 u w e False] that by simp
  show ?case
    by (auto simp: Let_def split: option.split prod.split
        intro: Cons.IH inbox_step_trans [OF _ Cons.IH] inbox_step_trans [OF _ resume_entry_step]
          inbox_step_trans [OF late] res inbox_step_trans [OF res])
qed simp

lemma matchMissedAnswers_step: "inbox_step s (snd (matchMissedAnswers u agentId allowed floors s))"
  by (simp add: matchMissedAnswers_def Let_def missed_loop_step)

lemma refresh_inbox_step: "inbox_step s (refresh_inbox u agent access s)"
proof -
  obtain dropped s1 where r: "retireInbox (ag_id agent) (agentChannelIds (agent_channels_of agent) access)
      (agentChannelFloors (agent_channels_of agent) access) s = (dropped, s1)" by fastforce
  have 1: "inbox_step s s1"
    using retireInbox_step [of s "ag_id agent" "agentChannelIds (agent_channels_of agent) access"
        "agentChannelFloors (agent_channels_of agent) access"] r by simp
  then show ?thesis
    unfolding refresh_inbox_def Let_def r
    by (auto intro: inbox_step_trans [OF _ matchMissedAnswers_step] inbox_step_trans [OF _ audit_fx.is_inbox_step])
qed

subsection \<open>A started run\<close>

lemma enqueueAttempt_frame [simp]:
  "gw_agents (enqueueAttempt u init s) = gw_agents s" "gw_inbox (enqueueAttempt u init s) = gw_inbox s"
  "gw_usage (enqueueAttempt u init s) = gw_usage s" "gw_waits (enqueueAttempt u init s) = gw_waits s"
  "gw_events (enqueueAttempt u init s) = gw_events s" "gw_routes (enqueueAttempt u init s) = gw_routes s"
  "gw_lifecycle (enqueueAttempt u init s) = gw_lifecycle s" "gw_config (enqueueAttempt u init s) = gw_config s"
  "gw_snapshots (enqueueAttempt u init s) = gw_snapshots s" "gw_outbox (enqueueAttempt u init s) = gw_outbox s"
  "decision_log (enqueueAttempt u init s) = decision_log s"
  by (simp_all add: enqueueAttempt_def Let_def send_job_def)

lemma enqueueAttempt_runs:
  "gw_runs (enqueueAttempt u init s) =
    update_where (\<lambda>r. rn_id r = ai_runId init) (\<lambda>r. r\<lparr>rn_jobId := Some (fresh_id u s)\<rparr>) (gw_runs s)"
  by (simp add: enqueueAttempt_def Let_def send_job_def)

lemma enqueueAttempt_ids: "gw_ids s \<le> gw_ids (enqueueAttempt u init s)"
  by (simp add: enqueueAttempt_def Let_def send_job_def)

lemma agent_posts_enqueueAttempt [simp]: "agent_posts (enqueueAttempt u init s) = agent_posts s"
  by (simp add: agent_posts_def)

lemma insert_run_Inr: "insert_run r s = Inr s' \<Longrightarrow> s' = s\<lparr>gw_runs := gw_runs s @ [r]\<rparr>"
  by (auto simp: insert_run_def split: if_splits)

lemma new_run_simps [simp]:
  "rn_id (new_run u agent rd trigger input runId s) = runId"
  "rn_agentId (new_run u agent rd trigger input runId s) = ag_id agent"
  "rn_triggerEventId (new_run u agent rd trigger input runId s) = er_id trigger"
  "rn_status (new_run u agent rd trigger input runId s) = RQueued"
  "rn_attempt (new_run u agent rd trigger input runId s) = 1"
  "rn_maxAttempts (new_run u agent rd trigger input runId s) = MAX_RUN_ATTEMPTS"
  "rn_queuedAt (new_run u agent rd trigger input runId s) = u_now u"
  by (simp_all add: new_run_def Let_def)

lemma start_run_effect:
  assumes "start_run u td agent rd t claimed trigger input authority ref runId s = Inr (res, s')"
    and "lockAgent s (ag_id agent) = Some agent" and "distinct (map fst (agent_states s))"
    and "runId \<notin> rn_id ` set (gw_runs s)"
  shows "\<exists>dst run. nextAgentState (ag_state agent) t = Some dst \<and> res = Scheduled runId \<and>
    agent_states s' = set_state (ag_id agent) dst (agent_states s) \<and> gw_runs s' = gw_runs s @ [run] \<and>
    rn_id run = runId \<and> rn_agentId run = ag_id agent \<and> rn_triggerEventId run = er_id trigger \<and>
    rn_status run = RQueued \<and> rn_attempt run = 1 \<and> rn_maxAttempts run = MAX_RUN_ATTEMPTS \<and>
    rn_queuedAt run = u_now u \<and>
    gw_inbox s' = update_where (\<lambda>i. ib_id i \<in> ib_id ` fst ` set claimed)
      (\<lambda>i. i\<lparr>ib_status := IClaimed, ib_runId := Some runId\<rparr>) (gw_inbox s) \<and>
    gw_ids s < gw_ids s' \<and> gw_usage s' = gw_usage s \<and> agent_posts s' = agent_posts s"
proof -
  let ?run = "new_run u agent rd trigger input runId s"
  obtain s1 where i: "insert_run ?run (s\<lparr>gw_ids := Suc (gw_ids s)\<rparr>) = Inr s1"
    using assms(1) by (auto simp: start_run_def split: sum.splits)
  have s1: "s1 = s\<lparr>gw_ids := Suc (gw_ids s), gw_runs := gw_runs s @ [?run]\<rparr>"
    using insert_run_Inr [OF i] by simp
  obtain dst where dst: "nextAgentState (ag_state agent) t = Some dst"
    using assms(1) i by (auto simp: start_run_def requireTransition_Inr_iff split: sum.splits)
  then have req: "requireTransition (ag_id agent) (ag_state agent) t = Inr dst"
    by (simp add: requireTransition_Inr_iff)
  define s2 where "s2 = s1\<lparr>gw_snapshots := gw_snapshots s1 @
      [\<lparr>sn_runId = runId, sn_agentId = ag_id agent, sn_configVersion = ag_configVersion agent,
        sn_threadRef = map_option formatThreadRef ref, sn_input = input,
        sn_authority = authority, sn_sizeBytes = td_inputBytes td input\<rparr>]\<rparr>"
  define s3 where "s3 = claim_inbox (map (ib_id \<circ> fst) claimed) runId s2"
  define s4 where "s4 = setAgentState u (ag_id agent) (ag_state agent) dst (''run '' @ runId) s3"
  define init where "init = \<lparr>ai_runId = runId, ai_attempt = 1, ai_adapter = cfg_adapter (ag_config agent),
      ai_agentId = ag_id agent, ai_model = cfg_model (ag_config agent),
      ai_sessionPolicy = cfg_session_policy (ag_config agent),
      ai_sessionScope = sessionScope (ag_configVersion agent) input, ai_input = input,
      ai_timeoutSeconds = cfg_timeout_seconds (ag_config agent), ai_startAfter = None\<rparr>"
  define det where "det = [(''agent_id'', JStr (ag_id agent)), (''trigger_event_id'', JStr (er_id trigger)),
      (''inbox_events'', JNum (int (length claimed))), (''redrive_of'', json_option (map_option rd_runId rd))]"
  have "Inr (res, s') = (Inr (Scheduled runId,
      audit u ''system'' ''run.scheduled'' ''run'' runId det (enqueueAttempt u init s4)) :: schedule_result uow_result)"
    unfolding assms(1) [symmetric] start_run_def i req s2_def s3_def s4_def init_def det_def
    by (simp add: Let_def)
  then have s': "s' = audit u ''system'' ''run.scheduled'' ''run'' runId det (enqueueAttempt u init s4)"
    "res = Scheduled runId" by simp_all
  have init: "ai_runId init = runId" by (simp add: init_def)
  have ag: "gw_agents s3 = gw_agents s" by (simp add: s3_def s2_def s1 claim_inbox_def)
  have states: "agent_states s4 = set_state (ag_id agent) dst (agent_states s)"
    unfolding s4_def by (rule agent_states_setAgentState [OF assms(2,3) ag])
  have "rn_id r \<noteq> runId" if "r \<in> set (gw_runs s)" for r using assms(4) that by auto
  then have "update_where (\<lambda>r. rn_id r = runId) (\<lambda>r. r\<lparr>rn_jobId := Some j\<rparr>) (gw_runs s @ [?run]) =
      gw_runs s @ [?run\<lparr>rn_jobId := Some j\<rparr>]" for j
    by (auto simp: update_where_def intro!: map_idI)
  then have runs: "gw_runs (enqueueAttempt u init s4) = gw_runs s @ [?run\<lparr>rn_jobId := Some (fresh_id u s4)\<rparr>]"
    by (simp add: enqueueAttempt_runs init s4_def s3_def s2_def s1 claim_inbox_def)
  have ids: "gw_ids s < gw_ids (enqueueAttempt u init s4)"
  proof -
    have "Suc (gw_ids s) = gw_ids s4" by (simp add: s4_def s3_def s2_def s1 claim_inbox_def)
    with enqueueAttempt_ids [of s4 u init] show ?thesis by simp
  qed
  have inbox: "gw_inbox (enqueueAttempt u init s4) =
      update_where (\<lambda>i. ib_id i \<in> ib_id ` fst ` set claimed)
        (\<lambda>i. i\<lparr>ib_status := IClaimed, ib_runId := Some runId\<rparr>) (gw_inbox s)"
    by (simp add: s4_def s3_def s2_def s1 claim_inbox_def image_image)
  have posts: "agent_posts s4 = agent_posts s"
    by (simp add: s4_def s3_def s2_def s1 claim_inbox_def agent_posts_def)
  have usage: "gw_usage s4 = gw_usage s" by (simp add: s4_def s3_def s2_def s1 claim_inbox_def)
  from states runs ids inbox posts usage dst s' show ?thesis
    by (intro exI [of _ dst] exI [of _ "?run\<lparr>rn_jobId := Some (fresh_id u s4)\<rparr>"])
      (simp add: agent_states_def audit_def agent_posts_def)
qed

subsection \<open>Scheduling keeps the tables consistent\<close>

lemma busy_scheduled:
  assumes "schedule_transition st rd = Some t" and "nextAgentState st t = Some dst"
  shows "\<not> busy st \<and> dst = Queued"
  using assms by (auto simp: schedule_transition_def nextAgentState_cases busy_def split: if_splits)

lemma start_run_consistent:
  assumes c: "consistent (u_uuid u) s" and inj: "inj (u_uuid u)"
    and t: "schedule_transition (ag_state agent) rd = Some t"
    and lock: "lockAgent s (ag_id agent) = Some agent"
    and start: "start_run u td agent rd t claimed trigger input authority ref (fresh_id u s) s = Inr (res, s')"
  shows "consistent (u_uuid u) s'"
proof -
  note D = consistentD [OF c]
  have new: "fresh_id u s \<notin> rn_id ` set (gw_runs s)"
  proof
    assume "fresh_id u s \<in> rn_id ` set (gw_runs s)"
    then obtain r where "r \<in> set (gw_runs s)" "rn_id r = u_uuid u (gw_ids s)" by (auto simp: fresh_id_def)
    with D(3) [of r] inj show False by (auto simp: inj_on_def)
  qed
  from start_run_effect [OF start lock D(1) new] obtain dst run where
    dst: "nextAgentState (ag_state agent) t = Some dst" and
    states: "agent_states s' = set_state (ag_id agent) dst (agent_states s)" and
    runs: "gw_runs s' = gw_runs s @ [run]" and
    run: "rn_id run = fresh_id u s" "rn_agentId run = ag_id agent" "rn_status run = RQueued" "rn_attempt run = 1"
      "rn_maxAttempts run = MAX_RUN_ATTEMPTS" and
    inbox: "gw_inbox s' = update_where (\<lambda>i. ib_id i \<in> ib_id ` fst ` set claimed)
      (\<lambda>i. i\<lparr>ib_status := IClaimed, ib_runId := Some (fresh_id u s)\<rparr>) (gw_inbox s)" and
    ids: "gw_ids s < gw_ids s'" by blast
  have st: "state_of s (ag_id agent) = Some (ag_state agent)" using lockAgent_state [OF lock] by simp
  have b: "\<not> busy (ag_state agent)" "dst = Queued" using busy_scheduled [OF t dst] by simp_all
  show ?thesis
  proof (rule consistent_new_run [OF c _ _ _ runs])
    show "state_of s (rn_agentId run) \<noteq> None" "\<not> has_active s (rn_agentId run)"
      using st b(1) D(6) [of "ag_id agent"] run(2) by auto
    show "agent_states s' = set_state (rn_agentId run) dst (agent_states s)" using states run(2) by simp
    show "rn_id run \<notin> rn_id ` set (gw_runs s)" using new run(1) by simp
    show "rn_id run \<in> u_uuid u ` {..<gw_ids s'}" using ids run(1) by (auto simp: fresh_id_def)
    show "in_progress run" "busy dst" using run(3) b(2) by (simp_all add: in_progress_def busy_def)
    show "attempt_ok run" using run(4,5) by (simp add: attempt_ok_def MAX_RUN_ATTEMPTS_def)
    show "gw_ids s \<le> gw_ids s'" using ids by simp
  next
    fix i assume "i \<in> set (gw_inbox s')"
    then obtain i0 where i0: "i0 \<in> set (gw_inbox s)"
      "i = (if ib_id i0 \<in> ib_id ` fst ` set claimed
            then i0\<lparr>ib_status := IClaimed, ib_runId := Some (fresh_id u s)\<rparr> else i0)"
      unfolding inbox set_update_where by blast
    show "entry_ok (gw_runs s') i"
    proof (cases "ib_id i0 \<in> ib_id ` fst ` set claimed")
      case True
      with i0(2) run(1,3) show ?thesis by (simp add: entry_ok_def runs open_run_def in_progress_def)
    next
      case False
      with i0 D(7) [OF i0(1)] show ?thesis by (auto simp: entry_ok_def runs)
    qed
  qed
qed

lemma build_and_start_consistent:
  assumes "consistent (u_uuid u) s" and "inj (u_uuid u)"
    and "schedule_transition (ag_state agent) rd = Some t" and "lockAgent s (ag_id agent) = Some agent"
    and "build_and_start u td agent rd t claimed trigger s = Inr (res, s')"
  shows "consistent (u_uuid u) s'"
  using assms(5) start_run_consistent [OF assms(1-4)] assms(1)
  by (auto simp: build_and_start_def context_unavailable_def Let_def raise_fx.keeps_consistent
      split: if_splits sum.splits)

lemma schedule_ready_consistent:
  assumes c: "consistent (u_uuid u) s" and inj: "inj (u_uuid u)" and lock: "lockAgent s (ag_id agent) = Some agent"
    and r: "schedule_ready u td agent rd s = Inr (res, s')"
  shows "consistent (u_uuid u) s'"
proof (cases "schedule_transition (ag_state agent) rd")
  case None
  with r c show ?thesis by (simp add: schedule_ready_def)
next
  case (Some t)
  let ?s1 = "refresh_inbox u agent (loadChannelAccess s) s"
  have c1: "consistent (u_uuid u) ?s1" by (rule inbox_step_consistent [OF refresh_inbox_step c])
  have l1: "lockAgent ?s1 (ag_id agent) = Some agent"
    using lock inbox_step_lockAgent [OF refresh_inbox_step] by simp
  obtain h s2 where h: "budgetHoldFor u (ag_id agent) ?s1 = (h, s2)" by fastforce
  have s2: "s2 = snd (budgetHoldFor u (ag_id agent) ?s1)" by (simp add: h)
  have c2: "consistent (u_uuid u) s2" unfolding s2 by (rule hold_fx.keeps_consistent [OF c1])
  have l2: "lockAgent s2 (ag_id agent) = Some agent" unfolding s2 using l1 by simp
  show ?thesis
    using r c c1 c2 build_and_start_consistent [OF c2 inj Some l2]
    by (auto simp: schedule_ready_def Some h Let_def split: if_splits list.splits option.splits)
qed

lemma scheduleAgent_consistent:
  assumes "consistent (u_uuid u) s" and "inj (u_uuid u)" and "scheduleAgent u td a rd s = Inr (res, s')"
  shows "consistent (u_uuid u) s'"
proof (cases "lockAgent s a")
  case None
  with assms show ?thesis by (simp add: scheduleAgent_def)
next
  case (Some agent)
  then have "lockAgent s (ag_id agent) = Some agent" using lockAgent_state by fastforce
  with assms Some schedule_ready_consistent [OF assms(1,2)] show ?thesis
    by (auto simp: scheduleAgent_def split: option.splits if_splits)
qed

end
