(* ===== verification/Run_Safety.thy ===== *)
theory Run_Safety
  imports Runs Scheduler_Safety
begin

text \<open>
  The use cases of \<open>Runs\<close> keep the tables consistent, whatever a worker reports; a stale or foreign report
  changes nothing but the usage ledger; and nothing is published except from an authorised result.
\<close>

subsection \<open>The located run\<close>

definition located :: "gateway \<Rightarrow> run_row \<Rightarrow> agent_row \<Rightarrow> bool" where
  "located s run agent \<longleftrightarrow>
    run \<in> set (gw_runs s) \<and> in_progress run \<and> lockAgent s (rn_agentId run) = Some agent"

lemma lockRun_SomeD:
  assumes "lockRun s runId a = Some (run, agent)"
  shows "run \<in> set (gw_runs s) \<and> rn_id run = runId \<and> lockAgent s (rn_agentId run) = Some agent \<and>
    (case a of None \<Rightarrow> True | Some x \<Rightarrow> rn_agentId run = x)"
  using assms find_run_SomeD [of s runId run]
  by (auto simp: lockRun_def split: option.splits if_splits)

lemma located_cong:
  "gw_runs s' = gw_runs s \<Longrightarrow> gw_agents s' = gw_agents s \<Longrightarrow> located s' run agent \<longleftrightarrow> located s run agent"
  by (simp add: located_def lockAgent_def)

lemma located_busy:
  assumes "consistent uuid s" and "located s run agent"
  shows "busy (ag_state agent)" and "ag_id agent = rn_agentId run"
proof -
  from assms(2) have l: "lockAgent s (rn_agentId run) = Some agent" by (simp add: located_def)
  from lockAgent_state [OF l] show "ag_id agent = rn_agentId run" by simp
  have "has_active s (rn_agentId run)" using assms(2) by (auto simp: located_def has_active_def)
  with consistentD(6) [OF assms(1)] lockAgent_state [OF l] show "busy (ag_state agent)" by simp
qed

lemma update_run_frame [simp]:
  "gw_agents (update_run i f s) = gw_agents s" "gw_inbox (update_run i f s) = gw_inbox s"
  "gw_ids (update_run i f s) = gw_ids s" "gw_usage (update_run i f s) = gw_usage s"
  "gw_outbox (update_run i f s) = gw_outbox s" "gw_lifecycle (update_run i f s) = gw_lifecycle s"
  "gw_config (update_run i f s) = gw_config s" "gw_waits (update_run i f s) = gw_waits s"
  "gw_runs (update_run i f s) = update_where (\<lambda>r. rn_id r = i) f (gw_runs s)"
  by (simp_all add: update_run_def)

lemma release_inbox_frame [simp]:
  "gw_agents (release_inbox i s) = gw_agents s" "gw_runs (release_inbox i s) = gw_runs s"
  "gw_ids (release_inbox i s) = gw_ids s" "gw_usage (release_inbox i s) = gw_usage s"
  "gw_outbox (release_inbox i s) = gw_outbox s" "gw_lifecycle (release_inbox i s) = gw_lifecycle s"
  "gw_config (release_inbox i s) = gw_config s"
  by (simp_all add: release_inbox_def)

text \<open>The general step: the run is rewritten, its agent moved, and its claimed work kept, released or consumed.\<close>

datatype claim_fate = Kept | Released | Consumed

fun settle :: "claim_fate \<Rightarrow> string \<Rightarrow> inbox_row \<Rightarrow> inbox_row" where
  "settle Kept runId i = i"
| "settle Released runId i =
    (if ib_runId i = Some runId \<and> ib_status i = IClaimed then i\<lparr>ib_status := IPending, ib_runId := None\<rparr> else i)"
| "settle Consumed runId i =
    (if ib_runId i = Some runId \<and> ib_status i = IClaimed then i\<lparr>ib_status := IConsumed\<rparr> else i)"

lemma run_step_consistent:
  assumes c: "consistent uuid s" and loc: "located s run agent"
    and agents: "agent_states s' = set_state (rn_agentId run) dst (agent_states s)"
    and runs: "gw_runs s' = update_where (\<lambda>r. rn_id r = rn_id run) f (gw_runs s)"
    and keep: "\<And>r. rn_id (f r) = rn_id r \<and> rn_agentId (f r) = rn_agentId r \<and> rn_maxAttempts (f r) = rn_maxAttempts r"
    and prog: "in_progress (f run) \<longleftrightarrow> busy dst"
    and att: "1 \<le> rn_attempt (f run)" "rn_attempt (f run) \<le> rn_maxAttempts run"
    and inbox: "gw_inbox s' = map (settle fate (rn_id run)) (gw_inbox s)"
    and fate: "fate = Kept \<Longrightarrow> open_run (f run)"
    and ids: "gw_ids s \<le> gw_ids s'"
  shows "consistent uuid s'"
proof -
  from loc have run: "run \<in> set (gw_runs s)" "in_progress run" by (simp_all add: located_def)
  show ?thesis
  proof (rule consistent_run_step [OF c run agents runs keep prog att _ ids])
    fix i assume "i \<in> set (gw_inbox s')"
    then obtain i0 where i0: "i0 \<in> set (gw_inbox s)" "i = settle fate (rn_id run) i0" using inbox by auto
    have ok: "entry_ok (gw_runs s) i0" by (rule consistentD(7) [OF c i0(1)])
    show "entry_ok (gw_runs s') i"
    proof (cases "fate \<noteq> Kept \<and> ib_runId i0 = Some (rn_id run) \<and> ib_status i0 = IClaimed")
      case True
      with i0(2) show ?thesis by (cases fate) (auto simp: entry_ok_def)
    next
      case False
      then have i: "i = i0" using i0(2) by (cases fate) auto
      show ?thesis
        unfolding runs i
      proof (rule entry_ok_update [OF ok])
        fix r assume "r \<in> set (gw_runs s)" "rn_id r = rn_id run" "ib_runId i0 = Some (rn_id r)" "ib_status i0 = IClaimed"
        with False fate run_unique [OF c _ run(1)] show "open_run (f r)" by auto
      qed (use keep in simp)
    qed
  qed
qed

subsection \<open>Failure\<close>

lemma busy_outcomes:
  assumes "busy st"
  shows "nextAgentState st Retry = Some Queued" and "nextAgentState st CompleteIdle = Some Idle"
    and "nextAgentState st CompleteWaiting = Some Waiting" and "nextAgentState st Fail = Some Failed"
    and "nextAgentState st Pause = Some Paused"
  using assms by (auto simp: busy_def nextAgentState_cases)

lemma requireTransition_busy:
  assumes "busy st"
  shows "requireTransition a st Retry = Inr Queued" and "requireTransition a st CompleteIdle = Inr Idle"
    and "requireTransition a st CompleteWaiting = Inr Waiting" and "requireTransition a st Fail = Inr Failed"
    and "requireTransition a st Pause = Inr Paused"
  using busy_outcomes [OF assms] by (simp_all add: requireTransition_Inr_iff)

lemma release_settle: "gw_inbox (release_inbox i s) = map (settle Released i) (gw_inbox s)"
  by (simp add: release_inbox_def update_where_def)

lemma settle_Kept [simp]: "map (settle Kept i) xs = xs"
  by (simp add: map_idI)

lemma fail_run_consistent:
  assumes c: "consistent uuid s" and loc: "located s run agent"
    and r: "fail_run u run agent error v usage s = Inr (res, s')"
  shows "consistent uuid s' \<and> res = RepFailed"
proof -
  note b = located_busy [OF c loc]
  have l: "lockAgent s (ag_id agent) = Some agent" using loc b(2) by (simp add: located_def)
  have att: "attempt_ok run" using consistentD(4) [OF c] loc by (simp add: located_def)
  define f where "f = (\<lambda>r. r\<lparr>rn_status := RFailed, rn_finishedAt := Some (u_now u),
     rn_errorCode := Some (error_code_name (re_code error)), rn_errorDetail := Some (u_redact u (re_detail error)),
     rn_runtimeVersion := Some v, rn_usage := usage\<rparr> :: run_row)"
  define s2 where "s2 = setAgentState u (ag_id agent) (ag_state agent) Failed
     (''run '' @ rn_id run @ '' failed: '' @ error_code_name (re_code error)) (update_run (rn_id run) f s)"
  have "consistent uuid s2"
  proof (rule run_step_consistent [OF c loc, where f = f and dst = Failed and fate = Kept])
    show "agent_states s2 = set_state (rn_agentId run) Failed (agent_states s)"
      unfolding s2_def b(2) [symmetric] by (rule agent_states_setAgentState [OF l consistentD(1) [OF c]]) simp
    show "gw_runs s2 = update_where (\<lambda>r. rn_id r = rn_id run) f (gw_runs s)"
      "gw_inbox s2 = map (settle Kept (rn_id run)) (gw_inbox s)" "gw_ids s \<le> gw_ids s2"
      by (simp_all add: s2_def)
  qed (use att in \<open>simp_all add: f_def in_progress_def busy_def open_run_def attempt_ok_def\<close>)
  with r show ?thesis
    by (auto simp: fail_run_def requireTransition_busy [OF b(1)] Let_def s2_def f_def
        intro: audit_fx.keeps_consistent raise_fx.keeps_consistent)
qed

lemma defer_consistent:
  assumes c: "consistent uuid s" and loc: "located s run agent"
    and r: "deferForBudget u run agent error reason v usage s = Inr (res, s')"
  shows "consistent uuid s' \<and> res = RepDeferred"
proof -
  note b = located_busy [OF c loc]
  have l: "lockAgent s (ag_id agent) = Some agent" using loc b(2) by (simp add: located_def)
  have att: "attempt_ok run" using consistentD(4) [OF c] loc by (simp add: located_def)
  define f where "f = (\<lambda>r. r\<lparr>rn_status := RCancelled, rn_finishedAt := Some (u_now u),
     rn_errorCode := Some (error_code_name (re_code error)),
     rn_errorDetail := Some (u_redact u (re_detail error @ ''; retry deferred: '' @ reason)),
     rn_runtimeVersion := Some v, rn_usage := usage\<rparr> :: run_row)"
  define s2 where "s2 = setAgentState u (ag_id agent) (ag_state agent) Idle
     (''run '' @ rn_id run @ '' deferred by the budget'') (release_inbox (rn_id run) (update_run (rn_id run) f s))"
  have "consistent uuid s2"
  proof (rule run_step_consistent [OF c loc, where f = f and dst = Idle and fate = Released])
    show "agent_states s2 = set_state (rn_agentId run) Idle (agent_states s)"
      unfolding s2_def b(2) [symmetric] by (rule agent_states_setAgentState [OF l consistentD(1) [OF c]]) simp
    show "gw_runs s2 = update_where (\<lambda>r. rn_id r = rn_id run) f (gw_runs s)"
      "gw_inbox s2 = map (settle Released (rn_id run)) (gw_inbox s)" "gw_ids s \<le> gw_ids s2"
      by (simp_all add: s2_def release_settle)
  qed (use att in \<open>simp_all add: f_def in_progress_def busy_def open_run_def attempt_ok_def\<close>)
  with r show ?thesis
    by (auto simp: deferForBudget_def requireTransition_busy [OF b(1)] Let_def s2_def f_def
        intro: audit_fx.keeps_consistent)
qed

lemma retry_consistent:
  assumes c: "consistent uuid s" and loc: "located s run agent" and less: "rn_attempt run < rn_maxAttempts run"
    and r: "retry_attempt u run agent error bytes v usage s = Inr (res, s')"
  shows "consistent uuid s' \<and> res = RepRetryScheduled"
proof -
  note b = located_busy [OF c loc]
  have l: "lockAgent s (ag_id agent) = Some agent" using loc b(2) by (simp add: located_def)
  obtain snapshot where snap: "find_snapshot s (rn_id run) = Some snapshot"
    using r by (auto simp: retry_attempt_def Let_def split: option.splits)
  define deadline where "deadline = u_now u + runRetryDelaySeconds (int (rn_attempt run)) (u_random u) * 1000 +
     int (rn_timeoutSeconds run) * 1000"
  define f where "f = (\<lambda>r. r\<lparr>rn_status := RQueued, rn_attempt := rn_attempt run + 1, rn_startedAt := None,
     rn_timeoutAt := deadline, rn_errorCode := Some (error_code_name (re_code error)),
     rn_errorDetail := Some (u_redact u (re_detail error)), rn_runtimeVersion := Some v, rn_usage := usage\<rparr> :: run_row)"
  define s1 where "s1 = s\<lparr>gw_snapshots := update_where (\<lambda>n. sn_runId n = rn_id run)
     (\<lambda>n. n\<lparr>sn_input := (sn_input snapshot)\<lparr>ti_deadline := deadline\<rparr>,
       sn_sizeBytes := bytes ((sn_input snapshot)\<lparr>ti_deadline := deadline\<rparr>)\<rparr>) (gw_snapshots s)\<rparr>"
  define s3 where "s3 = setAgentState u (ag_id agent) (ag_state agent) Queued
     (''run '' @ rn_id run @ '' attempt '' @ show_nat (rn_attempt run + 1)) (update_run (rn_id run) f s1)"
  have step: "consistent uuid (enqueueAttempt u init s3)" if init: "ai_runId init = rn_id run" for init
  proof (rule run_step_consistent [OF c loc, where f = "\<lambda>r. (f r)\<lparr>rn_jobId := Some (fresh_id u s3)\<rparr>"
        and dst = Queued and fate = Kept])
    have "agent_states s3 = set_state (rn_agentId run) Queued (agent_states s)"
      unfolding s3_def b(2) [symmetric]
      by (rule agent_states_setAgentState [OF l consistentD(1) [OF c]]) (simp add: s1_def)
    then show "agent_states (enqueueAttempt u init s3) = set_state (rn_agentId run) Queued (agent_states s)"
      by (simp add: agent_states_def)
    show "gw_runs (enqueueAttempt u init s3) =
        update_where (\<lambda>r. rn_id r = rn_id run) (\<lambda>r. (f r)\<lparr>rn_jobId := Some (fresh_id u s3)\<rparr>) (gw_runs s)"
      unfolding enqueueAttempt_runs init
      by (simp add: s3_def s1_def, subst update_where_twice) (simp_all add: f_def)
    show "gw_inbox (enqueueAttempt u init s3) = map (settle Kept (rn_id run)) (gw_inbox s)"
      by (simp add: s3_def s1_def)
    show "gw_ids s \<le> gw_ids (enqueueAttempt u init s3)"
      using enqueueAttempt_ids [of s3 u init] by (simp add: s3_def s1_def)
  qed (use less in \<open>simp_all add: f_def in_progress_def busy_def open_run_def\<close>)
  show ?thesis
    using r step
    by (auto simp: retry_attempt_def requireTransition_busy [OF b(1)] Let_def snap s3_def s1_def f_def deadline_def
        intro: audit_fx.keeps_consistent)
qed

lemma applyFailure_consistent:
  assumes c: "consistent uuid s" and loc: "located s run agent"
    and r: "applyFailure u td run agent error v usage s = Inr (res, s')"
  shows "consistent uuid s' \<and> res \<in> {RepRetryScheduled, RepDeferred, RepFailed}"
proof (cases "re_retryable error \<and> rn_attempt run < rn_maxAttempts run")
  case False
  with r fail_run_consistent [OF c loc] show ?thesis by (auto simp: applyFailure_def)
next
  case True
  obtain h s1 where h: "budgetHoldFor u (ag_id agent) s = (h, s1)" by fastforce
  have s1: "s1 = snd (budgetHoldFor u (ag_id agent) s)" by (simp add: h)
  have c1: "consistent uuid s1" unfolding s1 by (rule hold_fx.keeps_consistent [OF c])
  have l1: "located s1 run agent" unfolding s1 using loc by (subst located_cong) simp_all
  show ?thesis
    using r True defer_consistent [OF c1 l1] retry_consistent [OF c1 l1]
    by (auto simp: applyFailure_def h split: option.splits)
qed

subsection \<open>What publication and approval leave alone\<close>

interpretation decision_fx: quiet_effect "record_decision u runId agentId action decision reason"
  for u runId agentId action decision reason
  by unfold_locales (simp_all add: record_decision_def agent_posts_def outbox_grows_same)

lemma fold_core_effect:
  assumes "\<And>x. core_effect (f x)"
  shows "core_effect (fold f xs)"
proof (induction xs)
  case Nil
  show ?case by unfold_locales simp_all
next
  case (Cons x xs)
  show ?case
  proof
    fix s
    show "gw_ids s \<le> gw_ids (fold f (x # xs) s)"
      using core_effect.ids_mono [OF assms, of s x] core_effect.ids_mono [OF Cons, of "f x s"] by simp
  qed (simp_all add: core_effect.agents [OF Cons] core_effect.agents [OF assms] core_effect.runs [OF Cons]
      core_effect.runs [OF assms] core_effect.inbox [OF Cons] core_effect.inbox [OF assms]
      core_effect.lifecycle [OF Cons] core_effect.lifecycle [OF assms] core_effect.config [OF Cons]
      core_effect.config [OF assms] core_effect.usage [OF Cons] core_effect.usage [OF assms])
qed

lemma comp_core_effect:
  assumes "core_effect f" and "core_effect g"
  shows "core_effect (\<lambda>s. g (f s))"
proof
  fix s
  show "gw_ids s \<le> gw_ids (g (f s))"
    using core_effect.ids_mono [OF assms(1), of s] core_effect.ids_mono [OF assms(2), of "f s"] by simp
qed (simp_all add: core_effect.agents [OF assms(1)] core_effect.agents [OF assms(2)] core_effect.runs [OF assms(1)]
    core_effect.runs [OF assms(2)] core_effect.inbox [OF assms(1)] core_effect.inbox [OF assms(2)]
    core_effect.lifecycle [OF assms(1)] core_effect.lifecycle [OF assms(2)] core_effect.config [OF assms(1)]
    core_effect.config [OF assms(2)] core_effect.usage [OF assms(1)] core_effect.usage [OF assms(2)])

interpretation policy_fx: core_effect "\<lambda>s. snd (approvalPolicyIssues u run agentId authority draft s)"
  for u run agentId authority draft
proof -
  have "core_effect (fold (\<lambda>(d, reason). record_decision u (rn_id run) agentId (dr_actionType draft) d reason) rows)"
    for rows
    by (rule fold_core_effect) (auto simp: decision_fx.core_effect_axioms split: prod.split)
  then show "core_effect (\<lambda>s. snd (approvalPolicyIssues u run agentId authority draft s))"
    unfolding approvalPolicyIssues_def Let_def core_effect_def by simp
qed

lemma persistArtifacts_core: "core_effect (\<lambda>s. snd (persistArtifacts u run as ids s))"
proof (induction as arbitrary: ids)
  case Nil
  show ?case by unfold_locales simp_all
next
  case (Cons a as)
  show ?case
  proof
    fix s
    let ?s = "s\<lparr>gw_artifacts := gw_artifacts s @
          [\<lparr>at_id = fresh_id u s, at_runId = rn_id run, at_agentId = rn_agentId run, at_artifact = a,
            at_createdAt = u_now u\<rparr>], gw_ids := Suc (gw_ids s)\<rparr>"
    show "gw_ids s \<le> gw_ids (snd (persistArtifacts u run (a # as) ids s))"
      using core_effect.ids_mono [OF Cons, of ?s "AList.update (ad_key a) (fresh_id u s) ids"] by simp
  qed (simp_all add: core_effect.agents [OF Cons] core_effect.runs [OF Cons] core_effect.inbox [OF Cons]
      core_effect.lifecycle [OF Cons] core_effect.config [OF Cons] core_effect.usage [OF Cons])
qed

lemma persistMessages_core: "core_effect (persistMessages u run agent ids scope n ms)"
proof (induction ms arbitrary: n)
  case Nil
  show ?case by unfold_locales simp_all
next
  case (Cons m ms)
  have "persistMessages u run agent ids scope n (m # ms) = (\<lambda>s. persistMessages u run agent ids scope (Suc n) ms
      (enqueueOutbox u (''channel/'' @ pm_channelId m) (MattermostPost (postPayload run agent ids scope m))
        (''mattermost-post:'' @ rn_id run @ '':'' @ show_nat n) (Some (rn_id run)) s))"
    by (rule ext) simp
  then show ?case using comp_core_effect [OF outbox_fx.core_effect_axioms Cons] by simp
qed

interpretation proposal_fx: core_effect "persistProposal u run agent p" for u run agent p
  by unfold_locales (simp_all add: persistProposal_def supersedeMemory_def Let_def)

interpretation session_fx: core_effect "persistSession u agentId session scope queuedAt"
  for u agentId session scope queuedAt
  by unfold_locales (simp_all add: persistSession_def Let_def split: option.split)

interpretation summary_fx: core_effect "summarise_thread u cp run agent snapshot summary"
  for u cp run agent snapshot summary
  by unfold_locales (simp_all add: summarise_thread_def recordThreadSummary_def Let_def split: option.split)

interpretation artifacts_fx: core_effect "\<lambda>s. snd (persistArtifacts u run as ids s)" for u run as ids
  by (rule persistArtifacts_core)

interpretation messages_fx: core_effect "persistMessages u run agent ids scope n ms" for u run agent ids scope n ms
  by (rule persistMessages_core)

interpretation memory_fx: core_effect "persistMemory u run agent ps" for u run agent ps
  unfolding persistMemory_def [abs_def] by (rule fold_core_effect) (rule proposal_fx.core_effect_axioms)

lemma publish_result_steps:
  "publish_result u cp run agent snapshot result scope s =
    summarise_thread u cp run agent snapshot (tr_publicSummary result)
      (persistSession u (ag_id agent) (tr_session result)
        (sessionScope (sn_configVersion snapshot) (sn_input snapshot)) (rn_queuedAt run)
        (persistMemory u run agent (tr_memoryProposals result)
          (persistMessages u run agent (fst (persistArtifacts u run (tr_artifacts result) [] s)) scope 0
            (tr_publicMessages result) (snd (persistArtifacts u run (tr_artifacts result) [] s)))))"
  by (simp add: publish_result_def Let_def split: prod.split)

lemma publish_result_ids: "gw_ids s \<le> gw_ids (publish_result u cp run agent snapshot result scope s)"
  unfolding publish_result_steps
  by (rule le_trans [OF _ summary_fx.ids_mono], rule le_trans [OF _ session_fx.ids_mono],
      rule le_trans [OF _ memory_fx.ids_mono], rule le_trans [OF _ messages_fx.ids_mono], rule artifacts_fx.ids_mono)

interpretation publish_fx: core_effect "publish_result u cp run agent snapshot result scope"
  for u cp run agent snapshot result scope
  by unfold_locales (simp_all add: publish_result_ids, simp_all add: publish_result_steps)

interpretation wait_fx: core_effect "insertWait u run agentId condition timeoutAt roots"
  for u run agentId condition timeoutAt roots
  by unfold_locales (simp_all add: insertWait_def send_job_def Let_def)

interpretation waits_fx: core_effect "createWaits u run agentId waits scope" for u run agentId waits scope
  unfolding createWaits_def
  by (rule fold_core_effect) (simp add: Let_def wait_fx.core_effect_axioms)

subsection \<open>Completion\<close>

lemma created_core:
  assumes "createApproval u td cp run agent p v usage s = Inr s'"
  shows "gw_agents s' = gw_agents s \<and> gw_runs s' = gw_runs s \<and> gw_inbox s' = gw_inbox s \<and> gw_ids s \<le> gw_ids s'"
proof -
  have "gw_ids t \<le> gw_ids (audit u a b c d e (insertWait u run ag cond tm rts (enqueueOutbox u des pay k rid t)))"
    for t a b c d e ag cond tm rts des pay k rid
    by (rule le_trans [OF _ audit_fx.ids_mono], rule le_trans [OF _ wait_fx.ids_mono], rule outbox_fx.ids_mono)
  from this [of "s\<lparr>gw_approvals := xs\<rparr>" for xs] assms show ?thesis
    by (auto simp: createApproval_def Let_def split: option.splits if_splits)
qed

text \<open>Where the next state leaves the agent, if the completion goes on.\<close>

fun next_agent_state :: "next_state \<Rightarrow> agent_state" where
  "next_agent_state NIdle = Idle"
| "next_agent_state (NWaiting _) = Waiting"
| "next_agent_state (NNeedsHuman _) = Waiting"
| "next_agent_state (NFailed _ _) = Failed"

lemma apply_next_state_effect:
  assumes c: "consistent uuid s" and loc: "located s run agent"
    and r: "apply_next_state u td cp run agent result scope prepared v s = Inr s'"
  shows "agent_states s' = set_state (rn_agentId run) (next_agent_state (tr_nextState result)) (agent_states s) \<and>
    gw_runs s' = gw_runs s \<and> gw_inbox s' = gw_inbox s \<and> gw_ids s \<le> gw_ids s'"
proof -
  note b = located_busy [OF c loc]
  have l: "lockAgent s (ag_id agent) = Some agent" using loc b(2) by (simp add: located_def)
  note move = agent_states_setAgentState [OF l consistentD(1) [OF c], unfolded b(2)]
  note req = requireTransition_busy [OF b(1), of "rn_agentId run"]
  show ?thesis
  proof (cases "tr_nextState result")
    case NIdle
    with r show ?thesis by (auto simp: apply_next_state_def move_agent_def b(2) req move)
  next
    case (NWaiting ws)
    with r show ?thesis by (auto simp: apply_next_state_def move_agent_def b(2) req move)
  next
    case (NNeedsHuman d)
    with r obtain p s1 where "createApproval u td cp run agent p v (tr_usage result) s = Inr s1"
      and s': "s' = setAgentState u (rn_agentId run) (ag_state agent) Waiting (''run '' @ rn_id run @ '' needs a human'') s1"
      by (auto simp: apply_next_state_def move_agent_def b(2) req Let_def split: sum.splits)
    from created_core [OF this(1)] NNeedsHuman show ?thesis by (simp add: s' move)
  next
    case (NFailed e f)
    with r have s': "s' = raiseAlert u (''run-failed:'' @ rn_id run)
        (CHR ''@'' # ag_id agent @ '' reported a failure in run '' @ rn_id run @ ''; the agent is FAILED until redriven.'')
        [] (setAgentState u (rn_agentId run) (ag_state agent) Failed (''run '' @ rn_id run @ '' reported failure'') s)"
      by (auto simp: apply_next_state_def move_agent_def b(2) req)
    show ?thesis
      using NFailed raise_fx.ids_mono [of "setAgentState u (rn_agentId run) (ag_state agent) Failed
          (''run '' @ rn_id run @ '' reported failure'') s" u]
      by (simp add: s' agent_states_cong [OF raise_fx.agents] move)
  qed
qed

lemma apply_next_state_Inl:
  assumes c: "consistent uuid s" and loc: "located s run agent"
    and r: "apply_next_state u td cp run agent result scope prepared v s = Inl (Inr (res, s'))"
  shows "consistent uuid s' \<and> res \<in> {RepRetryScheduled, RepDeferred, RepFailed}"
proof -
  note b = located_busy [OF c loc]
  note req = requireTransition_busy [OF b(1), of "ag_id agent"]
  have "consistent uuid (raiseAlert u k m d s)" "located (raiseAlert u k m d s) run agent" for k m d
    using loc by (simp_all add: raise_fx.keeps_consistent [OF c] located_cong [OF raise_fx.runs raise_fx.agents])
  note fail = applyFailure_consistent [OF this]
  from r show ?thesis
    by (auto simp: apply_next_state_def move_agent_def req createApproval_def refuse_approval_def Let_def
        split: next_state.splits sum.splits option.splits if_splits dest: fail)
qed

lemma finish_run_effect:
  "agent_states (finish_run u run result v s) = agent_states s"
  "gw_inbox (finish_run u run result v s) = map (settle Consumed (rn_id run)) (gw_inbox s)"
  "gw_ids (finish_run u run result v s) = gw_ids s"
  by (simp_all add: finish_run_def Let_def update_run_def agent_states_def update_where_def audit_def)

lemma finish_run_runs:
  "gw_runs (finish_run u run result v s) =
    update_where (\<lambda>r. rn_id r = rn_id run) (finished_row u run result v) (gw_runs s)"
  by (simp add: finish_run_def Let_def update_run_def audit_def)

lemma finished_row_simps [simp]:
  "rn_id (finished_row u run result v r) = rn_id r" "rn_agentId (finished_row u run result v r) = rn_agentId r"
  "rn_attempt (finished_row u run result v r) = rn_attempt r"
  "rn_maxAttempts (finished_row u run result v r) = rn_maxAttempts r"
  "rn_runtimeAdapter (finished_row u run result v r) = rn_runtimeAdapter r"
  "\<not> in_progress (finished_row u run result v r)"
  by (simp_all add: finished_row_def Let_def in_progress_def)

lemma finish_run_consistent:
  assumes c: "consistent uuid s" and loc: "located s run agent"
    and n: "apply_next_state u td cp run agent result scope prepared v s = Inr s1"
  shows "consistent uuid (finish_run u run result v s1)"
proof -
  note e = apply_next_state_effect [OF c loc n]
  have att: "attempt_ok run" using consistentD(4) [OF c] loc by (simp add: located_def)
  show ?thesis
  proof (rule run_step_consistent [OF c loc, where fate = Consumed and f = "finished_row u run result v"
        and dst = "next_agent_state (tr_nextState result)"])
    show "in_progress (finished_row u run result v run) \<longleftrightarrow> busy (next_agent_state (tr_nextState result))"
      by (cases "tr_nextState result") (simp_all add: busy_def)
  qed (use e att in \<open>cases "tr_nextState result"; simp add: finish_run_runs finish_run_effect busy_def attempt_ok_def\<close>)+
qed

lemma accept_result_consistent:
  assumes c: "consistent (u_uuid u) s" and inj: "inj (u_uuid u)" and loc: "located s run agent"
    and r: "accept_result u td cp run agent snapshot result scope prepared v s = Inr (res, s')"
  shows "consistent (u_uuid u) s'"
proof -
  let ?p = "publish_result u cp run agent snapshot result scope s"
  have cp: "consistent (u_uuid u) ?p" by (rule publish_fx.keeps_consistent [OF c])
  have lp: "located ?p run agent" using loc by (simp add: located_cong [OF publish_fx.runs publish_fx.agents])
  show ?thesis
  proof (cases "apply_next_state u td cp run agent result scope prepared v ?p")
    case (Inl e)
    with r apply_next_state_Inl [OF cp lp] show ?thesis by (cases e) (auto simp: accept_result_def)
  next
    case (Inr s1)
    with r scheduleAgent_consistent [OF finish_run_consistent [OF cp lp Inr] inj] show ?thesis
      by (auto simp: accept_result_def split: sum.splits prod.splits)
  qed
qed

lemma refuse_approval_consistent:
  assumes "consistent uuid s" and "located s run agent"
    and "refuse_approval u td run agent what t detail v usage s = Inr (res, s')"
  shows "consistent uuid s'"
  using assms(3) applyFailure_consistent [OF raise_fx.keeps_consistent [OF assms(1)]] assms(2)
  by (auto simp: refuse_approval_def located_cong [OF raise_fx.runs raise_fx.agents])

lemma prepare_approval_consistent:
  assumes c: "consistent uuid s" and loc: "located s run agent"
  shows "prepare_approval u td cp run agent authority requested v usage s = Inl (Inr (res, s')) \<Longrightarrow> consistent uuid s'"
    and "prepare_approval u td cp run agent authority requested v usage s = Inr (p, s') \<Longrightarrow>
      consistent uuid s' \<and> located s' run agent \<and> agent_posts s' = agent_posts s"
proof -
  have 1: "consistent uuid (snd (approvalPolicyIssues u run (ag_id agent) authority draft s))"
    "located (snd (approvalPolicyIssues u run (ag_id agent) authority draft s)) run agent" for draft
    using loc by (simp_all add: policy_fx.keeps_consistent [OF c] located_cong [OF policy_fx.runs policy_fx.agents])
  have 2: "consistent uuid (t\<lparr>gw_ids := Suc (gw_ids t)\<rparr>)" if "consistent uuid t" for t
    by (rule consistent_same [OF that]) simp_all
  have 3: "located (t\<lparr>gw_ids := n\<rparr>) run agent \<longleftrightarrow> located t run agent" for t n
    by (rule located_cong) simp_all
  have posts: "agent_posts (snd (approvalPolicyIssues u run (ag_id agent) authority draft s)) = agent_posts s" for draft
  proof -
    have "agent_posts (fold (\<lambda>(d, reason). record_decision u (rn_id run) (ag_id agent) (dr_actionType draft) d reason) rows s)
        = agent_posts s" for rows
      by (induction rows arbitrary: s) (auto simp: case_prod_unfold)
    then show ?thesis by (simp add: approvalPolicyIssues_def Let_def)
  qed
  show "consistent uuid s'"
    if "prepare_approval u td cp run agent authority requested v usage s = Inl (Inr (res, s'))"
  proof (cases "cp_prepareCustomDraft cp s (ag_id agent) requested")
    case (Inl x)
    with that refuse_approval_consistent [OF c loc] show ?thesis by (auto simp: prepare_approval_def)
  next
    case (Inr draft)
    obtain refusal q where q: "approvalPolicyIssues u run (ag_id agent) authority draft s = (refusal, q)" by fastforce
    then have q_def: "snd (approvalPolicyIssues u run (ag_id agent) authority draft s) = q" by simp
    note q1 = 1 [of draft, unfolded q_def]
    have q2: "located (q\<lparr>gw_ids := Suc (gw_ids q)\<rparr>) run agent" using 3 q1(2) by blast
    from that Inr refuse_approval_consistent [OF q1] refuse_approval_consistent [OF 2 [OF q1(1)] q2]
      applyFailure_consistent [OF 2 [OF q1(1)] q2] show ?thesis
      by (auto simp: prepare_approval_def q Let_def split: if_splits sum.splits)
  qed
  show "consistent uuid s' \<and> located s' run agent \<and> agent_posts s' = agent_posts s"
    if "prepare_approval u td cp run agent authority requested v usage s = Inr (p, s')"
  proof (cases "cp_prepareCustomDraft cp s (ag_id agent) requested")
    case (Inl x)
    with that show ?thesis by (simp add: prepare_approval_def)
  next
    case (Inr draft)
    obtain refusal q where q: "approvalPolicyIssues u run (ag_id agent) authority draft s = (refusal, q)" by fastforce
    then have q_def: "snd (approvalPolicyIssues u run (ag_id agent) authority draft s) = q" by simp
    from that Inr have "s' = q\<lparr>gw_ids := Suc (gw_ids q)\<rparr>"
      by (auto simp: prepare_approval_def q Let_def split: if_splits sum.splits)
    with 1 [of draft] 2 [of q] 3 [where t = q] posts [of draft] show ?thesis by (simp add: q_def agent_posts_def)
  qed
qed

interpretation deny_fx: core_effect "fold (\<lambda>i. record_decision u runId agentId (''turn_result.'' @ fst i) PDeny (snd i)) issues"
  for u runId agentId issues
  by (rule fold_core_effect) (rule decision_fx.core_effect_axioms)

lemma deny_result_consistent:
  assumes c: "consistent uuid s" and loc: "located s run agent"
    and r: "deny_result u td run agent issues v usage s = Inr (res, s')"
  shows "consistent uuid s'"
proof -
  let ?s1 = "fold (\<lambda>i. record_decision u (rn_id run) (ag_id agent) (''turn_result.'' @ fst i) PDeny (snd i)) (take 20 issues) s"
  have 1: "consistent uuid ?s1" by (rule deny_fx.keeps_consistent [OF c])
  have "located ?s1 run agent" using loc located_cong [OF deny_fx.runs deny_fx.agents] by blast
  then have 2: "located (raiseAlert u k m d ?s1) run agent" for k m d
    using located_cong [OF raise_fx.runs raise_fx.agents] by blast
  from applyFailure_consistent [OF raise_fx.keeps_consistent [OF 1] 2] r show ?thesis by (auto simp: deny_result_def Let_def)
qed

lemma applyCompletion_consistent:
  assumes c: "consistent (u_uuid u) s" and inj: "inj (u_uuid u)" and loc: "located s run agent"
    and r: "applyCompletion u td cp run agent raw v s = Inr (res, s')"
  shows "consistent (u_uuid u) s'"
proof (cases "cp_parse cp raw")
  case (Inl problems)
  have "consistent (u_uuid u) (raiseAlert u k m d s)" "located (raiseAlert u k m d s) run agent" for k m d
    using loc by (simp_all add: raise_fx.keeps_consistent c located_cong [OF raise_fx.runs raise_fx.agents])
  from applyFailure_consistent [OF this] r Inl show ?thesis by (auto simp: applyCompletion_def)
next
  case (Inr result)
  then obtain snapshot where snap: "find_snapshot s (rn_id run) = Some snapshot"
    using r by (auto simp: applyCompletion_def split: option.splits)
  let ?issues = "checkTurnResultAuthority result (sn_authority snapshot) @ checkRunScope result (completionScope s snapshot)"
  show ?thesis
  proof (cases "?issues = []")
    case False
    with r Inr snap deny_result_consistent [OF c loc] show ?thesis by (auto simp: applyCompletion_def Let_def)
  next
    case True
    note P = prepare_approval_consistent [OF c loc]
    note A = accept_result_consistent [OF c inj loc] accept_result_consistent [OF _ inj]
    show ?thesis
    proof (cases "tr_nextState result")
      case (NNeedsHuman d)
      show ?thesis
      proof (cases "prepare_approval u td cp run agent (sn_authority snapshot) d v (tr_usage result) s")
        case (Inl x)
        with r \<open>cp_parse cp raw = Inr result\<close> snap True NNeedsHuman
        have "x = Inr (res, s')" by (simp add: applyCompletion_def Let_def)
        with Inl P(1) show ?thesis by blast
      next
        case (Inr y)
        obtain p s1 where y: "y = (p, s1)" by fastforce
        with r Inr \<open>cp_parse cp raw = Inr result\<close> snap True NNeedsHuman
        have "accept_result u td cp run agent snapshot result (completionScope s snapshot) (Some p) v s1 = Inr (res, s')"
          by (simp add: applyCompletion_def Let_def)
        moreover from P(2) Inr y have "consistent (u_uuid u) s1 \<and> located s1 run agent" by blast
        ultimately show ?thesis using A(2) by blast
      qed
    qed (use r Inr snap True A(1) in \<open>auto simp: applyCompletion_def Let_def\<close>)
  qed
qed

subsection \<open>The use cases\<close>

lemma bookUsage_frame [simp]:
  "gw_agents (bookUsage u cp report run agent s) = gw_agents s" "gw_runs (bookUsage u cp report run agent s) = gw_runs s"
  "gw_inbox (bookUsage u cp report run agent s) = gw_inbox s" "gw_ids (bookUsage u cp report run agent s) = gw_ids s"
  "gw_lifecycle (bookUsage u cp report run agent s) = gw_lifecycle s"
  "gw_outbox (bookUsage u cp report run agent s) = gw_outbox s"
  "gw_snapshots (bookUsage u cp report run agent s) = gw_snapshots s"
  "gw_events (bookUsage u cp report run agent s) = gw_events s"
  "decision_log (bookUsage u cp report run agent s) = decision_log s"
  "find_snapshot (bookUsage u cp report run agent s) i = find_snapshot s i"
  "loadAgentLifecycleStatus (bookUsage u cp report run agent s) i = loadAgentLifecycleStatus s i"
  by (simp_all add: bookUsage_def Let_def find_snapshot_def loadAgentLifecycleStatus_def split: report_body.split)

lemma apply_started_consistent:
  assumes c: "consistent uuid s" and loc: "located s run agent"
  shows "consistent uuid (apply_started u run agent v s)"
proof (cases "rn_status run = RQueued")
  case False
  with c show ?thesis by (simp add: apply_started_def)
next
  case True
  note b = located_busy [OF c loc]
  have l: "lockAgent s (ag_id agent) = Some agent" using loc b(2) by (simp add: located_def)
  have att: "attempt_ok run" using consistentD(4) [OF c] loc by (simp add: located_def)
  define dl where "dl = u_now u + int (rn_timeoutSeconds run) * 1000"
  define f where "f = (\<lambda>r. r\<lparr>rn_status := RRunning, rn_startedAt := Some (u_now u), rn_timeoutAt := dl,
    rn_runtimeVersion := Some v\<rparr> :: run_row)"
  define s2 where "s2 = enqueueRunDeadline u (rn_id run) (rn_attempt run) dl (update_run (rn_id run) f s)"
  have 2: "gw_agents s2 = gw_agents s" "gw_inbox s2 = gw_inbox s" "gw_ids s \<le> gw_ids s2"
    "gw_runs s2 = update_where (\<lambda>r. rn_id r = rn_id run) f (gw_runs s)"
    by (simp_all add: s2_def enqueueRunDeadline_def send_job_def)
  note st = agent_states_setAgentState [OF l consistentD(1) [OF c] 2(1)]
  have same: "set_state (rn_agentId run) (ag_state agent) (agent_states s) = agent_states s"
    using lockAgent_state [OF l] b(2) consistentD(1) [OF c] by (intro set_state_same) (simp_all add: state_of_def)
  let ?s' = "if ag_state agent = Queued then setAgentState u (ag_id agent) (ag_state agent) Running
      (''run '' @ rn_id run @ '' started'') s2 else s2"
  have "consistent uuid ?s'"
  proof (rule run_step_consistent [OF c loc, where f = f and fate = Kept
        and dst = "if ag_state agent = Queued then Running else ag_state agent"])
    show "agent_states ?s' = set_state (rn_agentId run) (if ag_state agent = Queued then Running else ag_state agent) (agent_states s)"
      using st [of u Running] same agent_states_cong [OF 2(1)] b(2) by (cases "ag_state agent = Queued") simp_all
  qed (use 2 att b(1) in \<open>auto simp: f_def in_progress_def busy_def open_run_def attempt_ok_def\<close>)
  then show ?thesis
    using True by (simp add: apply_started_def Let_def s2_def f_def dl_def split: if_splits)
qed

lemma handleRunReport_consistent:
  assumes c: "consistent (u_uuid u) s" and inj: "inj (u_uuid u)"
    and r: "handleRunReport u td cp report adapter s = Inr (res, s')"
  shows "consistent (u_uuid u) s'"
proof (cases "lockRun s (rp_runId report) (Some (rp_agentId report))")
  case None
  with r c show ?thesis by (simp add: handleRunReport_def)
next
  case (Some p)
  obtain run agent where p: "p = (run, agent)" by fastforce
  let ?s1 = "bookUsage u cp report run agent s"
  have c1: "consistent (u_uuid u) ?s1" by (rule consistent_same [OF c]) simp_all
  have loc: "located ?s1 run agent" if "in_progress run"
  proof -
    have "located s run agent" using lockRun_SomeD [OF Some [unfolded p]] that by (auto simp: located_def)
    then show ?thesis by (subst located_cong [where s = s]) simp_all
  qed
  show ?thesis
  proof (cases "rn_runtimeAdapter run \<noteq> adapter \<or> \<not> in_progress run")
    case True
    with r Some p c c1 show ?thesis
      by (auto simp: handleRunReport_def inProgress_def Let_def split: if_splits)
  next
    case False
    then have l: "located ?s1 run agent" using loc by simp
    show ?thesis
    proof (cases "rp_body report")
      case ReportStarted
      with r Some p c c1 apply_started_consistent [OF c1 l] audit_fx.keeps_consistent [OF c1] show ?thesis
        by (auto simp: handleRunReport_def Let_def split: if_splits)
    next
      case (ReportCompleted x)
      with r Some p c c1 applyCompletion_consistent [OF c1 inj l] audit_fx.keeps_consistent [OF c1] show ?thesis
        by (auto simp: handleRunReport_def Let_def split: if_splits)
    next
      case (ReportFailed e us)
      with r Some p c c1 applyFailure_consistent [OF c1 l] audit_fx.keeps_consistent [OF c1] show ?thesis
        by (auto simp: handleRunReport_def Let_def split: if_splits)
    qed
  qed
qed

lemma handleRunTimeout_consistent:
  assumes c: "consistent uuid s" and r: "handleRunTimeout u td runId attempt s = Inr (res, s')"
  shows "consistent uuid s'"
proof (cases "lockRun s runId None")
  case None
  with r c show ?thesis by (simp add: handleRunTimeout_def)
next
  case (Some p)
  obtain run agent where p: "p = (run, agent)" by fastforce
  have loc: "located s run agent" if "in_progress run"
    using lockRun_SomeD [OF Some [unfolded p]] that by (simp add: located_def)
  show ?thesis
    using r Some p c raise_fx.keeps_consistent [OF c] applyFailure_consistent [OF c loc]
    by (auto simp: handleRunTimeout_def inProgress_def split: if_splits)
qed

lemma failLostAttempt_consistent:
  assumes c: "consistent uuid s" and r: "failLostAttempt u td observed detail s = Inr (res, s')"
  shows "consistent uuid s'"
proof (cases "lockRun s (oa_runId observed) None")
  case None
  with r c show ?thesis by (simp add: failLostAttempt_def)
next
  case (Some p)
  obtain run agent where p: "p = (run, agent)" by fastforce
  have loc: "located s run agent" if "in_progress run"
    using lockRun_SomeD [OF Some [unfolded p]] that by (simp add: located_def)
  show ?thesis
    using r Some p c applyFailure_consistent [OF c loc]
    by (auto simp: failLostAttempt_def in_progress_def split: if_splits)
qed

end
