(* ===== verification/Operation_Safety.thy ===== *)
theory Operation_Safety
  imports Run_Safety Operations Ingest
begin

text \<open>
  The operator's use cases and the ingestion of events keep the tables consistent.
\<close>

subsection \<open>Pausing\<close>

definition released_all :: "string set \<Rightarrow> inbox_row \<Rightarrow> inbox_row" where
  "released_all ids i =
    (if ib_status i = IClaimed \<and> ib_runId i \<in> Some ` ids then i\<lparr>ib_status := IPending, ib_runId := None\<rparr> else i)"

lemma released_all_empty [simp]: "released_all {} = (\<lambda>i. i)"
  by (rule ext) (simp add: released_all_def)

lemma released_all_insert: "released_all ids (released_all {x} i) = released_all (insert x ids) i"
  by (auto simp: released_all_def)

lemma gw_inbox_release: "gw_inbox (release_inbox x s) = map (released_all {x}) (gw_inbox s)"
  by (auto simp: release_inbox_def update_where_def released_all_def)

lemma release_fold:
  defines "step \<equiv> \<lambda>u actor reason r s. audit u actor ''run.cancel'' ''run'' (rn_id r) [(''reason'', JStr reason)]
      (release_inbox (rn_id r) s)"
  shows "gw_inbox (fold (step u actor reason) rs s) = map (released_all (rn_id ` set rs)) (gw_inbox s) \<and>
    gw_agents (fold (step u actor reason) rs s) = gw_agents s \<and> gw_runs (fold (step u actor reason) rs s) = gw_runs s \<and>
    gw_ids (fold (step u actor reason) rs s) = gw_ids s \<and>
    gw_approvals (fold (step u actor reason) rs s) = gw_approvals s \<and>
    gw_killSwitch (fold (step u actor reason) rs s) = gw_killSwitch s"
proof (induction rs arbitrary: s)
  case Nil
  show ?case by simp
next
  case (Cons r rs)
  have "gw_inbox (step u actor reason r s) = map (released_all {rn_id r}) (gw_inbox s)"
    "gw_agents (step u actor reason r s) = gw_agents s" "gw_runs (step u actor reason r s) = gw_runs s"
    "gw_ids (step u actor reason r s) = gw_ids s" "gw_approvals (step u actor reason r s) = gw_approvals s"
    "gw_killSwitch (step u actor reason r s) = gw_killSwitch s"
    by (simp_all add: step_def gw_inbox_release) (simp_all add: audit_def release_inbox_def)
  with Cons.IH [of "step u actor reason r s"] show ?case
    by (simp add: released_all_insert)
qed

text \<open>What a pause does to an agent that may be paused: its runs are cancelled, their claims released.\<close>

lemma pause_effect:
  assumes lock: "lockAgent s a = Some agent" and st: "ag_state agent \<notin> {Paused, Disabled, Failed}"
    and d: "distinct (map fst (agent_states s))"
  shows "\<exists>s'. pauseInTransaction u a actor reason s = Inr (cancel_jobs (active_runs s a), s') \<and>
    agent_states s' = set_state a Paused (agent_states s) \<and>
    gw_runs s' = gw_runs (cancel_active u a reason s) \<and>
    gw_inbox s' = map (released_all (rn_id ` set (active_runs s a))) (gw_inbox s) \<and> gw_ids s' = gw_ids s \<and>
    gw_approvals s' = gw_approvals s \<and> gw_killSwitch s' = gw_killSwitch s"
proof -
  have dst: "requireTransition a (ag_state agent) Pause = Inr Paused"
    using st by (cases "ag_state agent") (auto simp: requireTransition_Inr_iff nextAgentState_cases)
  define s2 where "s2 = fold (\<lambda>r s. audit u actor ''run.cancel'' ''run'' (rn_id r) [(''reason'', JStr reason)]
      (release_inbox (rn_id r) s)) (active_runs s a) (cancel_active u a reason s)"
  note s2 = release_fold [of u actor reason "active_runs s a" "cancel_active u a reason s", folded s2_def]
  have ag: "gw_agents s2 = gw_agents s" using s2 by (simp add: cancel_active_def)
  note states = agent_states_setAgentState [OF lock d ag, of u Paused reason]
  show ?thesis
    using lock st dst s2 states
    by (auto simp: pauseInTransaction_def Let_def s2_def [symmetric] agent_states_def)
      (auto simp: cancel_active_def setAgentState_def audit_def)
qed

lemma pause_skips:
  assumes "lockAgent s a = Some agent" and "ag_state agent \<in> {Paused, Disabled, Failed}"
  shows "pauseInTransaction u a actor reason s = Inr ([], s)"
  using assms by (auto simp: pauseInTransaction_def)

lemma pauseInTransaction_consistent:
  assumes c: "consistent uuid s" and r: "pauseInTransaction u a actor reason s = Inr (res, s')"
  shows "consistent uuid s'"
proof -
  obtain agent where lock: "lockAgent s a = Some agent"
    using r by (auto simp: pauseInTransaction_def split: option.splits)
  show ?thesis
  proof (cases "ag_state agent \<in> {Paused, Disabled, Failed}")
    case True
    with pause_skips [OF lock] r c show ?thesis by simp
  next
    case False
    from pause_effect [OF lock False consistentD(1) [OF c]] r
    have e: "agent_states s' = set_state a Paused (agent_states s)"
      "gw_runs s' = gw_runs (cancel_active u a reason s)"
      "gw_inbox s' = map (released_all (rn_id ` set (active_runs s a))) (gw_inbox s)" "gw_ids s' = gw_ids s"
      by (metis Pair_inject sum.inject(2))+
    let ?f = "\<lambda>r. r\<lparr>rn_status := RCancelled, rn_finishedAt := Some (u_now u), rn_errorCode := Some ''cancelled'',
               rn_errorDetail := Some reason\<rparr> :: run_row"
    have runs: "gw_runs s' = update_where (\<lambda>r. rn_agentId r = a \<and> in_progress r) ?f (gw_runs s)"
      using e(2) by (simp add: cancel_active_def)
    show ?thesis
    proof (rule consistent_pause [OF c e(1) _ runs])
      fix i assume "i \<in> set (gw_inbox s')"
      then obtain i0 where i0: "i0 \<in> set (gw_inbox s)" "i = released_all (rn_id ` set (active_runs s a)) i0"
        using e(3) by auto
      show "entry_ok (gw_runs s') i"
      proof (cases "ib_status i0 = IClaimed \<and> ib_runId i0 \<in> Some ` rn_id ` set (active_runs s a)")
        case True
        with i0(2) show ?thesis by (simp add: released_all_def entry_ok_def)
      next
        case False
        then have "i = i0" using i0(2) by (simp only: released_all_def if_False)
        moreover have "entry_ok (gw_runs s') i0"
          unfolding runs
          by (rule entry_ok_update [OF consistentD(7) [OF c i0(1)]]) (use False in \<open>auto simp: active_runs_def\<close>)
        ultimately show ?thesis by simp
      qed
    qed (use e(4) in \<open>simp_all add: busy_def in_progress_def\<close>)
  qed
qed

lemma cancelRun_consistent:
  "consistent uuid s \<Longrightarrow> cancelRun u runId actor s = Inr (res, s') \<Longrightarrow> consistent uuid s'"
  by (auto simp: cancelRun_def split: option.splits if_splits intro: pauseInTransaction_consistent)

subsection \<open>Resuming, redriving, enabling\<close>

lemma idle_agent_has_no_run:
  assumes "consistent uuid s" and "lockAgent s a = Some agent" and "\<not> busy (ag_state agent)"
  shows "\<not> has_active s a"
  using consistentD(6) [OF assms(1), of a] lockAgent_state [OF assms(2)] assms(3) by auto

lemma set_idle_consistent:
  assumes "consistent uuid s" and "lockAgent s a = Some agent" and "\<not> busy (ag_state agent)" and "\<not> busy dst"
  shows "consistent uuid (setAgentState u a (ag_state agent) dst reason s)"
  by (rule consistent_move [OF assms(1) idle_agent_has_no_run [OF assms(1-3)] _ assms(4)])
    (simp_all add: agent_states_setAgentState [OF assms(2) consistentD(1) [OF assms(1)] refl])

lemma resumeAgent_consistent:
  assumes c: "consistent (u_uuid u) s" and inj: "inj (u_uuid u)"
    and r: "resumeAgent u td a actor s = Inr (res, s')"
  shows "consistent (u_uuid u) s'"
proof -
  define waiting where "waiting = list_ex (\<lambda>w. wt_agentId w = a \<and> wt_status w = WActive) (gw_waits s)"
  obtain agent where lock: "lockAgent s a = Some agent" and st: "ag_state agent = Paused"
    using r by (auto simp: resumeAgent_def split: option.splits if_splits)
  have dst: "requireTransition a Paused (if waiting then ResumeWaiting else ResumeIdle) =
      Inr (if waiting then Waiting else Idle)"
    by (simp add: requireTransition_Inr_iff nextAgentState_cases)
  have "consistent (u_uuid u) (setAgentState u a Paused (if waiting then Waiting else Idle) (''resumed by '' @ actor) s)"
    using set_idle_consistent [OF c lock] st by (simp add: busy_def)
  note audit_fx.keeps_consistent [OF this]
  from scheduleAgent_consistent [OF this inj] r show ?thesis
    by (auto simp: resumeAgent_def lock st dst Let_def waiting_def [symmetric] split: sum.splits option.splits)
qed

lemma reopen_inbox_step: "inbox_step s (reopen_inbox runId s)"
  by (auto simp: inbox_step_def reopen_inbox_def set_update_where entry_ok_def)

lemma redriveRun_consistent:
  assumes c: "consistent (u_uuid u) s" and inj: "inj (u_uuid u)"
    and r: "redriveRun u td runId actor s = Inr (res, s')"
  shows "consistent (u_uuid u) s'"
proof -
  have 1: "consistent (u_uuid u) (audit u actor x y z d (reopen_inbox i s))" for x y z d i
    by (rule audit_fx.keeps_consistent [OF inbox_step_consistent [OF reopen_inbox_step c]])
  from scheduleAgent_consistent [OF 1 inj] r show ?thesis
    by (auto simp: redriveRun_def Let_def split: option.splits if_splits sum.splits schedule_result.splits)
qed

interpretation withdraw_fx: core_effect "\<lambda>s. snd (withdrawOpenApprovals u agentId reason pendingOnly s)"
  for u agentId reason pendingOnly
  by unfold_locales (simp_all add: withdrawOpenApprovals_def cancel_pending_def Let_def audit_def)

interpretation cancel_waits_fx: core_effect "\<lambda>s. snd (cancelActiveWaits u agentId s)" for u agentId
  by unfold_locales (simp_all add: cancelActiveWaits_def Let_def)

lemma applyEnabled_consistent:
  assumes c: "consistent uuid s" and lock: "lockAgent s a = Some agent"
    and r: "applyEnabled u a (ag_state agent) enabled actor s = Inr (res, s')"
  shows "consistent uuid s'"
proof -
  define reason where "reason = (if enabled then ''enabled'' else ''disabled'') @ '' by '' @ actor"
  define s2 where "s2 = snd (withdrawOpenApprovals u (Some a) reason False (snd (cancelActiveWaits u a s)))"
  have c2: "consistent uuid s2" unfolding s2_def
    by (intro withdraw_fx.keeps_consistent cancel_waits_fx.keeps_consistent c)
  have l2: "lockAgent s2 a = Some agent" using lock by (simp add: s2_def)
  have off: "\<not> busy (ag_state agent) \<and> \<not> busy dst" if "nextAgentState (ag_state agent) t = Some dst"
    "t \<in> {Disable, Enable, EnableFailed}" for t dst
    using that by (auto simp: nextAgentState_cases busy_def)
  consider "enabled = (ag_state agent \<noteq> Disabled)"
    | dst where "\<not> enabled" "nextAgentState (ag_state agent) Disable = Some dst"
        "s' = setAgentState u a (ag_state agent) dst reason s2"
    | t dst where "t \<in> {Enable, EnableFailed}" "nextAgentState (ag_state agent) t = Some dst"
        "s' = setAgentState u a (ag_state agent) dst reason s"
    using r by (auto simp: applyEnabled_def Let_def reason_def s2_def requireTransition_Inr_iff case_prod_unfold
        split: if_splits option.splits sum.splits)
  then show ?thesis
  proof cases
    case 1
    with r c show ?thesis by (simp add: applyEnabled_def)
  next
    case 2
    with set_idle_consistent [OF c2 l2] off [of Disable dst] show ?thesis by simp
  next
    case 3
    with set_idle_consistent [OF c lock] off [of t dst] show ?thesis by auto
  qed
qed

subsection \<open>The kill switch\<close>

lemma pause_all_consistent:
  "consistent uuid s \<Longrightarrow> pause_all u actor ids jobs s = Inr (res, s') \<Longrightarrow> consistent uuid s'"
proof (induction ids arbitrary: jobs s)
  case (Cons i ids)
  then show ?case by (auto split: sum.splits intro: Cons.IH pauseInTransaction_consistent)
qed simp

lemma kill_start_consistent:
  "consistent uuid s \<Longrightarrow>
    consistent uuid (snd (withdrawOpenApprovals u None reason pendingOnly (audit u actor x y z d (s\<lparr>gw_killSwitch := k\<rparr>))))"
  by (intro withdraw_fx.keeps_consistent audit_fx.keeps_consistent) (erule consistent_same, simp_all)

lemma killAll_consistent:
  assumes "consistent uuid s" and "killAll u actor s = Inr (res, s')"
  shows "consistent uuid s'"
  using assms(2) pause_all_consistent [OF kill_start_consistent [OF assms(1)]]
  by (auto simp: killAll_def Let_def case_prod_unfold)

lemma releaseKillSwitch_consistent: "consistent uuid s \<Longrightarrow> consistent uuid (releaseKillSwitch u actor s)"
  unfolding releaseKillSwitch_def by (intro audit_fx.keeps_consistent) (erule consistent_same, simp_all)

lemma redriveOutbox_consistent:
  assumes c: "consistent uuid s" and r: "redriveOutbox u i actor s = Inr (res, s')"
  shows "consistent uuid s'"
proof -
  have "consistent uuid (s\<lparr>gw_outbox := x\<rparr>)" for x by (rule consistent_same [OF c]) simp_all
  note audit_fx.keeps_consistent [OF job_fx.keeps_consistent [OF this]]
  with r show ?thesis by (auto simp: redriveOutbox_def Let_def split: if_splits)
qed

subsection \<open>Ingestion\<close>

interpretation insert_event_fx: core_effect "insert_event x" for x
  by unfold_locales (simp_all add: insert_event_def)

lemma addToInbox_step: "inbox_step s (addToInbox u r eventId waitId s)"
  by (auto simp: inbox_step_def addToInbox_def entry_ok_def)

lemma applyRoute_step: "inbox_step s (snd (applyRoute u r eventId e agents s))"
proof -
  have res: "inbox_step s s1" if "resolveWait u w i b s = (x, s1)" for w i b x s1
    using resolve_fx.is_inbox_step [of s u w i b] that by simp
  show ?thesis
    by (auto simp: applyRoute_def Let_def addToInbox_step split: option.split prod.split
        intro: res inbox_step_trans [OF res addToInbox_step])
qed

lemma insert_route_step: "insert_route r s = Inr s' \<Longrightarrow> inbox_step s s'"
  by (auto simp: insert_route_def inbox_step_def split: if_splits)

lemma blocked_alert_step: "inbox_step s (blocked_alert u eventId e r s)"
  unfolding blocked_alert_def by (rule loop_alert_fx.is_inbox_step)

lemma apply_routes_step:
  "apply_routes u eventId e agents anchor rs s = Inr (finals, s') \<Longrightarrow> inbox_step s s'"
proof (induction rs arbitrary: s finals)
  case (Cons r rs)
  obtain final s1 where a: "applyRoute u r eventId e agents s = (final, s1)" by fastforce
  then have 1: "inbox_step s s1" using applyRoute_step [of s u r eventId e agents] by simp
  obtain s2 where i: "insert_route (route_row_for u eventId anchor final) s1 = Inr s2"
    using Cons.prems a by (auto split: sum.splits)
  define s3 where "s3 = (if rt_decision final = RBlocked then blocked_alert u eventId e final s2 else s2)"
  have 3: "inbox_step s s3"
    unfolding s3_def
    using inbox_step_trans [OF 1 insert_route_step [OF i]] inbox_step_trans [OF _ blocked_alert_step] by simp
  obtain finals' where "apply_routes u eventId e agents anchor rs s3 = Inr (finals', s')"
    using Cons.prems a i by (auto simp: s3_def split: sum.splits)
  from inbox_step_trans [OF 3 Cons.IH [OF this]] show ?case .
qed simp

lemma schedule_each_consistent:
  assumes "inj (u_uuid u)"
  shows "consistent (u_uuid u) s \<Longrightarrow> schedule_each u td ids s = Inr s' \<Longrightarrow> consistent (u_uuid u) s'"
proof (induction ids arbitrary: s)
  case (Cons i ids)
  from Cons.prems show ?case
    by (auto split: sum.splits intro: Cons.IH scheduleAgent_consistent [OF _ assms])
qed simp

lemma ingestInTransaction_consistent:
  assumes c: "consistent (u_uuid u) s" and inj: "inj (u_uuid u)"
    and r: "ingestInTransaction u td e s = Inr (res, s')"
  shows "consistent (u_uuid u) s'"
proof (cases "list_ex (stored_event e) (gw_events s)")
  case True
  with r c audit_fx.keeps_consistent [OF c] show ?thesis
    by (auto simp: ingestInTransaction_def duplicate_def split: option.splits if_splits)
next
  case False
  have c1: "consistent (u_uuid u) (insert_event (event_row_for u e s) s)"
    by (rule insert_event_fx.keeps_consistent [OF c])
  show ?thesis
    using r False c1 schedule_each_consistent [OF inj inbox_step_consistent [OF apply_routes_step c1]]
    by (auto simp: ingestInTransaction_def Let_def split: option.splits sum.splits)
qed

lemma ingestEvent_consistent:
  assumes "consistent (u_uuid u) s" and "inj (u_uuid u)" and "ingestEvent u td e s = Inr (res, s')"
  shows "consistent (u_uuid u) s'"
  using assms(3) ingestInTransaction_consistent [OF assms(1,2)]
  by (auto simp: ingestEvent_def split: sum.splits)

lemma routeGrantedMention_consistent:
  assumes c: "consistent (u_uuid u) s" and inj: "inj (u_uuid u)"
    and r: "routeGrantedMention u td source a channelId postId s = Inr (res, s')"
  shows "consistent (u_uuid u) s'"
  using r c inbox_step_consistent [OF apply_routes_step c]
    scheduleAgent_consistent [OF inbox_step_consistent [OF apply_routes_step c] inj]
  by (auto simp: routeGrantedMention_def Let_def simp del: apply_routes.simps split: option.splits prod.splits sum.splits list.splits if_splits)

lemma sweep_loop_consistent:
  assumes "\<And>i. u_uuid (us i) = uuid" and "inj uuid"
  shows "consistent uuid s \<Longrightarrow> consistent uuid (snd (sweep_loop us td ids n s))"
proof (induction ids arbitrary: n s)
  case (Cons i ids)
  have "consistent uuid s1" if "scheduleAgent (us i) td i None s = Inr (x, s1)" for x s1
    using scheduleAgent_consistent [of "us i", unfolded assms(1), OF Cons.prems assms(2) that] .
  with Cons show ?case
    by (auto simp: withTransaction_def split: sum.splits prod.splits schedule_result.splits)
qed simp

end
