(* ===== verification/Example_World.thy ===== *)
theory Example_World
  imports Operations Ingest
begin

text \<open>
  A small concrete gateway on which the properties of the control plane are exercised: two agents, one
  channel, an owner; once idle, and once with a run of the first agent in progress. The parameters of the
  model are instantiated by simple functions: ids are numbered, hashes are the identity, the turn of an
  agent carries its events.
\<close>

definition example_uow :: "millis \<Rightarrow> uow" where
  "example_uow t =
    \<lparr>u_now = t, u_uuid = (\<lambda>n. CHR ''r'' # replicate n (CHR ''1'')), u_nonce = ''nonce'', u_random = 0,
     u_redact = (\<lambda>x. x), u_uuid_ok = (\<lambda>_. True), u_sha256Hex = (\<lambda>x. x), u_digest = (\<lambda>_. replicate 32 0),
     u_normalizeMessage = (\<lambda>x. x), u_budget_text = (\<lambda>_. ''spent'')\<rparr>"

lemma example_uow_inj: "inj (u_uuid (example_uow t))"
  by (rule injI) (simp add: example_uow_def)

definition example_agent :: "string \<Rightarrow> agent_state \<Rightarrow> agent_row" where
  "example_agent i st =
    \<lparr>ag_id = i, ag_state = st, ag_enabled = True, ag_configVersion = ''v1'',
     ag_config = \<lparr>cfg_adapter = Mock, cfg_model = None, cfg_timeout_seconds = 600,
       cfg_session_policy = StatelessSession, cfg_while_running = EnqueueAndCoalesce,
       cfg_private_namespace = ''agents/'' @ i, cfg_shared_namespaces = [], cfg_allowed_channels = [''town''],
       cfg_wake_rules = []\<rparr>,
     ag_stateChangedAt = 0\<rparr>"

definition example_config :: active_config where
  "example_config =
    \<lparr>ac_version = ''v1'', ac_team = ''team'', ac_alerts_channel = ''town'', ac_approvals_channel = ''town'',
     ac_owner_usernames = [''owner''], ac_finance_agent_id = ''finance'',
     ac_limits = \<lparr>max_agent_hops = 8, max_turns_per_cascade = 20, max_runs_per_agent_per_hour = 30,
                  default_run_timeout_seconds = 600\<rparr>,
     ac_budgets = None\<rparr>"

definition example_fresh :: gateway where
  "example_fresh =
    \<lparr>gw_agents = [example_agent ''ceo'' Idle, example_agent ''developer'' Idle],
     gw_runs = [], gw_inbox = [], gw_waits = [], gw_events = [], gw_routes = [], gw_usage = [],
     gw_snapshots = [], gw_sessions = [], gw_memory = [], gw_artifacts = [], gw_decisions = [],
     gw_approvals = [], gw_toolActions = [], gw_replies = [], gw_summaries = [], gw_outbox = [], gw_jobs = [], gw_audit = [],
     gw_config = Some example_config, gw_killSwitch = False,
     gw_directory = [\<lparr>dy_kind = DTeam, dy_name = ''team'', dy_mattermostId = ''t1''\<rparr>,
       \<lparr>dy_kind = DChannel, dy_name = ''town'', dy_mattermostId = ''c0000000000000000000000001''\<rparr>,
       \<lparr>dy_kind = DUser, dy_name = ''owner'', dy_mattermostId = ''u0000000000000000000000001''\<rparr>],
     gw_identities = [], gw_grants = [], gw_lifecycle = [], gw_availability = [], gw_ids = 0, gw_seq = 0\<rparr>"

definition example_turn :: turn_deps where
  "example_turn =
    \<lparr>td_build = (\<lambda>s agent rows waits runId. case rows of
         [] \<Rightarrow> Inl ''no events''
       | e # es \<Rightarrow> Inr (\<lparr>ti_trigger = er_event e, ti_pendingInbox = map er_event es, ti_channels = [],
             ti_deadline = 600000, ti_rest = JNull\<rparr>, example_context\<lparr>tc_runId := runId\<rparr>, None)),
     td_inputBytes = (\<lambda>_. 100)\<rparr>"

definition example_completion :: completion_deps where
  "example_completion =
    \<lparr>cp_parse = (\<lambda>raw. case raw of JStr _ \<Rightarrow> Inr example_result | _ \<Rightarrow> Inl [''not a result'']),
     cp_parseUsage = (\<lambda>_. None), cp_prepareCustomDraft = (\<lambda>s a d. Inr d), cp_customPreview = (\<lambda>s d. Inr None),
     cp_fitApprovalCard = (\<lambda>_ _. True), cp_cardIssues = (\<lambda>_. []), cp_truncate = (\<lambda>t n. take n t)\<rparr>"

text \<open>The first agent at work on a mention.\<close>

definition example_run :: run_row where
  "example_run =
    \<lparr>rn_id = ''r1'', rn_agentId = ''ceo'', rn_triggerEventId = ''r'', rn_idempotencyKey = ''agent-run:ceo:r:0'',
     rn_status = RRunning, rn_attempt = 1, rn_maxAttempts = 3, rn_runtimeAdapter = Mock, rn_runtimeVersion = Some ''1'',
     rn_model = None, rn_correlationId = ''thread:x'', rn_hop = 0, rn_queuedAt = 1000, rn_startedAt = Some 1000,
     rn_finishedAt = None, rn_timeoutAt = 601000, rn_timeoutSeconds = 600, rn_outcome = None, rn_errorCode = None,
     rn_errorDetail = None, rn_usage = None, rn_publicSummary = None, rn_result = None, rn_parentRunId = None,
     rn_jobId = Some ''job''\<rparr>"

definition example_busy :: gateway where
  "example_busy = example_fresh
    \<lparr>gw_agents := [example_agent ''ceo'' Running, example_agent ''developer'' Idle],
     gw_runs := [example_run],
     gw_inbox := [\<lparr>ib_id = ''i1'', ib_agentId = ''ceo'', ib_eventId = ''r'', ib_status = IClaimed, ib_priority = 5,
       ib_runId = Some ''r1'', ib_waitId = None, ib_createdAt = 1000\<rparr>],
     gw_snapshots := [\<lparr>sn_runId = ''r1'', sn_agentId = ''ceo'', sn_configVersion = ''v1'', sn_threadRef = None,
       sn_input = \<lparr>ti_trigger = example_mention, ti_pendingInbox = [], ti_channels = [], ti_deadline = 601000,
         ti_rest = JNull\<rparr>,
       sn_authority = example_context, sn_sizeBytes = 100\<rparr>],
     gw_ids := 2\<rparr>"

definition example_report :: "report_body \<Rightarrow> run_report" where
  "example_report body =
    \<lparr>rp_runId = ''r1'', rp_attempt = 1, rp_agentId = ''ceo'', rp_runtimeVersion = ''1'', rp_body = body\<rparr>"

end
