(* ===== verification/Publication.thy ===== *)
theory Publication
  imports Operation_Safety Example_World
begin

text \<open>
  What agents say. Every step of the control plane but one leaves the agents' posts in the outbox and the
  event log as they are (\<open>silent\<close>): only an accepted result publishes, and only what the authority of its
  turn and the scope of its run allow. None of these steps decides an approval either (\<open>undecided\<close>).
\<close>

subsection \<open>Silent steps\<close>

text \<open>A step that decides nothing: approvals only gain open requests under new ids, the tool actions and
  the answered replies stay, and the outbox only gains undelivered items.\<close>

definition fresh_request :: "approval_row \<Rightarrow> bool" where
  "fresh_request a \<longleftrightarrow> aq_status a = APending \<and> aq_decidedByUserId a = None \<and> aq_decidedAt a = None \<and>
    aq_decisionPostId a = None \<and> aq_resolvedAt a = None"

definition new_requests :: "approval_row list \<Rightarrow> approval_row list \<Rightarrow> bool" where
  "new_requests xs ys \<longleftrightarrow>
    (\<exists>new. ys = xs @ new \<and> (\<forall>a \<in> set new. fresh_request a) \<and>
      (distinct (map aq_id xs) \<longrightarrow> distinct (map aq_id ys)))"

definition undecided :: "gateway \<Rightarrow> gateway \<Rightarrow> bool" where
  "undecided s s' \<longleftrightarrow> new_requests (gw_approvals s) (gw_approvals s') \<and> gw_toolActions s' = gw_toolActions s \<and>
    gw_replies s' = gw_replies s \<and> outbox_grows s s'"

lemma new_requests_refl [simp]: "new_requests xs xs"
  by (simp add: new_requests_def)

lemma new_requests_trans: "new_requests xs ys \<Longrightarrow> new_requests ys zs \<Longrightarrow> new_requests xs zs"
  by (fastforce simp: new_requests_def)

lemma undecided_same: "decision_log s' = decision_log s \<Longrightarrow> outbox_grows s s' \<Longrightarrow> undecided s s'"
  by (simp add: undecided_def decision_log_def)

lemma undecided_trans [trans]: "undecided s t \<Longrightarrow> undecided t v \<Longrightarrow> undecided s v"
  unfolding undecided_def by (metis new_requests_trans outbox_grows_trans)

definition silent :: "gateway \<Rightarrow> gateway \<Rightarrow> bool" where
  "silent s s' \<longleftrightarrow> agent_posts s' = agent_posts s \<and> gw_events s' = gw_events s \<and> undecided s s'"

lemma silent_refl [simp]: "silent s s"
  by (simp add: silent_def undecided_same outbox_grows_same)

lemma silent_trans [trans]: "silent s t \<Longrightarrow> silent t v \<Longrightarrow> silent s v"
  unfolding silent_def by (metis undecided_trans)

lemma silent_undecided: "silent s s' \<Longrightarrow> undecided s s'"
  by (simp add: silent_def)

lemma silentI:
  "gw_outbox s' = gw_outbox s \<Longrightarrow> gw_events s' = gw_events s \<Longrightarrow> decision_log s' = decision_log s \<Longrightarrow> silent s s'"
  by (simp add: silent_def agent_posts_def undecided_same outbox_grows_same)

context quiet_effect
begin

lemma is_silent [simp]: "silent s (f s)"
  by (simp add: silent_def undecided_same)

end

lemma setAgentState_silent [simp]: "silent s (setAgentState u a x y r s)"
  by (rule silentI) simp_all

lemma update_run_silent [simp]: "silent s (update_run i f s)"
  by (rule silentI) (simp_all add: update_run_def)

lemma release_inbox_silent [simp]: "silent s (release_inbox i s)"
  by (rule silentI) (simp_all add: release_inbox_def)

lemma enqueueAttempt_silent [simp]: "silent s (enqueueAttempt u init s)"
  by (rule silentI) simp_all

lemma insert_route_quiet_silent [simp]: "silent s (insert_route_quiet r s)"
  by (rule silentI) (simp_all add: insert_route_quiet_def)

lemma resolveWait_silent [simp]: "silent s (snd (resolveWait u w e t s))"
  by (rule silentI) (simp_all add: resolveWait_def Let_def split: option.split)

lemma resume_entry_silent [simp]: "silent s (resume_entry u a e w s)"
  by (rule silentI) (simp_all add: resume_entry_def Let_def)

lemma late_silent [simp]: "silent s (snd (lateMatchAllowed u agentId e position wait s))"
  by (auto simp: lateMatchAllowed_def Let_def intro: silent_trans [OF insert_route_quiet_silent loop_alert_fx.is_silent]
      split: option.split list.split)

lemma hold_silent [simp]: "silent s (snd (budgetHoldFor u agentId s))"
  by (auto simp: budgetHoldFor_def Let_def split: option.split prod.split)

lemma retireInbox_silent [simp]: "silent s (snd (retireInbox agentId allowed floors s))"
  by (rule silentI) (simp_all add: retireInbox_def)

lemma missed_loop_silent [simp]: "silent s (snd (missed_loop u agentId waits routed seen hidden rows s))"
proof (induction rows arbitrary: s)
  case (Cons row rows)
  have late: "silent s s1" if "lateMatchAllowed u agentId (er_event row) row w s = (b, s1)" for w b s1
    using late_silent [of s u agentId "er_event row" row w] that by simp
  have res: "silent s1 s2" if "resolveWait u w e False s1 = (b, s2)" for w e b s1 s2
    using resolveWait_silent [of s1 u w e False] that by simp
  show ?case
    by (auto simp: Let_def split: option.split prod.split
        intro: Cons.IH silent_trans [OF _ Cons.IH] silent_trans [OF _ resume_entry_silent]
          silent_trans [OF late] res silent_trans [OF res])
qed simp

lemma refresh_inbox_silent [simp]: "silent s (refresh_inbox u agent access s)"
proof -
  obtain dropped s1 where r: "retireInbox (ag_id agent) (agentChannelIds (agent_channels_of agent) access)
      (agentChannelFloors (agent_channels_of agent) access) s = (dropped, s1)" by fastforce
  have "silent s s1" using retireInbox_silent r by (metis snd_conv)
  then show ?thesis
    unfolding refresh_inbox_def Let_def r
    by (auto simp: matchMissedAnswers_def Let_def
        intro: silent_trans [OF _ missed_loop_silent] silent_trans [OF _ audit_fx.is_silent])
qed

lemma start_run_silent:
  assumes "start_run u td agent rd t claimed trigger input authority ref runId s = Inr (res, s')"
  shows "silent s s'"
proof (rule silentI)
  obtain s1 where i: "insert_run (new_run u agent rd trigger input runId s) (s\<lparr>gw_ids := Suc (gw_ids s)\<rparr>) = Inr s1"
    using assms by (auto simp: start_run_def split: sum.splits)
  show "gw_outbox s' = gw_outbox s" "gw_events s' = gw_events s" "decision_log s' = decision_log s"
    using assms insert_run_Inr [OF i] i
    by (auto simp: start_run_def Let_def claim_inbox_def audit_def split: sum.splits)
qed

lemma build_and_start_silent:
  "build_and_start u td agent rd t claimed trigger s = Inr (res, s') \<Longrightarrow> silent s s'"
  by (auto simp: build_and_start_def context_unavailable_def Let_def dest: start_run_silent split: if_splits sum.splits)

lemma schedule_ready_silent:
  assumes r: "schedule_ready u td agent rd s = Inr (res, s')"
  shows "silent s s'"
proof -
  let ?s1 = "refresh_inbox u agent (loadChannelAccess s) s"
  obtain h s2 where h: "budgetHoldFor u (ag_id agent) ?s1 = (h, s2)" by fastforce
  have "silent ?s1 s2" using hold_silent [of ?s1 u "ag_id agent"] h by simp
  then have 2: "silent s s2" using silent_trans [OF refresh_inbox_silent] by blast
  from r silent_trans [OF 2 build_and_start_silent] 2 show ?thesis
    by (auto simp: schedule_ready_def Let_def h split: option.splits if_splits list.splits)
qed

lemma scheduleAgent_silent: "scheduleAgent u td a rd s = Inr (res, s') \<Longrightarrow> silent s s'"
  by (auto simp: scheduleAgent_def dest: schedule_ready_silent split: option.splits if_splits)

subsection \<open>Failures publish nothing\<close>

lemma fail_run_silent: "fail_run u run agent error v usage s = Inr (res, s') \<Longrightarrow> silent s s'"
  by (auto simp: fail_run_def Let_def split: sum.splits
      intro!: silent_trans [OF _ audit_fx.is_silent] silent_trans [OF _ raise_fx.is_silent]
        silent_trans [OF _ setAgentState_silent])

lemma defer_silent: "deferForBudget u run agent error reason v usage s = Inr (res, s') \<Longrightarrow> silent s s'"
  by (auto simp: deferForBudget_def Let_def split: sum.splits
      intro!: silent_trans [OF _ audit_fx.is_silent] silent_trans [OF _ setAgentState_silent]
        silent_trans [OF _ release_inbox_silent])

lemma retry_silent: "retry_attempt u run agent error bytes v usage s = Inr (res, s') \<Longrightarrow> silent s s'"
  by (rule silentI)
    (auto simp: retry_attempt_def Let_def audit_def update_run_def split: sum.splits option.splits)

lemma applyFailure_silent:
  assumes "applyFailure u td run agent error v usage s = Inr (res, s')"
  shows "silent s s'"
proof -
  obtain h s1 where h: "budgetHoldFor u (ag_id agent) s = (h, s1)" by fastforce
  have "silent s s1" using hold_silent [of s u "ag_id agent"] h by simp
  with assms show ?thesis
    by (auto simp: applyFailure_def h split: if_splits option.splits
        dest: fail_run_silent silent_trans [OF _ defer_silent] silent_trans [OF _ retry_silent])
qed

lemma refuse_approval_silent:
  "refuse_approval u td run agent what t detail v usage s = Inr (res, s') \<Longrightarrow> silent s s'"
  unfolding refuse_approval_def by (rule silent_trans [OF raise_fx.is_silent applyFailure_silent])

lemma fold_decisions_silent: "silent s (fold (\<lambda>x. record_decision u (r x) (a x) (t x) (d x) (m x)) xs s)"
proof (induction xs arbitrary: s)
  case (Cons x xs)
  from silent_trans [OF decision_fx.is_silent Cons] show ?case by simp
qed simp

lemma deny_result_silent:
  "deny_result u td run agent issues v usage s = Inr (res, s') \<Longrightarrow> silent s s'"
  unfolding deny_result_def Let_def
  by (rule silent_trans [OF fold_decisions_silent silent_trans [OF raise_fx.is_silent applyFailure_silent]])

lemma policy_silent: "silent s (snd (approvalPolicyIssues u run agentId authority draft s))"
  unfolding approvalPolicyIssues_def Let_def snd_conv case_prod_unfold by (rule fold_decisions_silent)

lemma prepare_approval_silent:
  "prepare_approval u td cp run agent authority requested v usage s = Inl (Inr (res, s')) \<Longrightarrow> silent s s'"
  "prepare_approval u td cp run agent authority requested v usage s = Inr (p, s') \<Longrightarrow> silent s s'"
proof -
  have step: "silent s q \<and> silent s (q\<lparr>gw_ids := n\<rparr>)"
    if "approvalPolicyIssues u run (ag_id agent) authority draft s = (x, q)" for draft x q n
  proof -
    have "silent s q" using policy_silent [of s u run "ag_id agent" authority draft] that by simp
    moreover have "silent q (q\<lparr>gw_ids := n\<rparr>)" by (rule silentI) simp_all
    ultimately show ?thesis using silent_trans by blast
  qed
  show "silent s s'" if "prepare_approval u td cp run agent authority requested v usage s = Inl (Inr (res, s'))"
    using that
    by (auto simp: prepare_approval_def Let_def split: sum.splits if_splits prod.splits
        dest: refuse_approval_silent applyFailure_silent
        intro: silent_trans [OF step [THEN conjunct1] refuse_approval_silent]
          silent_trans [OF step [THEN conjunct2] refuse_approval_silent]
          silent_trans [OF step [THEN conjunct2] applyFailure_silent])
  show "silent s s'" if "prepare_approval u td cp run agent authority requested v usage s = Inr (p, s')"
    using that step [THEN conjunct2]
    by (auto simp: prepare_approval_def Let_def split: sum.splits if_splits prod.splits)
qed

subsection \<open>What an accepted result publishes\<close>

lemma persistMessages_posts:
  "\<exists>ps. agent_posts (persistMessages u run agent ids scope n ms s) = agent_posts s @ ps \<and>
    set ps \<subseteq> postPayload run agent ids scope ` set ms"
proof (induction ms arbitrary: n s)
  case (Cons m ms)
  let ?s = "enqueueOutbox u (''channel/'' @ pm_channelId m) (MattermostPost (postPayload run agent ids scope m))
      (''mattermost-post:'' @ rn_id run @ '':'' @ show_nat n) (Some (rn_id run)) s"
  obtain ps where ps: "agent_posts (persistMessages u run agent ids scope (Suc n) ms ?s) = agent_posts ?s @ ps"
    "set ps \<subseteq> postPayload run agent ids scope ` set ms" using Cons.IH by blast
  obtain qs where "agent_posts ?s = agent_posts s @ qs" "set qs \<subseteq> {postPayload run agent ids scope m}"
    by (simp add: agent_posts_enqueueOutbox)
  with ps show ?case by (intro exI [of _ "qs @ ps"]) auto
qed simp

lemma persistMessages_events [simp]: "gw_events (persistMessages u run agent ids scope n ms s) = gw_events s"
  by (induction ms arbitrary: n s) simp_all

lemma persistArtifacts_silent: "silent s (snd (persistArtifacts u run as ids s))"
proof (rule silentI)
  show "gw_outbox (snd (persistArtifacts u run as ids s)) = gw_outbox s"
    "gw_events (snd (persistArtifacts u run as ids s)) = gw_events s"
    "decision_log (snd (persistArtifacts u run as ids s)) = decision_log s"
    by (induction as arbitrary: ids s) simp_all
qed

lemma persistMemory_silent: "silent s (persistMemory u run agent ps s)"
proof (rule silentI)
  have "gw_outbox (persistProposal u run agent p t) = gw_outbox t"
    "gw_events (persistProposal u run agent p t) = gw_events t"
    "decision_log (persistProposal u run agent p t) = decision_log t" for p t
    by (simp_all add: persistProposal_def supersedeMemory_def Let_def)
  then have "gw_outbox (fold (persistProposal u run agent) ps s) = gw_outbox s \<and>
      gw_events (fold (persistProposal u run agent) ps s) = gw_events s \<and>
      decision_log (fold (persistProposal u run agent) ps s) = decision_log s"
    by (induction ps arbitrary: s) simp_all
  then show "gw_outbox (persistMemory u run agent ps s) = gw_outbox s"
    "gw_events (persistMemory u run agent ps s) = gw_events s"
    "decision_log (persistMemory u run agent ps s) = decision_log s" by (simp_all add: persistMemory_def)
qed

lemma persistSession_silent: "silent s (persistSession u agentId session scope queuedAt s)"
  by (rule silentI) (simp_all add: persistSession_def Let_def split: option.split)

lemma summarise_silent: "silent s (summarise_thread u cp run agent snapshot summary s)"
  by (rule silentI) (simp_all add: summarise_thread_def recordThreadSummary_def Let_def split: option.split)

lemma publish_result_posts:
  "\<exists>ps ids. agent_posts (publish_result u cp run agent snapshot result scope s) = agent_posts s @ ps \<and>
    set ps \<subseteq> postPayload run agent ids scope ` set (tr_publicMessages result)"
proof -
  let ?a = "persistArtifacts u run (tr_artifacts result) [] s"
  let ?s1 = "snd ?a"
  let ?s2 = "persistMessages u run agent (fst ?a) scope 0 (tr_publicMessages result) ?s1"
  have "silent ?s2 (publish_result u cp run agent snapshot result scope s)"
    unfolding publish_result_steps
    by (rule silent_trans [OF persistMemory_silent silent_trans [OF persistSession_silent summarise_silent]])
  then have "agent_posts (publish_result u cp run agent snapshot result scope s) = agent_posts ?s2"
    by (simp add: silent_def)
  moreover have "agent_posts ?s1 = agent_posts s"
    using persistArtifacts_silent [of s u run "tr_artifacts result" "[]"] by (simp add: silent_def)
  ultimately show ?thesis
    using persistMessages_posts [of u run agent "fst ?a" scope 0 "tr_publicMessages result" ?s1] by metis
qed

lemma insertWait_silent: "silent s (insertWait u run agentId condition timeoutAt roots s)"
  by (rule silentI) (simp_all add: insertWait_def send_job_def Let_def)

lemma createWaits_silent: "silent s (createWaits u run agentId waits scope s)"
  unfolding createWaits_def
proof (induction waits arbitrary: s)
  case (Cons w ws)
  show ?case unfolding fold_Cons comp_apply Let_def by (rule silent_trans [OF insertWait_silent Cons [unfolded Let_def]])
qed simp

lemma createApproval_silent:
  "createApproval u td cp run agent p v usage s = Inr s' \<Longrightarrow> silent s s'"
  "createApproval u td cp run agent p v usage s = Inl (Inr (res, s')) \<Longrightarrow> silent s s'"
proof -
  have card: "silent s (enqueueOutbox u d (MattermostApproval c) k r (s\<lparr>gw_approvals := gw_approvals s @ [a]\<rparr>))"
    if "\<not> list_ex (\<lambda>x. aq_id x = aq_id a \<or> aq_runId x = aq_runId a) (gw_approvals s)"
      "fresh_request a" for d c k r a
  proof -
    let ?s = "s\<lparr>gw_approvals := gw_approvals s @ [a]\<rparr>"
    have "new_requests (gw_approvals s) (gw_approvals ?s)"
      using that by (auto simp: new_requests_def list_ex_iff)
    then have "undecided s ?s" by (simp add: undecided_def outbox_grows_same)
    also have "undecided ?s (enqueueOutbox u d (MattermostApproval c) k r ?s)" by (simp add: undecided_same)
    finally show ?thesis by (simp add: silent_def agent_posts_enqueueOutbox) (simp add: agent_posts_def)
  qed
  show "silent s s'" if "createApproval u td cp run agent p v usage s = Inr s'"
    using that
    by (auto simp: createApproval_def Let_def fresh_request_def split: option.splits if_splits
        intro!: silent_trans [OF _ audit_fx.is_silent] silent_trans [OF card insertWait_silent])
  show "silent s s'" if "createApproval u td cp run agent p v usage s = Inl (Inr (res, s'))"
    using that by (auto simp: createApproval_def Let_def split: option.splits if_splits dest: refuse_approval_silent)
qed

lemma move_agent_silent: "move_agent u agent t reason s = Inr s' \<Longrightarrow> silent s s'"
  by (auto simp: move_agent_def split: sum.splits)

lemma move_agent_Inl: "move_agent u agent t reason s \<noteq> Inl (Inr x)"
  by (auto simp: move_agent_def split: sum.splits)

lemma apply_next_state_silent:
  "apply_next_state u td cp run agent result scope prepared v s = Inr s' \<Longrightarrow> silent s s'"
  "apply_next_state u td cp run agent result scope prepared v s = Inl (Inr (res, s')) \<Longrightarrow> silent s s'"
  by (auto simp: apply_next_state_def Let_def move_agent_Inl split: next_state.splits sum.splits
      dest: move_agent_silent silent_trans [OF createWaits_silent move_agent_silent] createApproval_silent(2)
        silent_trans [OF createApproval_silent(1) move_agent_silent]
        silent_trans [OF move_agent_silent raise_fx.is_silent])

lemma finish_run_silent: "silent s (finish_run u run result v s)"
  by (rule silentI) (simp_all add: finish_run_def Let_def audit_def update_run_def)

lemma accept_result_posts:
  assumes "accept_result u td cp run agent snapshot result scope prepared v s = Inr (res, s')"
  shows "\<exists>ps ids. agent_posts s' = agent_posts s @ ps \<and>
    set ps \<subseteq> postPayload run agent ids scope ` set (tr_publicMessages result)"
proof -
  let ?p = "publish_result u cp run agent snapshot result scope s"
  have "silent ?p s'"
  proof (cases "apply_next_state u td cp run agent result scope prepared v ?p")
    case (Inl x)
    with assms apply_next_state_silent(2) show ?thesis by (auto simp: accept_result_def)
  next
    case (Inr s1)
    with assms obtain x where "scheduleAgent u td (ag_id agent) None (finish_run u run result v s1) = Inr (x, s')"
      by (auto simp: accept_result_def split: sum.splits)
    from silent_trans [OF apply_next_state_silent(1) [OF Inr] silent_trans [OF finish_run_silent scheduleAgent_silent [OF this]]]
    show ?thesis .
  qed
  then have "agent_posts s' = agent_posts ?p" by (simp add: silent_def)
  with publish_result_posts [of u cp run agent snapshot result scope s] show ?thesis by metis
qed

subsection \<open>Properties\<close>

text \<open>A post the run may make: in its agent's name, in an allowed channel, to members of that channel, in
  a thread of the run if it is a reply, and one hop further than what it answers.\<close>

definition post_permitted :: "turn_authority_context \<Rightarrow> run_scope \<Rightarrow> run_row \<Rightarrow> post_payload \<Rightarrow> bool" where
  "post_permitted authority scope run p \<longleftrightarrow>
    pp_agentId p = rn_agentId run \<and> pp_runId p = rn_id run \<and> mayPost authority \<and>
    pp_channelId p \<in> set (tc_allowedChannelIds authority) \<and>
    (\<forall>target \<in> set (pp_targetAgentIds p). addressable authority target (\<lambda>cs. pp_channelId p \<in> set cs)) \<and>
    (\<forall>rt. pp_rootPostId p = Some rt \<longrightarrow>
      (\<exists>t. map_of (rs_threadRoots scope) rt = Some t \<and> tsc_channelId t = pp_channelId p)) \<and>
    rn_hop run < pp_hop p"

lemma forEach_issues_each: "forEach_issues n f xs = [] \<Longrightarrow> x \<in> set xs \<Longrightarrow> \<exists>i. f i x = []"
  by (induction n f xs rule: forEach_issues.induct) auto

lemma accepted_post_permitted:
  assumes auth: "checkTurnResultAuthority result authority = []" and scope: "checkRunScope result scope = []"
    and m: "m \<in> set (tr_publicMessages result)" and a: "ag_id agent = rn_agentId run"
  shows "post_permitted authority scope run (postPayload run agent ids scope m)"
proof -
  have ok: "message_authorised authority result m"
    using auth m by (simp add: checkTurnResultAuthority_iff turn_authorised_def)
  obtain i where "replyIssues scope i m = []"
    using scope m forEach_issues_each [of 0 "replyIssues scope"] by (auto simp: checkRunScope_def)
  then have "\<exists>t. map_of (rs_threadRoots scope) rt = Some t \<and> tsc_channelId t = pm_channelId m"
    if "pm_rootPostId m = Some rt" for rt
    using that by (auto simp: replyIssues_def split: option.splits if_splits)
  with ok a show ?thesis by (auto simp: post_permitted_def postPayload_def message_authorised_def)
qed

lemma bookUsage_reads [simp]:
  "completionScope (bookUsage u cp report run agent s) x = completionScope s x"
  "silent s (bookUsage u cp report run agent s)"
proof -
  have "threadCorrelationOf (bookUsage u cp report run agent s) = threadCorrelationOf s"
    by (rule ext) (simp add: threadCorrelationOf_def)
  then show "completionScope (bookUsage u cp report run agent s) x = completionScope s x"
    unfolding completionScope_def by (simp split: option.split add: Let_def)
qed (simp add: silentI)


text \<open>The first agent's run completes and says what it was authorised to say.\<close>

definition example_completed :: "report_outcome uow_result" where
  "example_completed = handleRunReport (example_uow 2000) example_turn example_completion
    (example_report (ReportCompleted (JStr ''done''))) Mock example_busy"

lemma example_completed_posts:
  "case example_completed of Inl _ \<Rightarrow> False | Inr (r, s') \<Rightarrow> r = RepCompleted \<and> map pp_channelId (agent_posts s') = [''town'']"
  unfolding example_completed_def by code_simp


subsection \<open>Completions\<close>

text \<open>The five ways a completion ends.\<close>

lemma applyCompletion_cases:
  obtains (invalid) what detail where "applyCompletion u td cp run agent raw v s =
      applyFailure u td run agent \<lparr>re_code = EInvalidOutput, re_retryable = False, re_detail = detail\<rparr> v None
        (raiseAlert u (''invalid-output:'' @ rn_id run) what [] s)"
  | (no_snapshot) "applyCompletion u td cp run agent raw v s = Inl (NoSnapshot (rn_id run))"
      "find_snapshot s (rn_id run) = None"
  | (denied) issues usage where "applyCompletion u td cp run agent raw v s = deny_result u td run agent issues v usage s"
  | (refused) authority requested usage where
      "prepare_approval u td cp run agent authority requested v usage s = Inl (applyCompletion u td cp run agent raw v s)"
  | (accepted) snapshot result prepared t where
      "applyCompletion u td cp run agent raw v s =
        accept_result u td cp run agent snapshot result (completionScope s snapshot) prepared v t"
      "t = s \<or> (\<exists>authority requested usage p. prepare_approval u td cp run agent authority requested v usage s = Inr (p, t))"
proof (cases "cp_parse cp raw")
  case (Inl problems)
  then show ?thesis by (intro invalid) (simp add: applyCompletion_def)
next
  case (Inr result)
  show ?thesis
  proof (cases "find_snapshot s (rn_id run)")
    case None
    with Inr show ?thesis by (intro no_snapshot) (simp_all add: applyCompletion_def)
  next
    case (Some snapshot)
    let ?issues = "checkTurnResultAuthority result (sn_authority snapshot) @ checkRunScope result (completionScope s snapshot)"
    show ?thesis
    proof (cases "?issues = []")
      case False
      with Inr Some show ?thesis by (intro denied) (simp add: applyCompletion_def Let_def)
    next
      case True
      show ?thesis
      proof (cases "tr_nextState result")
        case (NNeedsHuman d)
        show ?thesis
          by (cases "prepare_approval u td cp run agent (sn_authority snapshot) d v (tr_usage result) s")
            (use Inr Some True NNeedsHuman in \<open>auto simp: applyCompletion_def Let_def intro: refused accepted\<close>)
      qed (use Inr Some True in \<open>auto simp: applyCompletion_def Let_def intro: accepted\<close>)
    qed
  qed
qed

subsection \<open>Ingestion publishes nothing\<close>

lemma addToInbox_silent: "silent s (addToInbox u r eventId waitId s)"
  by (rule silentI) (simp_all add: addToInbox_def)

lemma applyRoute_silent: "silent s (snd (applyRoute u r eventId e agents s))"
proof -
  have res: "silent s s1" if "resolveWait u w i b s = (x, s1)" for w i b x s1
    using resolveWait_silent [of s u w i b] that by simp
  show ?thesis
    by (auto simp: applyRoute_def Let_def addToInbox_silent split: option.split prod.split
        intro: res silent_trans [OF res addToInbox_silent])
qed

lemma insert_route_silent: "insert_route r s = Inr s' \<Longrightarrow> silent s s'"
  by (rule silentI) (auto simp: insert_route_def split: if_splits)

lemma apply_routes_silent: "apply_routes u eventId e agents anchor rs s = Inr (finals, s') \<Longrightarrow> silent s s'"
proof (induction rs arbitrary: s finals)
  case (Cons r rs)
  obtain final s1 where a: "applyRoute u r eventId e agents s = (final, s1)" by fastforce
  then have 1: "silent s s1" using applyRoute_silent [of s u r eventId e agents] by simp
  obtain s2 where i: "insert_route (route_row_for u eventId anchor final) s1 = Inr s2"
    using Cons.prems a by (auto split: sum.splits)
  define s3 where "s3 = (if rt_decision final = RBlocked then blocked_alert u eventId e final s2 else s2)"
  have 3: "silent s s3"
    unfolding s3_def blocked_alert_def
    using silent_trans [OF 1 insert_route_silent [OF i]] silent_trans [OF _ loop_alert_fx.is_silent] by simp
  obtain finals' where "apply_routes u eventId e agents anchor rs s3 = Inr (finals', s')"
    using Cons.prems a i by (auto simp: s3_def split: sum.splits)
  from silent_trans [OF 3 Cons.IH [OF this]] show ?case .
qed simp

lemma schedule_each_silent: "schedule_each u td ids s = Inr s' \<Longrightarrow> silent s s'"
proof (induction ids arbitrary: s)
  case (Cons i ids)
  then show ?case by (auto split: sum.splits dest: silent_trans [OF scheduleAgent_silent Cons.IH])
qed simp

lemma ingest_undecided:
  assumes "ingestInTransaction u td e s = Inr (r, s')"
  shows "undecided s s'"
proof (cases "list_ex (stored_event e) (gw_events s)")
  case True
  with assms show ?thesis
    by (auto simp: ingestInTransaction_def duplicate_def silent_undecided split: option.splits if_splits)
next
  case False
  let ?s1 = "insert_event (event_row_for u e s) s"
  have 1: "undecided s ?s1" by (simp add: insert_event_def undecided_same outbox_grows_same)
  have "undecided s s2" if "silent ?s1 s2" for s2 using undecided_trans [OF 1 silent_undecided [OF that]] .
  with assms False 1 show ?thesis
    by (auto simp: ingestInTransaction_def Let_def split: option.splits sum.splits
        dest: silent_trans [OF apply_routes_silent schedule_each_silent])
qed

end
