(* ===== verification/Approval_Safety.thy ===== *)
theory Approval_Safety
  imports Tool_Actions Publication
begin

text \<open>
  What the approval use cases may do to the stored approvals and tool actions. The guards of the two tables
  (the triggers of \<open>packages/db/migrations/0011_approval_guards.sql\<close>) are predicates on a row before and
  after an update. The locale \<open>approval_protocol\<close> collects the primitive steps the use cases are made of, with
  the condition each step meets where the code takes it; inside it every use case is a composition of such
  steps. It is interpreted for the consistency of the control plane, for the authority behind every tool
  action together with the finality of decisions, and for the delivered cards a reply is looked up by.
\<close>

subsection \<open>The guards of the tables\<close>

definition written_once :: "'a option \<Rightarrow> 'a option \<Rightarrow> bool" where
  "written_once before after \<longleftrightarrow> before = None \<or> after = before"

definition same_request :: "approval_row \<Rightarrow> approval_row \<Rightarrow> bool" where
  "same_request a a' \<longleftrightarrow>
    aq_id a' = aq_id a \<and> aq_requestedByAgentId a' = aq_requestedByAgentId a \<and> aq_runId a' = aq_runId a \<and>
    aq_actionType a' = aq_actionType a \<and> aq_actionParams a' = aq_actionParams a \<and>
    aq_immutableActionHash a' = aq_immutableActionHash a \<and> aq_actionSummary a' = aq_actionSummary a \<and>
    aq_riskLevel a' = aq_riskLevel a \<and> aq_allowedApproverUserIds a' = aq_allowedApproverUserIds a \<and>
    aq_nonce a' = aq_nonce a \<and> aq_createdAt a' = aq_createdAt a \<and> aq_expiresAt a' = aq_expiresAt a"

definition approval_requests_guard :: "approval_row \<Rightarrow> approval_row \<Rightarrow> bool" where
  "approval_requests_guard a a' \<longleftrightarrow>
    same_request a a' \<and>
    written_once (aq_decidedByUserId a) (aq_decidedByUserId a') \<and> written_once (aq_decidedAt a) (aq_decidedAt a') \<and>
    written_once (aq_decisionPostId a) (aq_decisionPostId a') \<and> written_once (aq_resolvedAt a) (aq_resolvedAt a') \<and>
    (aq_status a = APending \<or> aq_status a' = aq_status a)"

definition same_action :: "tool_action_row \<Rightarrow> tool_action_row \<Rightarrow> bool" where
  "same_action t t' \<longleftrightarrow>
    ta_id t' = ta_id t \<and> ta_approvalId t' = ta_approvalId t \<and> ta_agentId t' = ta_agentId t \<and>
    ta_namespace t' = ta_namespace t \<and> ta_actionType t' = ta_actionType t \<and> ta_actionParams t' = ta_actionParams t \<and>
    ta_immutableActionHash t' = ta_immutableActionHash t \<and> ta_idempotencyKey t' = ta_idempotencyKey t \<and>
    ta_configVersion t' = ta_configVersion t \<and> ta_deadlineAt t' = ta_deadlineAt t \<and> ta_createdAt t' = ta_createdAt t"

fun forward_move :: "tool_action_status \<Rightarrow> tool_action_status \<Rightarrow> bool" where
  "forward_move TQueued st = (st = TRunning \<or> st = TFailed \<or> st = TCancelled)"
| "forward_move TRunning st = (st = TSucceeded \<or> st = TFailed \<or> st = TUnknown)"
| "forward_move TUnknown st = (st = TSucceeded \<or> st = TFailed \<or> st = TCancelled)"
| "forward_move _ st = False"

definition tool_actions_guard :: "tool_action_row \<Rightarrow> tool_action_row \<Rightarrow> bool" where
  "tool_actions_guard t t' \<longleftrightarrow>
    same_action t t' \<and> (ta_status t' = ta_status t \<or> forward_move (ta_status t) (ta_status t'))"

text \<open>Several updates in a row: \<open>onward\<close> is how far an action can get by guarded updates.\<close>

fun onward :: "tool_action_status \<Rightarrow> tool_action_status \<Rightarrow> bool" where
  "onward TQueued st = True"
| "onward TRunning st = (st \<noteq> TQueued)"
| "onward TUnknown st = (st \<noteq> TQueued \<and> st \<noteq> TRunning)"
| "onward final st = (st = final)"

lemma onward_refl [simp]: "onward st st"
  by (cases st) simp_all

lemma onward_trans: "onward a b \<Longrightarrow> onward b c \<Longrightarrow> onward a c"
  by (cases a; cases b; cases c) simp_all

lemma onward_is_closure: "onward = forward_move\<^sup>*\<^sup>*"
proof (intro ext iffI)
  fix a b
  have step: "forward_move x y \<Longrightarrow> onward x y" for x y by (cases x; cases y) simp_all
  show "onward a b" if "forward_move\<^sup>*\<^sup>* a b"
    using that by induction (auto intro: onward_trans step)
  note s = r_into_rtranclp [of forward_move]
  have u: "forward_move\<^sup>*\<^sup>* TRunning TUnknown" "forward_move\<^sup>*\<^sup>* TUnknown TCancelled" "forward_move\<^sup>*\<^sup>* TQueued TRunning"
    by (rule s, simp)+
  then have "forward_move\<^sup>*\<^sup>* TRunning TCancelled" "forward_move\<^sup>*\<^sup>* TQueued TUnknown"
    by (meson rtranclp_trans)+
  moreover have "forward_move\<^sup>*\<^sup>* TQueued TSucceeded" using rtranclp.rtrancl_into_rtrancl [OF u(3), of TSucceeded] by simp
  ultimately show "forward_move\<^sup>*\<^sup>* a b" if "onward a b"
    using that u by (cases a; cases b) (auto intro: s)
qed

subsection \<open>Steps on approvals\<close>

text \<open>An approver's identity behind a grant.\<close>

definition granted_by_approver :: "approval_row \<Rightarrow> bool" where
  "granted_by_approver a \<longleftrightarrow>
    (\<exists>user \<in> set (aq_allowedApproverUserIds a). aq_decidedByUserId a = Some user)"

text \<open>The updates of the code: a pending request ends, granted only in an approver's name; or an ended one
  is marked resolved.\<close>

definition ends_request :: "approval_row \<Rightarrow> approval_row \<Rightarrow> bool" where
  "ends_request a a' \<longleftrightarrow> same_request a a' \<and> aq_status a = APending \<and> aq_status a' \<noteq> APending \<and>
    aq_resolvedAt a' = aq_resolvedAt a \<and> (aq_status a' = AGranted \<longrightarrow> granted_by_approver a')"

definition marks_resolved :: "approval_row \<Rightarrow> approval_row \<Rightarrow> bool" where
  "marks_resolved a a' \<longleftrightarrow> aq_status a \<noteq> APending \<and> aq_resolvedAt a = None \<and>
    (\<exists>time. a' = a\<lparr>aq_resolvedAt := Some time\<rparr>)"

definition action_for :: "approval_row \<Rightarrow> tool_action_row \<Rightarrow> bool" where
  "action_for a t \<longleftrightarrow>
    ta_approvalId t = aq_id a \<and> aq_status a = AGranted \<and> ta_agentId t = aq_requestedByAgentId a \<and>
    ta_actionType t = aq_actionType a \<and> ta_actionParams t = aq_actionParams a \<and>
    ta_immutableActionHash t = aq_immutableActionHash a"

lemma find_approval_SomeD: "find_approval s i = Some a \<Longrightarrow> a \<in> set (gw_approvals s) \<and> aq_id a = i"
  using find_SomeD [of "\<lambda>a. aq_id a = i" "gw_approvals s" a] by (simp add: find_approval_def)

lemma find_action_SomeD: "find_action s i = Some t \<Longrightarrow> t \<in> set (gw_toolActions s) \<and> ta_id t = i"
  using find_SomeD [of "\<lambda>t. ta_id t = i" "gw_toolActions s" t] by (simp add: find_action_def)

lemma action_of_SomeD: "action_of s i = Some t \<Longrightarrow> t \<in> set (gw_toolActions s) \<and> ta_approvalId t = i"
  using find_SomeD [of "\<lambda>t. ta_approvalId t = i" "gw_toolActions s" t] by (simp add: action_of_def)

text \<open>Rows survive a step that decides nothing.\<close>

lemma approval_undecided: "undecided s s' \<Longrightarrow> a \<in> set (gw_approvals s) \<Longrightarrow> a \<in> set (gw_approvals s')"
  by (auto simp: undecided_def new_requests_def)

lemma approval_updated: "a \<in> set (gw_approvals s) \<Longrightarrow> f a \<in> set (gw_approvals (update_approval (aq_id a) f s))"
  by (auto simp: update_approval_def set_update_where)

lemma lockApproval_SomeD:
  assumes "lockApproval s i = Some (a, action)"
  shows "a \<in> set (gw_approvals s)" and "aq_id a = i" and "action = action_of s (aq_id a)"
  using assms find_approval_SomeD [of s i a] by (auto simp: lockApproval_def)

subsection \<open>What the notices and the wait leave alone\<close>

interpretation notice_fx: side_effect "postApprovalNotice u key p" for u key p
  unfolding postApprovalNotice_def [abs_def] by (rule outbox_fx.side_effect_axioms)

interpretation card_fx: side_effect "postNoticeOnCard u i key notice outcome receipt detail"
  for u i key notice outcome receipt detail
  by unfold_locales (simp_all add: postNoticeOnCard_def outbox_grows_same split: option.split)

interpretation executed_fx: side_effect "post_executed u a t" for u a t
  unfolding post_executed_def [abs_def] by (rule card_fx.side_effect_axioms)

interpretation final_fx: side_effect "finalNotice u a action" for u a action
  by unfold_locales (simp_all add: finalNotice_def outbox_grows_same split: option.split)

interpretation tool_job_fx: quiet_effect "enqueueToolAction u t" for u t
  unfolding enqueueToolAction_def [abs_def] by (rule job_fx.quiet_effect_axioms)

interpretation audit_ids_fx: side_effect "audit_ids u action key ids" for u action key ids
  by unfold_locales (simp_all add: audit_ids_def outbox_grows_same)

interpretation conflict_fx: side_effect "report_conflict u t body" for u t body
  by unfold_locales (auto simp: report_conflict_def Let_def intro: outbox_grows_trans [OF audit_fx.outbox_kept raise_fx.outbox_kept]
      le_trans [OF audit_fx.ids_mono raise_fx.ids_mono])

interpretation refusal_fx: side_effect "note_refusal u a reply issues" for u a reply issues
  by unfold_locales (auto simp: note_refusal_def intro: outbox_grows_trans [OF audit_fx.outbox_kept raise_fx.outbox_kept]
      le_trans [OF audit_fx.ids_mono raise_fx.ids_mono])

interpretation jobs_fx: core_effect "fold (\<lambda>w. send_job u (J w)) ws" for u J ws
  by (rule fold_core_effect) (rule job_fx.core_effect_axioms)

lemma jobs_decide_nothing:
  "decision_log (fold (\<lambda>w. send_job u (J w)) ws s) = decision_log s \<and>
   gw_outbox (fold (\<lambda>w. send_job u (J w)) ws s) = gw_outbox s"
  by (induction ws arbitrary: s) simp_all

interpretation extend_fx: core_effect "extendApprovalWait u i until" for u i until
proof
  show "gw_ids s \<le> gw_ids (extendApprovalWait u i until s)" for s
    unfolding extendApprovalWait_def Let_def by (rule order_trans [OF _ jobs_fx.ids_mono]) simp
qed (simp_all add: extendApprovalWait_def Let_def)

lemma extend_decides_nothing [simp]:
  "decision_log (extendApprovalWait u i until s) = decision_log s" "outbox_grows s (extendApprovalWait u i until s)"
  by (simp_all add: extendApprovalWait_def Let_def jobs_decide_nothing outbox_grows_same)

subsection \<open>The protocol\<close>

text \<open>A relation between states that holds across every primitive step of the approval use cases.\<close>

locale approval_protocol =
  fixes R :: "gateway \<Rightarrow> gateway \<Rightarrow> bool" and u :: uow and td :: turn_deps
  assumes same [simp]: "R s s"
    and follow: "R s s1 \<Longrightarrow> R s1 s2 \<Longrightarrow> R s s2"
    and effect: "core_effect h \<Longrightarrow> decision_log (h s) = decision_log s \<Longrightarrow> outbox_grows s (h s) \<Longrightarrow> R s (h s)"
    and ingest: "ingestInTransaction u td e s = Inr (r, s') \<Longrightarrow> R s s'"
    and approve: "a \<in> set (gw_approvals s) \<Longrightarrow> ends_request a (f a) \<or> marks_resolved a (f a) \<Longrightarrow>
      R s (update_approval (aq_id a) f s)"
    and withdraw: "(\<And>a. P a \<Longrightarrow> ends_request a (f a)) \<Longrightarrow>
      R s (s\<lparr>gw_approvals := update_where P f (gw_approvals s)\<rparr>)"
    and act: "t \<in> set (gw_toolActions s) \<Longrightarrow> peek \<in> set (gw_toolActions s) \<Longrightarrow> ta_approvalId peek = ta_approvalId t \<Longrightarrow>
      tool_actions_guard t (g t) \<Longrightarrow> R s (update_action (ta_id peek) g s)"
    and stop: "(\<And>t. Q t \<Longrightarrow> tool_actions_guard t (g t)) \<Longrightarrow>
      R s (s\<lparr>gw_toolActions := update_where Q g (gw_toolActions s)\<rparr>)"
    and release: "a \<in> set (gw_approvals s) \<Longrightarrow> granted_by_approver a \<Longrightarrow> action_for a t \<Longrightarrow> insert_action t s = Inr s' \<Longrightarrow> R s s'"
    and answer: "R s (s\<lparr>gw_replies := gw_replies s @ [y]\<rparr>)"
begin

lemma side: "side_effect f \<Longrightarrow> R s (f s)"
  by (rule effect) (simp_all add: side_effect_def side_effect.decisions side_effect.outbox_kept)

lemmas after_side = follow [OF side]

lemma resolveApproval_step:
  assumes a: "a \<in> set (gw_approvals s)" and r: "resolveApproval u td a action detail s = Inr (b, s')"
  shows "R s s'"
proof (cases "approvalOutcome a action = None \<or> aq_resolvedAt a \<noteq> None")
  case True
  with r show ?thesis by (auto simp: resolveApproval_def split: option.splits)
next
  case False
  then obtain e x s1 where i: "ingestInTransaction u td e s = Inr (x, s1)"
    and s': "s' = update_approval (aq_id a) (\<lambda>a. a\<lparr>aq_resolvedAt := Some (u_now u)\<rparr>) s1"
    using r by (auto simp: resolveApproval_def Let_def split: option.splits sum.splits)
  have "aq_status a \<noteq> APending" using False by (auto simp: approvalOutcome_def)
  with False have "marks_resolved a (a\<lparr>aq_resolvedAt := Some (u_now u)\<rparr>)" by (auto simp: marks_resolved_def)
  with approval_undecided [OF ingest_undecided [OF i] a] have "R s1 s'" unfolding s' by (intro approve) simp_all
  with ingest [OF i] show ?thesis by (rule follow)
qed

lemma recordDecision_step: "recordDecision u td a type user s = Inr (r, s') \<Longrightarrow> R s s'"
  unfolding recordDecision_def by (rule ingest)

lemma deny_step:
  assumes a: "a \<in> set (gw_approvals s)" "aq_status a = APending" and r: "deny u td a reply s = Inr (v, s')"
  shows "R s s'"
proof -
  define f where "f = (\<lambda>a. a\<lparr>aq_status := ADenied, aq_decidedByUserId := Some (rep_userId reply),
           aq_decidedAt := Some (u_now u), aq_decisionPostId := Some (rep_postId reply)\<rparr> :: approval_row)"
  define s2 where "s2 = audit u (''mattermost:'' @ rep_userId reply) ''approval.denied'' ''approval'' (aq_id a)
           [(''post_id'', JStr (rep_postId reply))] (update_approval (aq_id a) f s)"
  obtain x s3 y where d: "recordDecision u td (f a) ApprovalDenied (rep_userId reply) s2 = Inr (x, s3)"
    and res: "resolveApproval u td (f a) None None s3 = Inr (y, s')"
    using r by (auto simp: deny_def Let_def f_def s2_def split: sum.splits)
  have "ends_request a (f a)" using a(2) by (simp add: ends_request_def same_request_def f_def)
  then have 1: "R s (update_approval (aq_id a) f s)" by (intro approve a) simp
  have "R s s2" unfolding s2_def by (rule follow [OF 1 side [OF audit_fx.side_effect_axioms]])
  moreover have "f a \<in> set (gw_approvals s2)"
    using approval_updated [OF a(1), of f] by (simp add: s2_def decision_logD(1) [OF audit_fx.decisions])
  then have "f a \<in> set (gw_approvals s3)"
    using d ingest_undecided approval_undecided unfolding recordDecision_def by blast
  ultimately show ?thesis using follow [OF follow [OF _ recordDecision_step [OF d]] resolveApproval_step [OF _ res]] by blast
qed

lemma decisions_step: "R s (fold (\<lambda>reason. record_decision u run agent type verdict reason) reasons s)"
proof (induction reasons arbitrary: s)
  case (Cons x xs)
  from follow [OF side [OF decision_fx.side_effect_axioms] Cons] show ?case by simp
qed simp

lemma decisions_approvals: "gw_approvals (fold (\<lambda>reason. record_decision u run agent type verdict reason) reasons s) = gw_approvals s"
  by (induction reasons arbitrary: s) (simp_all add: decision_logD(1) [OF decision_fx.decisions])

lemma refuse_grant_step:
  assumes a: "a \<in> set (gw_approvals s)" "aq_status a = APending" and r: "refuse_grant u td a reply issues s = Inr (v, s')"
  shows "R s s'"
proof -
  define s1 where "s1 = fold (\<lambda>reason. record_decision u (aq_runId a) (aq_requestedByAgentId a)
           (aq_actionType a) PDeny reason) (take 20 issues) s"
  define f where "f = (\<lambda>a. a\<lparr>aq_status := ACancelled, aq_decisionPostId := Some (rep_postId reply)\<rparr> :: approval_row)"
  let ?s2 = "update_approval (aq_id a) f s1"
  obtain x detail where res: "resolveApproval u td (f a) None (Some detail) (note_refusal u a reply issues ?s2) = Inr (x, s')"
    using r by (auto simp: refuse_grant_def Let_def f_def s1_def split: sum.splits)
  have a1: "a \<in> set (gw_approvals s1)" using a(1) by (simp add: s1_def decisions_approvals)
  have "ends_request a (f a)" using a(2) by (simp add: ends_request_def same_request_def f_def)
  then have "R s1 ?s2" by (intro approve a1) simp
  then have "R s ?s2" using follow [OF decisions_step] unfolding s1_def by blast
  moreover have "f a \<in> set (gw_approvals (note_refusal u a reply issues ?s2))"
    using approval_updated [OF a1, of f] by (simp add: decision_logD(1) [OF refusal_fx.decisions])
  ultimately show ?thesis
    using follow [OF follow [OF _ side [OF refusal_fx.side_effect_axioms]] resolveApproval_step [OF _ res]] by blast
qed

lemma accept_grant_step:
  assumes a: "a \<in> set (gw_approvals s)" "aq_status a = APending" "rep_userId reply \<in> set (aq_allowedApproverUserIds a)"
    and r: "accept_grant u td a reply namespace config s = Inr (v, s')"
  shows "R s s'"
proof -
  define f where "f = (\<lambda>a. a\<lparr>aq_status := AGranted, aq_decidedByUserId := Some (rep_userId reply),
           aq_decidedAt := Some (u_now u), aq_decisionPostId := Some (rep_postId reply)\<rparr> :: approval_row)"
  define s1 where "s1 = update_approval (aq_id a) f s"
  obtain t s2 x s4 user where ins: "insert_action t s1 = Inr s2" and t: "action_for (f a) t"
    and s4: "R s2 s4" and d: "recordDecision u td (f a) ApprovalGranted user s4 = Inr (x, s')"
  proof -
    fix thesis
    assume that: "\<And>t s2 s4 user x. insert_action t s1 = Inr s2 \<Longrightarrow> action_for (f a) t \<Longrightarrow> R s2 s4 \<Longrightarrow>
      recordDecision u td (f a) ApprovalGranted user s4 = Inr (x, s') \<Longrightarrow> thesis"
    have R4: "R s2 (audit u actor x y z dd (extendApprovalWait u i until (enqueueToolAction u t
        (record_decision u run agent type verdict reason s2))))" for s2 t actor x y z dd i until run agent type verdict reason
      by (intro follow [OF _ side [OF audit_fx.side_effect_axioms]] follow [OF _ effect [OF extend_fx.core_effect_axioms]]
          follow [OF _ side [OF tool_job_fx.side_effect_axioms]] side [OF decision_fx.side_effect_axioms]) simp_all
    show thesis
      using r unfolding accept_grant_def Let_def f_def [symmetric] s1_def [symmetric]
      by (auto split: sum.splits intro!: that R4 simp: action_for_def f_def)
  qed
  have e: "ends_request a (f a)" "granted_by_approver (f a)"
    using a(2,3) by (simp_all add: ends_request_def same_request_def f_def granted_by_approver_def)
  then have 1: "R s s1" unfolding s1_def by (intro approve a) simp
  have "f a \<in> set (gw_approvals s1)" unfolding s1_def by (rule approval_updated [OF a(1)])
  from follow [OF 1 release [OF this e(2) t ins]] s4 recordDecision_step [OF d] show ?thesis
    using follow by blast
qed

lemma grant_step:
  assumes "a \<in> set (gw_approvals s)" "aq_status a = APending" "rep_userId reply \<in> set (aq_allowedApproverUserIds a)"
    and "grant u td gd a reply s = Inr (v, s')"
  shows "R s s'"
  using assms(4) refuse_grant_step [OF assms(1,2)] accept_grant_step [OF assms(1-3)]
  by (auto simp: grant_def Let_def split: option.splits if_splits)

lemma decide_step:
  assumes a: "a \<in> set (gw_approvals s)" and r: "decide u td gd a reply command s = Inr (v, s')"
  shows "R s s'"
proof (cases "notApprover a reply s")
  case None
  then have "rep_userId reply \<in> set (aq_allowedApproverUserIds a)" by (auto simp: notApprover_def split: if_splits)
  then have "R s s'" if "decide_command u td gd a reply approves code s = Inr (v, s')" for approves code
    using that a grant_step [OF a] deny_step [OF a] side [OF audit_fx.side_effect_axioms]
    by (auto simp: decide_command_def split: if_splits)
  with r None show ?thesis by (auto simp: decide_def split: approval_command.splits)
next
  case (Some refusal)
  with r follow [OF side [OF audit_fx.side_effect_axioms] side [OF raise_fx.side_effect_axioms]] show ?thesis
    by (auto simp: decide_def Let_def)
qed

lemma handleApprovalReply_step:
  assumes "handleApprovalReply u td gd reply s = Inr (res, s')"
  shows "R s s'"
proof -
  have "R s1 (answer_reply u a reply cpost v s1)" for a cpost v s1
    unfolding answer_reply_def by (rule follow [OF answer side [OF notice_fx.side_effect_axioms]])
  then have "R s (answer_reply u a reply cpost v s1)"
    if "lockApproval s i = Some (a, action)" "decide u td gd a reply command s = Inr (v, s1)" for i a action command v s1 cpost
    using follow decide_step [OF lockApproval_SomeD(1) [OF that(1)] that(2)] by blast
  with assms show ?thesis
    by (auto simp: handleApprovalReply_def split: option.splits card_lookup.splits if_splits sum.splits)
qed

text \<open>Reports, sweeps and timeouts.\<close>

lemma settled_step:
  assumes a: "a \<in> set (gw_approvals s)" and r: "settled u td a t late s = Inr (b, s')"
  shows "R s s'"
proof -
  define s1 where "s1 = audit u ''system'' (''tool_action.'' @ action_status_name (ta_status t)) ''tool_action'' (ta_id t)
           [(''approval_id'', JStr (aq_id a))] s"
  obtain s3 where s3: "R s1 s3" "decision_log s3 = decision_log s1"
    and res: "resolveApproval u td a (Some t) None (post_executed u a t s3) = Inr (b, s')"
  proof -
    fix thesis
    assume that: "\<And>s3. R s1 s3 \<Longrightarrow> decision_log s3 = decision_log s1 \<Longrightarrow>
      resolveApproval u td a (Some t) None (post_executed u a t s3) = Inr (b, s') \<Longrightarrow> thesis"
    have alerts: "R s1 (if p then raiseAlert u k m d s1 else s1)" for p k m d s1
      by (simp add: side [OF raise_fx.side_effect_axioms])
    show thesis
      by (rule that [OF follow [OF alerts alerts] _ r [unfolded settled_def Let_def, folded s1_def]]) simp
  qed
  have "R s s1" unfolding s1_def by (rule side [OF audit_fx.side_effect_axioms])
  from follow [OF this s3(1)] have "R s (post_executed u a t s3)"
    by (rule follow [OF _ side [OF executed_fx.side_effect_axioms]])
  moreover have "a \<in> set (gw_approvals (post_executed u a t s3))"
    using a decision_logD(1) [OF s3(2)] by (simp add: decision_logD(1) [OF executed_fx.decisions] s1_def decision_logD(1) [OF audit_fx.decisions])
  ultimately show ?thesis using follow [OF _ resolveApproval_step [OF _ res]] by blast
qed

lemma reported_row_guard: "nextStatus (ta_status t) body = Some status \<Longrightarrow> tool_actions_guard t (reported_row u body status t)"
  by (cases body) (auto simp: tool_actions_guard_def same_action_def reported_row_def split: if_splits)

lemma overdue_row_guard: "ta_status t = TQueued \<or> ta_status t = TRunning \<Longrightarrow> tool_actions_guard t (overdue_row u t)"
  by (auto simp: tool_actions_guard_def same_action_def overdue_row_def)

lemma act_and_settle:
  assumes a: "a \<in> set (gw_approvals s)" and t: "t \<in> set (gw_toolActions s)" and g: "tool_actions_guard t (g t)"
    and r: "settled u td a t' late (update_action (ta_id t) g s) = Inr (b, s')"
  shows "R s s'"
  by (rule follow [OF act [where g = g, OF t t refl g] settled_step [OF _ r]]) (use a in \<open>simp add: update_action_def\<close>)

lemma take_report_step:
  assumes a: "a \<in> set (gw_approvals s)" and t: "t \<in> set (gw_toolActions s)"
    and r: "take_report u td a t body s = Inr (res, s')"
  shows "R s s'"
proof (cases "nextStatus (ta_status t) body")
  case None
  with r side [OF audit_fx.side_effect_axioms] side [OF conflict_fx.side_effect_axioms] show ?thesis
    by (auto simp: take_report_def split: tool_report_body.splits)
next
  case (Some status)
  then obtain late b where "settled u td a (reported_row u body status t) late
      (update_action (ta_id t) (reported_row u body status) s) = Inr (b, s')"
    using r by (auto simp: take_report_def split: tool_report_body.splits sum.splits)
  from act_and_settle [where g = "reported_row u body status", OF a t reported_row_guard [OF Some] this] show ?thesis .
qed

lemma handleToolReport_step:
  assumes r: "handleToolReport u td namespace report s = Inr (res, s')"
  shows "R s s'"
proof -
  have "R s s'" if "lockApproval s i = Some (a, Some t)" "take_report u td a t body s = Inr (res, s')" for i a t body
    using take_report_step [OF lockApproval_SomeD(1) [OF that(1)] _ that(2)]
      lockApproval_SomeD(3) [OF that(1)] action_of_SomeD by metis
  with r side [OF audit_fx.side_effect_axioms] show ?thesis
    by (auto simp: handleToolReport_def split: option.splits if_splits)
qed

lemma expire_step:
  assumes "expire a s = (a', s')" and "a \<in> set (gw_approvals s)"
  shows "R s s' \<and> a' \<in> set (gw_approvals s') \<and> gw_toolActions s' = gw_toolActions s"
proof (cases "aq_status a = APending")
  case True
  have "R s (s\<lparr>gw_approvals := update_where (\<lambda>x. aq_id x = aq_id a \<and> aq_status x = APending)
      (\<lambda>a. a\<lparr>aq_status := AExpired\<rparr>) (gw_approvals s)\<rparr>)"
    by (rule withdraw) (simp add: ends_request_def same_request_def)
  with True assms show ?thesis by (auto simp: expire_def Let_def set_update_where)
qed (use assms in \<open>simp add: expire_def\<close>)

lemma finish_step:
  assumes "a \<in> set (gw_approvals s)" and "resolveApproval u td a action None (finalNotice u a action s) = Inr (b, s')"
  shows "R s s'"
  by (rule follow [OF side [OF final_fx.side_effect_axioms] resolveApproval_step [OF _ assms(2)]])
    (use assms(1) in \<open>simp add: decision_logD(1) [OF final_fx.decisions]\<close>)

lemma sweepOne_step:
  assumes r: "sweepOne u td i s = Inr (b, s')"
  shows "R s s'"
proof (cases "lockApproval s i")
  case None
  with r show ?thesis by (simp add: sweepOne_def)
next
  case (Some p)
  then obtain a0 action where l: "lockApproval s i = Some (a0, action)" by (cases p) simp
  obtain a s1 where e: "(if aq_status a0 = APending \<and> aq_expiresAt a0 \<le> u_now u then expire a0 s else (a0, s)) = (a, s1)"
    by fastforce
  then have s1: "R s s1" "a \<in> set (gw_approvals s1)" "gw_toolActions s1 = gw_toolActions s"
    using expire_step [OF _ lockApproval_SomeD(1) [OF l]] lockApproval_SomeD(1) [OF l] by (auto split: if_splits)
  obtain moved s2 where m: "settleOverdue u a action s1 = (moved, s2)" by fastforce
  have "R s1 s'"
  proof (cases moved)
    case None
    then have "s2 = s1" using m by (auto simp: settleOverdue_def split: option.splits if_splits)
    with r l e m None finish_step [OF s1(2)] show ?thesis by (auto simp: sweepOne_def Let_def)
  next
    case (Some t')
    then obtain t where t: "action = Some t" "overdue u t" "s2 = update_action (ta_id t) (overdue_row u) s1"
      using m by (auto simp: settleOverdue_def split: option.splits if_splits)
    have "t \<in> set (gw_toolActions s1)"
      using t(1) lockApproval_SomeD(3) [OF l] action_of_SomeD s1(3) by metis
    moreover obtain b' where "settled u td a t' False s2 = Inr (b', s')"
      using r l e m Some by (auto simp: sweepOne_def Let_def split: sum.splits)
    ultimately show ?thesis
      using act_and_settle [where g = "overdue_row u", OF s1(2)] overdue_row_guard [of t] t(2) unfolding t(3) by (auto simp: overdue_def)
  qed
  with s1(1) show ?thesis by (rule follow)
qed

lemma late_notice_step: "late_notice u i s = Inr (b, s') \<Longrightarrow> R s s'"
  using side [OF final_fx.side_effect_axioms] side [OF executed_fx.side_effect_axioms]
  by (auto simp: late_notice_def split: option.splits if_splits)

lemma settleApprovalOnTimeout_step:
  assumes r: "settleApprovalOnTimeout u td i s = Inr (b, s')"
  shows "R s s'"
proof (cases "lockApproval s i")
  case None
  with r show ?thesis by (simp add: settleApprovalOnTimeout_def)
next
  case (Some p)
  then obtain a action where l: "lockApproval s i = Some (a, action)" by (cases p) simp
  note a = lockApproval_SomeD(1) [OF l]
  show ?thesis
  proof (cases "aq_status a = APending")
    case True
    obtain a' s1 where e: "expire a s = (a', s1)" by fastforce
    note x = expire_step [OF e a]
    have "resolveApproval u td a' action None (finalNotice u a' action s1) = Inr (b, s')"
      using r l True e by (simp add: settleApprovalOnTimeout_def)
    with x follow [OF _ finish_step] show ?thesis by blast
  next
    case False
    have "R s s'" if "action = Some t" "ta_status t = TQueued \<or> ta_status t = TRunning"
      "settled u td a (overdue_row u t) False (update_action (ta_id t) (overdue_row u) s) = Inr (b', s')" for t b'
      using act_and_settle [where g = "overdue_row u", OF a _ overdue_row_guard [OF that(2)] that(3)] that(1) lockApproval_SomeD(3) [OF l]
        action_of_SomeD by metis
    with r l False resolveApproval_step [OF a] show ?thesis
      by (auto simp: settleApprovalOnTimeout_def split: option.splits if_splits sum.splits)
  qed
qed

lemma handleWaitTimeout_step:
  assumes r: "handleWaitTimeout u td waitId s = Inr (res, s')"
  shows "R s s'"
proof -
  have both: "R s s'" if "settleApprovalOnTimeout u td i s = Inr (b, s1)" "ingestInTransaction u td e s1 = Inr (x, s')" for i b s1 e x
    by (rule follow [OF settleApprovalOnTimeout_step [OF that(1)] ingest [OF that(2)]])
  show ?thesis
  proof (cases "Option.bind (find (\<lambda>w. wt_id w = waitId) (gw_waits s))
      (\<lambda>w. map_option (Pair w) (find_run s (wt_createdByRunId w)))")
    case None
    with r show ?thesis by (simp add: handleWaitTimeout_def)
  next
    case (Some p)
    then show ?thesis
      using r side [OF job_fx.side_effect_axioms]
      by (cases p; cases "approvalIdOf (wt_correlationId (fst p))")
        (auto simp: handleWaitTimeout_def split: if_split_asm sum.split_asm bool.split_asm
          dest: ingest settleApprovalOnTimeout_step both)
  qed
qed

lemma revoke_actions_step: "R s (snd (revoke_actions u gd rows s))"
proof (induction rows arbitrary: s)
  case (Cons row rows)
  obtain a i where row: "row = (a, i)" by fastforce
  have "R s (s\<lparr>gw_toolActions := update_where (\<lambda>t. ta_id t = i \<and> ta_status t = TQueued) (\<lambda>t. t\<lparr>ta_status := TCancelled,
      ta_completedAt := c, ta_errorRedacted := d\<rparr>) (gw_toolActions s)\<rparr>)" for c d
    by (rule stop) (simp add: tool_actions_guard_def same_action_def)
  from Cons.IH follow [OF this Cons.IH] show ?case
    unfolding row by (simp only: revoke_actions.simps Let_def case_prod_unfold snd_conv split: if_split) simp
qed simp

lemma revoke_approvals_step: "R s (snd (revoke_approvals u gd rows s))"
proof (induction rows arbitrary: s)
  case (Cons a rows)
  have "R s (s\<lparr>gw_approvals := update_where (\<lambda>x. aq_id x = aq_id a \<and> aq_status x = APending)
      (\<lambda>a. a\<lparr>aq_status := ACancelled\<rparr>) (gw_approvals s)\<rparr>)"
    by (rule withdraw) (simp add: ends_request_def same_request_def)
  from Cons.IH follow [OF this Cons.IH] show ?case
    by (simp only: revoke_approvals.simps Let_def case_prod_unfold snd_conv split: if_split) simp
qed simp

lemma revokeQueuedActions_step: "R s (snd (revokeQueuedActions u gd s))"
  unfolding revokeQueuedActions_def Let_def case_prod_unfold snd_conv
  by (intro follow [OF _ side [OF audit_ids_fx.side_effect_axioms]] follow [OF _ revoke_approvals_step] revoke_actions_step)

lemma settleToolAction_step:
  assumes r: "settleToolAction u i outcome actor note s = Inr (res, s')"
  shows "R s s'"
proof -
  obtain peek where p: "find_action s i = Some peek" using r by (cases "find_action s i") (auto simp: settleToolAction_def)
  obtain a t where l: "lockApproval s (ta_approvalId peek) = Some (a, Some t)" and st: "ta_status t = TUnknown"
    using r p by (auto simp: settleToolAction_def split: option.splits if_splits)
  have t: "t \<in> set (gw_toolActions s)" "ta_approvalId peek = ta_approvalId t"
    using lockApproval_SomeD(2,3) [OF l] action_of_SomeD by metis+
  define g where "g = (\<lambda>t. t\<lparr>ta_status := manual_status outcome, ta_completedAt := Some (u_now u),
                 ta_errorRedacted := Some (take 500 (u_redact u (''settled by '' @ actor @ '': '' @ note)))\<rparr> :: tool_action_row)"
  have "tool_actions_guard t (g t)"
    using st by (cases outcome) (simp_all add: tool_actions_guard_def same_action_def g_def)
  then have "R s (update_action i g s)"
    using act [OF t(1) _ t(2)] find_action_SomeD [OF p] by blast
  note follow [OF follow [OF this side [OF audit_fx.side_effect_axioms]] side [OF card_fx.side_effect_axioms]]
  with r p l st show ?thesis by (auto simp: settleToolAction_def Let_def g_def)
qed

lemma begin_step: "R s (snd (gateway_begin_tool_action now serves i attempt hash s))"
proof (cases "begin_verdict_of now serves i attempt hash s")
  case (Begin key)
  then obtain t where t: "find_action s i = Some t" "ta_status t = TQueued"
    by (auto simp: begin_verdict_of_def split: option.splits if_splits)
  have "tool_actions_guard t (t\<lparr>ta_status := TRunning, ta_startedAt := Some now\<rparr>)"
    using t(2) by (simp add: tool_actions_guard_def same_action_def)
  with find_action_SomeD [OF t(1)] have "R s (update_action i (\<lambda>t. t\<lparr>ta_status := TRunning, ta_startedAt := Some now\<rparr>) s)"
    using act [of t s t "\<lambda>t. t\<lparr>ta_status := TRunning, ta_startedAt := Some now\<rparr>"] by simp
  with Begin show ?thesis by (simp add: gateway_begin_tool_action_def)
qed (simp_all add: gateway_begin_tool_action_def)

lemma withdraw_step: "R s (snd (withdrawOpenApprovals u agentId reason pendingOnly s))"
proof -
  have 1: "R s (cancel_pending agentId s)"
    unfolding cancel_pending_def by (rule withdraw) (simp add: ends_request_def same_request_def withdraws_approval_def)
  have 2: "R x (x\<lparr>gw_toolActions := update_where (withdraws_action TQueued agentId)
      (\<lambda>t. t\<lparr>ta_status := TCancelled, ta_completedAt := c, ta_errorRedacted := d\<rparr>) (gw_toolActions x)\<rparr>)" for x c d
    by (rule stop) (simp add: tool_actions_guard_def same_action_def withdraws_action_def)
  have 3: "R x (x\<lparr>gw_toolActions := update_where (withdraws_action TRunning agentId)
      (\<lambda>t. t\<lparr>ta_cancelRequestedAt := c\<rparr>) (gw_toolActions x)\<rparr>)" for x c
    by (rule stop) (simp add: tool_actions_guard_def same_action_def)
  have kept: "gw_toolActions (cancel_pending agentId s) = gw_toolActions s" by (simp add: cancel_pending_def)
  note 4 = follow [OF 1 follow [OF 2 3], simplified kept gateway.simps]
  show ?thesis
    using 1 4 follow [OF 1 side [OF audit_fx.side_effect_axioms]] follow [OF 4 side [OF audit_fx.side_effect_axioms]]
    by (auto simp: withdrawOpenApprovals_def Let_def)
qed

end

end
