(* ===== verification/Outbox.thy ===== *)
theory Outbox
  imports Gateway_Store
begin

text \<open>
  Delivery of the outbox, \<open>packages/outbox/src/deliver.ts\<close>. An item is claimed under a lease in one
  transaction, its side effect is performed outside of any, and what came of it is recorded in another,
  only by the holder of the claim (\<open>owned\<close>): a claim that was taken over after its lease expired settles
  nothing. The deliverers are a parameter: one per kind of payload, returning a receipt or failing, for good
  or to be retried.
\<close>

datatype delivery_outcome = Sent | SkippedItem | NotDue | DeadItem

definition DEFAULT_LEASE_SECONDS :: nat where "DEFAULT_LEASE_SECONDS = 60"

definition retryDelaySeconds :: "nat \<Rightarrow> nat" where
  "retryDelaySeconds attempts = min 300 (5 * 2 ^ (attempts - 1))"

definition claimable :: "millis \<Rightarrow> string \<Rightarrow> outbox_row \<Rightarrow> bool" where
  "claimable now i x \<longleftrightarrow>
    ox_id x = i \<and>
    (ox_status x = OPending \<and> ox_nextAttemptAt x \<le> now \<or>
     ox_status x = OSending \<and> (case ox_lockedUntil x of None \<Rightarrow> True | Some l \<Rightarrow> l < now) \<and>
       ox_attempts x < ox_maxAttempts x)"

definition claimed_row :: "millis \<Rightarrow> outbox_row \<Rightarrow> outbox_row" where
  "claimed_row lease x = x\<lparr>ox_status := OSending, ox_attempts := Suc (ox_attempts x), ox_lockedUntil := Some lease\<rparr>"

definition claim_item :: "uow \<Rightarrow> nat \<Rightarrow> string \<Rightarrow> gateway \<Rightarrow> outbox_row option \<times> gateway" where
  "claim_item u leaseSeconds i s =
    (let lease = u_now u + int leaseSeconds * 1000 in
     (map_option (claimed_row lease) (find (claimable (u_now u) i) (gw_outbox s)),
      s\<lparr>gw_outbox := update_where (claimable (u_now u) i) (claimed_row lease) (gw_outbox s)\<rparr>))"

definition owned :: "string \<Rightarrow> nat \<Rightarrow> outbox_row \<Rightarrow> bool" where
  "owned i attempts x \<longleftrightarrow> ox_id x = i \<and> ox_status x = OSending \<and> ox_attempts x = attempts"

definition settle_sent :: "uow \<Rightarrow> string \<Rightarrow> nat \<Rightarrow> json \<Rightarrow> gateway \<Rightarrow> bool \<times> gateway" where
  "settle_sent u i attempts receipt s =
    (list_ex (owned i attempts) (gw_outbox s),
     s\<lparr>gw_outbox := update_where (owned i attempts)
         (\<lambda>x. x\<lparr>ox_status := OSent, ox_receipt := Some receipt, ox_sentAt := Some (u_now u),
                ox_lockedUntil := None, ox_lastErrorRedacted := None\<rparr>) (gw_outbox s)\<rparr>)"

fun payload_kind :: "outbox_payload \<Rightarrow> string" where
  "payload_kind (MattermostPost _) = ''mattermost.post''"
| "payload_kind (MattermostAlert _) = ''mattermost.alert''"
| "payload_kind (MattermostApproval _) = ''mattermost.approval''"
| "payload_kind (MattermostApprovalReply _) = ''mattermost.approval.reply''"

definition outbox_dead :: "uow \<Rightarrow> string \<Rightarrow> string \<Rightarrow> nat \<Rightarrow> string \<Rightarrow> gateway \<Rightarrow> gateway" where
  "outbox_dead u i kind attempts error s =
    audit u ''system'' ''outbox.dead'' ''outbox'' i
      [(''kind'', JStr kind), (''attempts'', JNum (int attempts)), (''error'', JStr error)] s"

definition settle_failed :: "uow \<Rightarrow> outbox_row \<Rightarrow> bool \<Rightarrow> string \<Rightarrow> gateway \<Rightarrow> delivery_outcome option \<times> gateway" where
  "settle_failed u claimed retryable error s =
    (let i = ox_id claimed; attempts = ox_attempts claimed;
         msg = u_redact u error;
         dead = (\<not> retryable \<or> ox_maxAttempts claimed \<le> attempts);
         s1 = s\<lparr>gw_outbox := update_where (owned i attempts)
           (\<lambda>x. x\<lparr>ox_status := (if dead then ODead else OPending), ox_lockedUntil := None,
                  ox_lastErrorRedacted := Some msg,
                  ox_nextAttemptAt := u_now u + int (retryDelaySeconds attempts) * 1000\<rparr>) (gw_outbox s)\<rparr>
     in if \<not> list_ex (owned i attempts) (gw_outbox s) then (Some SkippedItem, s)
        else if dead then (Some DeadItem, outbox_dead u i (payload_kind (ox_payload claimed)) attempts msg s1)
        else (None, s1))"

type_synonym deliverers = "outbox_payload \<Rightarrow> (outbox_row \<Rightarrow> (bool \<times> string) + json) option"

text \<open>The whole delivery, with nothing between its transactions; \<open>Inl\<close> is the error it throws for the queue to
  retry, after its second transaction committed. \<open>u'\<close> is the clock when the effect was performed.\<close>

definition deliverOutboxItem ::
    "uow \<Rightarrow> uow \<Rightarrow> nat \<Rightarrow> deliverers \<Rightarrow> string \<Rightarrow> gateway \<Rightarrow> (string + delivery_outcome) \<times> gateway" where
  "deliverOutboxItem u u' leaseSeconds ds i s =
    (case claim_item u leaseSeconds i s of
       (None, s1) \<Rightarrow>
         (Inr (case find (\<lambda>x. ox_id x = i) (gw_outbox s1) of
            Some x \<Rightarrow> if ox_status x = OPending then NotDue else SkippedItem | None \<Rightarrow> SkippedItem), s1)
     | (Some claimed, s1) \<Rightarrow>
         let result = (case ds (ox_payload claimed) of
               None \<Rightarrow> Inl (False, ''no deliverer for '' @ quoted (payload_kind (ox_payload claimed)))
             | Some d \<Rightarrow> d claimed) in
         (case result of
            Inr receipt \<Rightarrow>
              let (recorded, s2) = settle_sent u' i (ox_attempts claimed) receipt s1
              in (Inr (if recorded then Sent else SkippedItem), s2)
          | Inl (retryable, error) \<Rightarrow>
              (case settle_failed u' claimed retryable error s1 of
                 (Some outcome, s2) \<Rightarrow> (Inr outcome, s2)
               | (None, s2) \<Rightarrow> (Inl error, s2))))"

subsection \<open>Reconciliation\<close>

definition lease_expired :: "millis \<Rightarrow> outbox_row \<Rightarrow> bool" where
  "lease_expired now x \<longleftrightarrow>
    ox_status x = OSending \<and> (case ox_lockedUntil x of None \<Rightarrow> False | Some l \<Rightarrow> l < now)"

definition poisoned :: "millis \<Rightarrow> outbox_row \<Rightarrow> bool" where
  "poisoned now x \<longleftrightarrow> lease_expired now x \<and> ox_maxAttempts x \<le> ox_attempts x"

definition bury_poisoned :: "uow \<Rightarrow> gateway \<Rightarrow> gateway" where
  "bury_poisoned u s =
    fold (\<lambda>x. outbox_dead u (ox_id x) (payload_kind (ox_payload x)) (ox_attempts x) ''lease expired'')
      (filter (poisoned (u_now u)) (gw_outbox s))
      (s\<lparr>gw_outbox := update_where (poisoned (u_now u))
         (\<lambda>x. x\<lparr>ox_status := ODead, ox_lockedUntil := None, ox_nextAttemptAt := u_now u,
                ox_lastErrorRedacted := Some ''lease expired on the last attempt''\<rparr>) (gw_outbox s)\<rparr>)"

definition undelivered :: "uow \<Rightarrow> nat \<Rightarrow> outbox_row \<Rightarrow> bool" where
  "undelivered u staleSeconds x \<longleftrightarrow>
    ox_status x = OPending \<and> ox_nextAttemptAt x < u_now u - int staleSeconds * 1000 \<or> lease_expired (u_now u) x"

definition reconcileOutbox :: "uow \<Rightarrow> nat \<Rightarrow> gateway \<Rightarrow> nat \<times> gateway" where
  "reconcileOutbox u staleSeconds s =
    (let s1 = bury_poisoned u s;
         rows = take 500 (filter (undelivered u staleSeconds) (gw_outbox s1));
         s2 = fold (\<lambda>x. send_job u (OutboxDeliverJob (ox_id x))) rows s1
     in (length rows,
         s2\<lparr>gw_outbox := update_where (\<lambda>x. ox_id x \<in> ox_id ` set rows \<and> ox_status x = OPending)
              (\<lambda>x. x\<lparr>ox_nextAttemptAt := u_now u\<rparr>) (gw_outbox s2)\<rparr>))"

subsection \<open>What happens to an item\<close>

text \<open>An item keeps what it is, its attempts only grow, and a sent one stays as it is.\<close>

definition same_item :: "outbox_row \<Rightarrow> outbox_row \<Rightarrow> bool" where
  "same_item x y \<longleftrightarrow>
    ox_id y = ox_id x \<and> ox_destination y = ox_destination x \<and> ox_payload y = ox_payload x \<and>
    ox_idempotencyKey y = ox_idempotencyKey x \<and> ox_createdAt y = ox_createdAt x"

definition item_evolves :: "outbox_row \<Rightarrow> outbox_row \<Rightarrow> bool" where
  "item_evolves x y \<longleftrightarrow> same_item x y \<and> ox_attempts x \<le> ox_attempts y \<and>
    (ox_status x = OSent \<longrightarrow> y = x)"

text \<open>Only a sent item has a receipt, and every item its own key.\<close>

definition item_ok :: "outbox_row \<Rightarrow> bool" where
  "item_ok x \<longleftrightarrow> (ox_receipt x \<noteq> None \<longrightarrow> ox_status x = OSent)"

definition outbox_ok :: "gateway \<Rightarrow> bool" where
  "outbox_ok s \<longleftrightarrow> distinct (map ox_idempotencyKey (gw_outbox s)) \<and> (\<forall>x \<in> set (gw_outbox s). item_ok x)"

definition keeps_outbox :: "gateway \<Rightarrow> gateway \<Rightarrow> bool" where
  "keeps_outbox s s' \<longleftrightarrow> (outbox_ok s \<longrightarrow> outbox_ok s' \<and> evolves item_evolves (gw_outbox s) (gw_outbox s'))"

lemma item_evolves_refl [simp]: "item_evolves x x"
  by (simp add: item_evolves_def same_item_def)

lemma item_evolves_trans: "item_evolves x y \<Longrightarrow> item_evolves y z \<Longrightarrow> item_evolves x z"
  by (auto simp: item_evolves_def same_item_def)

lemma keeps_outbox_trans: "keeps_outbox s t \<Longrightarrow> keeps_outbox t v \<Longrightarrow> keeps_outbox s v"
  unfolding keeps_outbox_def using evolves_trans [where P = item_evolves] item_evolves_trans by blast

lemma same_outbox_keeps: "gw_outbox s' = gw_outbox s \<Longrightarrow> keeps_outbox s s'"
  by (simp add: keeps_outbox_def outbox_ok_def evolves_refl)

lemma growth_keeps_outbox: "outbox_grows s s' \<Longrightarrow> keeps_outbox s s'"
  by (auto simp: keeps_outbox_def outbox_ok_def outbox_grows_def fresh_item_def item_ok_def evolves_append)

lemma items_update:
  assumes "\<And>x. P x \<Longrightarrow> item_ok x \<Longrightarrow> item_evolves x (f x) \<and> item_ok (f x)"
    and "gw_outbox s' = update_where P f (gw_outbox s)"
  shows "keeps_outbox s s'"
proof -
  have "map ox_idempotencyKey (update_where P f (gw_outbox s)) = map ox_idempotencyKey (gw_outbox s)"
    if "\<forall>x \<in> set (gw_outbox s). item_ok x"
    using that assms(1) by (auto simp: update_where_def item_evolves_def same_item_def)
  moreover have "item_ok x" if "\<forall>x \<in> set (gw_outbox s). item_ok x" "x \<in> set (update_where P f (gw_outbox s))" for x
    using that assms(1) by (auto simp: set_update_where)
  moreover have "evolves item_evolves (gw_outbox s) (update_where P f (gw_outbox s))"
    if "\<forall>x \<in> set (gw_outbox s). item_ok x"
    using that assms(1) by (auto intro!: evolves_update)
  ultimately show ?thesis unfolding keeps_outbox_def outbox_ok_def assms(2) by simp
qed

lemma claim_keeps: "keeps_outbox s (snd (claim_item u l i s))"
  by (rule items_update [where P = "claimable (u_now u) i" and f = "claimed_row (u_now u + int l * 1000)"])
    (auto simp: claim_item_def Let_def claimable_def claimed_row_def item_evolves_def same_item_def item_ok_def)

lemma sent_keeps: "keeps_outbox s (snd (settle_sent u i n r s))"
  by (rule items_update) (auto simp: settle_sent_def owned_def item_evolves_def same_item_def item_ok_def)

lemma failed_keeps: "keeps_outbox s (snd (settle_failed u claimed retryable error s))"
proof -
  let ?f = "\<lambda>x. x\<lparr>ox_status := (if \<not> retryable \<or> ox_maxAttempts claimed \<le> ox_attempts claimed then ODead else OPending),
      ox_lockedUntil := None, ox_lastErrorRedacted := Some (u_redact u error),
      ox_nextAttemptAt := u_now u + int (retryDelaySeconds (ox_attempts claimed)) * 1000\<rparr>"
  let ?s1 = "s\<lparr>gw_outbox := update_where (owned (ox_id claimed) (ox_attempts claimed)) ?f (gw_outbox s)\<rparr>"
  have 1: "keeps_outbox s ?s1"
    by (rule items_update [where P = "owned (ox_id claimed) (ox_attempts claimed)" and f = ?f])
      (auto simp: owned_def item_evolves_def same_item_def item_ok_def)
  have 2: "keeps_outbox ?s1 (outbox_dead u i k n m ?s1)" for i k n m
    by (rule same_outbox_keeps) (simp add: outbox_dead_def audit_def)
  show ?thesis
    using 1 keeps_outbox_trans [OF 1 2] same_outbox_keeps [of s s] by (auto simp: settle_failed_def Let_def)
qed

lemma dead_fold_outbox [simp]: "gw_outbox (fold (\<lambda>x. outbox_dead u (i x) (k x) (n x) (m x)) xs s) = gw_outbox s"
  by (induction xs arbitrary: s) (simp_all add: outbox_dead_def audit_def)

lemma jobs_fold_outbox [simp]: "gw_outbox (fold (\<lambda>x. send_job u (j x)) xs s) = gw_outbox s"
  by (induction xs arbitrary: s) simp_all

lemma reconcile_keeps: "keeps_outbox s (snd (reconcileOutbox u stale s))"
proof -
  have 1: "keeps_outbox s (bury_poisoned u s)"
    by (rule items_update [where P = "poisoned (u_now u)"])
      (auto simp: bury_poisoned_def poisoned_def lease_expired_def item_evolves_def same_item_def item_ok_def)
  have 2: "keeps_outbox t (snd (n, t'\<lparr>gw_outbox := update_where (\<lambda>x. Q x \<and> ox_status x = OPending)
      (\<lambda>x. x\<lparr>ox_nextAttemptAt := v\<rparr>) (gw_outbox t')\<rparr>))" if "gw_outbox t' = gw_outbox t" for t t' n Q v
    by (rule items_update [where P = "\<lambda>x. Q x \<and> ox_status x = OPending"])
      (auto simp: that item_evolves_def same_item_def item_ok_def)
  show ?thesis unfolding reconcileOutbox_def Let_def by (rule keeps_outbox_trans [OF 1 2]) simp
qed

interpretation claim_fx: core_effect "\<lambda>s. snd (claim_item u l i s)" for u l i
  by unfold_locales (simp_all add: claim_item_def Let_def)

interpretation sent_fx: core_effect "\<lambda>s. snd (settle_sent u i n r s)" for u i n r
  by unfold_locales (simp_all add: settle_sent_def)

interpretation failed_fx: core_effect "\<lambda>s. snd (settle_failed u claimed retryable error s)" for u claimed retryable error
  by unfold_locales (simp_all add: settle_failed_def Let_def outbox_dead_def audit_def)

lemma delivery_decides_nothing [simp]:
  "decision_log (snd (claim_item u l i s)) = decision_log s"
  "decision_log (snd (settle_sent u i n r s)) = decision_log s"
  "decision_log (snd (settle_failed u claimed retryable error s)) = decision_log s"
  by (simp_all add: claim_item_def settle_sent_def settle_failed_def Let_def outbox_dead_def)

lemma retryDelaySeconds_bounds: "retryDelaySeconds n \<le> 300 \<and> (1 \<le> n \<longrightarrow> 5 \<le> retryDelaySeconds n)"
  by (simp add: retryDelaySeconds_def)

end
