(* ===== verification/Authority.thy ===== *)
theory Authority
  imports Approval_Safety Outbox
begin

text \<open>
  The three readings of \<open>approval_protocol\<close>: the approval use cases keep the control plane consistent; they
  keep every tool action backed by a granted request, decided by one of its approvers and carrying exactly
  the approved action, and never revise a decision (\<open>authorised\<close>, \<open>decisions_evolve\<close>); and they keep the
  delivered cards and the answered replies.
\<close>

subsection \<open>The authority behind an action\<close>

definition approval_ok :: "approval_row \<Rightarrow> bool" where
  "approval_ok a \<longleftrightarrow> (aq_status a = APending \<longrightarrow> fresh_request a) \<and> (aq_status a = AGranted \<longrightarrow> granted_by_approver a)"

definition authorised :: "gateway \<Rightarrow> bool" where
  "authorised s \<longleftrightarrow>
    distinct (map aq_id (gw_approvals s)) \<and> distinct (map ta_id (gw_toolActions s)) \<and>
    distinct (map ta_approvalId (gw_toolActions s)) \<and> (\<forall>a \<in> set (gw_approvals s). approval_ok a) \<and>
    (\<forall>t \<in> set (gw_toolActions s). \<exists>a \<in> set (gw_approvals s). action_for a t)"

definition action_evolves :: "tool_action_row \<Rightarrow> tool_action_row \<Rightarrow> bool" where
  "action_evolves t t' \<longleftrightarrow> same_action t t' \<and> onward (ta_status t) (ta_status t')"

definition decisions_evolve :: "gateway \<Rightarrow> gateway \<Rightarrow> bool" where
  "decisions_evolve s s' \<longleftrightarrow>
    evolves approval_requests_guard (gw_approvals s) (gw_approvals s') \<and>
    evolves action_evolves (gw_toolActions s) (gw_toolActions s')"

definition keeps_authority :: "gateway \<Rightarrow> gateway \<Rightarrow> bool" where
  "keeps_authority s s' \<longleftrightarrow> (authorised s \<longrightarrow> authorised s' \<and> decisions_evolve s s')"

lemma guard_refl [simp]: "approval_requests_guard a a"
  by (simp add: approval_requests_guard_def same_request_def written_once_def)

lemma written_once_trans: "written_once a b \<Longrightarrow> written_once b c \<Longrightarrow> written_once a c"
  by (auto simp: written_once_def)

lemma same_request_trans: "same_request a b \<Longrightarrow> same_request b c \<Longrightarrow> same_request a c"
  by (simp add: same_request_def)

lemma guard_trans: "approval_requests_guard a b \<Longrightarrow> approval_requests_guard b c \<Longrightarrow> approval_requests_guard a c"
  unfolding approval_requests_guard_def using same_request_trans written_once_trans by metis

lemma action_evolves_refl [simp]: "action_evolves t t"
  by (simp add: action_evolves_def same_action_def)

lemma action_evolves_trans: "action_evolves a b \<Longrightarrow> action_evolves b c \<Longrightarrow> action_evolves a c"
  unfolding action_evolves_def same_action_def by (auto intro: onward_trans)

lemma guarded_action_evolves: "tool_actions_guard t t' \<Longrightarrow> action_evolves t t'"
  unfolding tool_actions_guard_def action_evolves_def by (cases "ta_status t"; cases "ta_status t'") auto

lemma decisions_evolve_refl: "decision_log s' = decision_log s \<Longrightarrow> decisions_evolve s s'"
  by (simp add: decisions_evolve_def decision_log_def evolves_refl)

lemma decisions_evolve_trans: "decisions_evolve s t \<Longrightarrow> decisions_evolve t v \<Longrightarrow> decisions_evolve s v"
  unfolding decisions_evolve_def
  using evolves_trans [where P = approval_requests_guard] evolves_trans [where P = action_evolves]
    guard_trans action_evolves_trans by blast

lemma keeps_authority_refl: "keeps_authority s s"
  by (simp add: keeps_authority_def decisions_evolve_refl)

lemma keeps_authority_trans: "keeps_authority s t \<Longrightarrow> keeps_authority t v \<Longrightarrow> keeps_authority s v"
  unfolding keeps_authority_def using decisions_evolve_trans by blast

lemma undecided_keeps_authority: "undecided s s' \<Longrightarrow> keeps_authority s s'"
  unfolding undecided_def new_requests_def keeps_authority_def authorised_def decisions_evolve_def
  by (auto simp: evolves_append evolves_refl approval_ok_def fresh_request_def bex_Un)

text \<open>What an update of the approvals table must respect.\<close>

lemma guarded_update:
  assumes "approval_ok a" and "ends_request a a' \<or> marks_resolved a a'"
  shows "approval_requests_guard a a' \<and> approval_ok a' \<and> aq_id a' = aq_id a \<and> (action_for a t \<longrightarrow> action_for a' t)"
  using assms
  unfolding ends_request_def marks_resolved_def approval_requests_guard_def same_request_def written_once_def
    approval_ok_def fresh_request_def granted_by_approver_def action_for_def
  by auto

lemma approvals_update:
  assumes ok: "authorised s" and P: "\<And>a. a \<in> set (gw_approvals s) \<Longrightarrow> P a \<Longrightarrow> ends_request a (f a) \<or> marks_resolved a (f a)"
  shows "authorised (s\<lparr>gw_approvals := update_where P f (gw_approvals s)\<rparr>) \<and>
    decisions_evolve s (s\<lparr>gw_approvals := update_where P f (gw_approvals s)\<rparr>)"
proof
  note U = guarded_update [OF _ P]
  have ok': "approval_ok a" if "a \<in> set (gw_approvals s)" for a using ok that by (simp add: authorised_def)
  have "map aq_id (update_where P f (gw_approvals s)) = map aq_id (gw_approvals s)"
    using U ok' by (auto simp: update_where_def)
  moreover have "approval_ok a" if "a \<in> set (update_where P f (gw_approvals s))" for a
    using that U ok' by (auto simp: set_update_where)
  moreover have "\<exists>a \<in> set (update_where P f (gw_approvals s)). action_for a t" if "t \<in> set (gw_toolActions s)" for t
  proof -
    obtain a where "a \<in> set (gw_approvals s)" "action_for a t" using ok \<open>t \<in> _\<close> by (auto simp: authorised_def)
    then show ?thesis
      using U [of a t] ok' by (cases "P a") (auto simp: set_update_where intro!: bexI [of _ "if P a then f a else a"])
  qed
  ultimately show "authorised (s\<lparr>gw_approvals := update_where P f (gw_approvals s)\<rparr>)"
    using ok by (simp add: authorised_def)
  show "decisions_evolve s (s\<lparr>gw_approvals := update_where P f (gw_approvals s)\<rparr>)"
    using U ok' by (auto simp: decisions_evolve_def intro!: evolves_update evolves_refl)
qed

lemma actions_update:
  assumes ok: "authorised s" and P: "\<And>t. t \<in> set (gw_toolActions s) \<Longrightarrow> P t \<Longrightarrow> tool_actions_guard t (g t)"
  shows "authorised (s\<lparr>gw_toolActions := update_where P g (gw_toolActions s)\<rparr>) \<and>
    decisions_evolve s (s\<lparr>gw_toolActions := update_where P g (gw_toolActions s)\<rparr>)"
proof
  have same: "same_action t (g t)" if "t \<in> set (gw_toolActions s)" "P t" for t using P [OF that] by (simp add: tool_actions_guard_def)
  then have "map ta_id (update_where P g (gw_toolActions s)) = map ta_id (gw_toolActions s)"
    "map ta_approvalId (update_where P g (gw_toolActions s)) = map ta_approvalId (gw_toolActions s)"
    by (auto simp: update_where_def same_action_def)
  moreover have "\<exists>a \<in> set (gw_approvals s). action_for a t" if "t \<in> set (update_where P g (gw_toolActions s))" for t
    using that ok same by (fastforce simp: authorised_def set_update_where action_for_def same_action_def split: if_splits)
  ultimately show "authorised (s\<lparr>gw_toolActions := update_where P g (gw_toolActions s)\<rparr>)"
    using ok by (simp add: authorised_def)
  show "decisions_evolve s (s\<lparr>gw_toolActions := update_where P g (gw_toolActions s)\<rparr>)"
    using P by (auto simp: decisions_evolve_def guarded_action_evolves intro!: evolves_update evolves_refl)
qed

lemma unique_by_key: "distinct (map k xs) \<Longrightarrow> x \<in> set xs \<Longrightarrow> y \<in> set xs \<Longrightarrow> k x = k y \<Longrightarrow> x = y"
  by (auto simp: distinct_map inj_on_def)

interpretation authority: approval_protocol keeps_authority u td for u td
proof
  show "keeps_authority s (h s)" if "core_effect h" "decision_log (h s) = decision_log s" "outbox_grows s (h s)" for h s
    by (rule undecided_keeps_authority [OF undecided_same [OF that(2,3)]])
  show "keeps_authority s s'" if "ingestInTransaction u td e s = Inr (r, s')" for e s r s'
    by (rule undecided_keeps_authority [OF ingest_undecided [OF that]])
  show "keeps_authority s (update_approval (aq_id a) f s)"
    if "a \<in> set (gw_approvals s)" "ends_request a (f a) \<or> marks_resolved a (f a)" for a s f
    unfolding keeps_authority_def update_approval_def
    using approvals_update [of s "\<lambda>x. aq_id x = aq_id a" f] unique_by_key [of aq_id "gw_approvals s"] that
    by (auto simp: authorised_def)
  show "keeps_authority s (s\<lparr>gw_approvals := update_where P f (gw_approvals s)\<rparr>)" if "\<And>a. P a \<Longrightarrow> ends_request a (f a)" for P f s
    using approvals_update [of s P f] that by (simp add: keeps_authority_def)
  show "keeps_authority s (update_action (ta_id peek) g s)"
    if "t \<in> set (gw_toolActions s)" "peek \<in> set (gw_toolActions s)" "ta_approvalId peek = ta_approvalId t"
      "tool_actions_guard t (g t)" for t peek s g
    unfolding keeps_authority_def update_action_def
  proof
    assume ok: "authorised s"
    then have "peek = t" using unique_by_key [of ta_approvalId "gw_toolActions s"] that(1-3) by (auto simp: authorised_def)
    with ok have "x = t" if "x \<in> set (gw_toolActions s)" "ta_id x = ta_id peek" for x
      using unique_by_key [of ta_id "gw_toolActions s" x t] that \<open>t \<in> _\<close> by (auto simp: authorised_def)
    with actions_update [OF ok, of "\<lambda>x. ta_id x = ta_id peek" g] that(4)
    show "authorised (s\<lparr>gw_toolActions := update_where (\<lambda>t. ta_id t = ta_id peek) g (gw_toolActions s)\<rparr>) \<and>
        decisions_evolve s (s\<lparr>gw_toolActions := update_where (\<lambda>t. ta_id t = ta_id peek) g (gw_toolActions s)\<rparr>)" by blast
  qed
  show "keeps_authority s (s\<lparr>gw_toolActions := update_where Q g (gw_toolActions s)\<rparr>)" if "\<And>t. Q t \<Longrightarrow> tool_actions_guard t (g t)" for Q g s
    using actions_update [of s Q g] that by (simp add: keeps_authority_def)
  show "keeps_authority s s'" if "a \<in> set (gw_approvals s)" "granted_by_approver a" "action_for a t" "insert_action t s = Inr s'" for a s t s'
    using that by (auto simp: keeps_authority_def authorised_def decisions_evolve_def insert_action_def list_ex_iff
        evolves_append evolves_refl split: if_splits) blast+
  show "keeps_authority s (s\<lparr>gw_replies := gw_replies s @ [y]\<rparr>)" for s y
    by (simp add: keeps_authority_def authorised_def decisions_evolve_def evolves_refl)
qed (auto intro: keeps_authority_refl keeps_authority_trans)

subsection \<open>Consistency\<close>

definition keeps_consistency :: "(nat \<Rightarrow> string) \<Rightarrow> gateway \<Rightarrow> gateway \<Rightarrow> bool" where
  "keeps_consistency uuid s s' \<longleftrightarrow> (inj uuid \<and> consistent uuid s \<longrightarrow> consistent uuid s')"

interpretation consistency: approval_protocol "keeps_consistency (u_uuid u)" u td for u td
proof
  show "keeps_consistency (u_uuid u) s (h s)" if "core_effect h" for h s
    using core_effect.keeps_consistent [OF that] by (simp add: keeps_consistency_def)
  show "keeps_consistency (u_uuid u) s s'" if "ingestInTransaction u td e s = Inr (r, s')" for e s r s'
    using ingestInTransaction_consistent [OF _ _ that] by (simp add: keeps_consistency_def)
  show "keeps_consistency (u_uuid u) s s'" if "insert_action t s = Inr s'" for t s s'
    using that by (auto simp: keeps_consistency_def insert_action_def split: if_splits elim!: consistent_same)
qed (auto simp: keeps_consistency_def update_approval_def update_action_def elim!: consistent_same)

subsection \<open>Cards and replies\<close>

definition keeps_cards :: "gateway \<Rightarrow> gateway \<Rightarrow> bool" where
  "keeps_cards s s' \<longleftrightarrow> outbox_grows s s' \<and> set (gw_replies s) \<subseteq> set (gw_replies s')"

interpretation cards: approval_protocol keeps_cards u td for u td
proof
  show "keeps_cards s s2" if "keeps_cards s s1" "keeps_cards s1 s2" for s s1 s2
    using that outbox_grows_trans by (auto simp: keeps_cards_def)
  show "keeps_cards s s'" if "ingestInTransaction u td e s = Inr (r, s')" for e s r s'
    using ingest_undecided [OF that] by (simp add: keeps_cards_def undecided_def)
qed (auto simp: keeps_cards_def update_approval_def update_action_def insert_action_def outbox_grows_same decision_log_def
    split: if_splits)

lemma keeps_card_lookup:
  assumes "keeps_cards s s'" and "approvalByCardPost s rootId key = Card i cpost"
  shows "approvalByCardPost s' rootId key = Card i cpost"
proof -
  obtain x where x: "card_row s rootId = Some x" "i = drop (length CARD_KEY_PREFIX) (ox_idempotencyKey x)"
    "receiptOf (ox_receipt x) = Some cpost"
    using assms(2) by (cases "card_row s rootId") (auto simp: approvalByCardPost_def split: option.splits if_splits)
  obtain items where "gw_outbox s' = gw_outbox s @ items" using assms(1) by (auto simp: keeps_cards_def outbox_grows_def)
  moreover have "find P xs = Some y \<Longrightarrow> find P (xs @ ys) = Some y" for P xs ys and y :: outbox_row
    by (induction xs) (auto split: if_splits)
  ultimately have "card_row s' rootId = Some x" using x(1) by (simp add: card_row_def)
  with x(2,3) show ?thesis by (simp add: approvalByCardPost_def)
qed

subsection \<open>Runs and operators decide nothing\<close>

lemma persistMessages_undecided: "undecided s (persistMessages u run agent ids scope n ms s)"
proof (induction ms arbitrary: n s)
  case (Cons m ms)
  show ?case
    by (simp, rule undecided_trans [OF undecided_same [OF outbox_fx.decisions outbox_fx.outbox_kept] Cons.IH])
qed (simp add: undecided_same outbox_grows_same)

lemma publish_result_undecided: "undecided s (publish_result u cp run agent snapshot result scope s)"
proof -
  let ?a = "persistArtifacts u run (tr_artifacts result) [] s"
  have "undecided s (snd ?a)" by (rule silent_undecided [OF persistArtifacts_silent])
  also have "undecided (snd ?a) (persistMessages u run agent (fst ?a) scope 0 (tr_publicMessages result) (snd ?a))"
    by (rule persistMessages_undecided)
  also have "undecided \<dots> (publish_result u cp run agent snapshot result scope s)"
    unfolding publish_result_steps
    by (rule silent_undecided [OF silent_trans [OF persistMemory_silent silent_trans [OF persistSession_silent summarise_silent]]])
  finally show ?thesis .
qed

lemma accept_result_undecided:
  assumes "accept_result u td cp run agent snapshot result scope prepared v s = Inr (res, s')"
  shows "undecided s s'"
proof -
  let ?p = "publish_result u cp run agent snapshot result scope s"
  have "silent ?p s'"
  proof (cases "apply_next_state u td cp run agent result scope prepared v ?p")
    case (Inl x)
    with assms apply_next_state_silent(2) show ?thesis by (auto simp: accept_result_def)
  next
    case (Inr s1)
    with assms obtain x where "scheduleAgent u td (ag_id agent) None (finish_run u run result v s1) = Inr (x, s')"
      by (auto simp: accept_result_def split: sum.splits)
    from silent_trans [OF apply_next_state_silent(1) [OF Inr] silent_trans [OF finish_run_silent scheduleAgent_silent [OF this]]]
    show ?thesis .
  qed
  with undecided_trans [OF publish_result_undecided silent_undecided] show ?thesis by blast
qed

lemma applyCompletion_undecided:
  assumes r: "applyCompletion u td cp run agent raw v s = Inr (res, s')"
  shows "undecided s s'"
proof (cases rule: applyCompletion_cases [of u td cp run agent raw v s])
  case (invalid what detail)
  with r silent_undecided [OF silent_trans [OF raise_fx.is_silent applyFailure_silent]] show ?thesis by metis
next
  case denied
  with r silent_undecided [OF deny_result_silent] show ?thesis by metis
next
  case refused
  with r silent_undecided [OF prepare_approval_silent(1)] show ?thesis by metis
next
  case (accepted snapshot result prepared t)
  have "undecided s t"
    using accepted(2) silent_undecided [OF silent_refl] silent_undecided [OF prepare_approval_silent(2)] by metis
  with accepted(1) r accept_result_undecided undecided_trans show ?thesis by metis
qed (use r in simp)

lemma apply_started_silent: "silent s (apply_started u run agent v s)"
  by (auto simp: apply_started_def enqueueRunDeadline_def Let_def
      intro: silent_trans [OF update_run_silent job_fx.is_silent]
        silent_trans [OF silent_trans [OF update_run_silent job_fx.is_silent] setAgentState_silent])

lemma handleRunReport_undecided:
  assumes r: "handleRunReport u td cp report adapter s = Inr (res, s')"
  shows "undecided s s'"
proof (cases "lockRun s (rp_runId report) (Some (rp_agentId report))")
  case None
  with r silent_undecided [OF silent_refl] show ?thesis by (simp add: handleRunReport_def)
next
  case (Some p)
  then obtain run agent where l: "lockRun s (rp_runId report) (Some (rp_agentId report)) = Some (run, agent)" by (cases p) simp
  note 1 = silent_undecided [OF bookUsage_reads(2) [of s u cp report run agent]]
  show ?thesis
    using r l 1 silent_undecided [OF silent_refl [of s]] undecided_trans [OF 1 silent_undecided [OF audit_fx.is_silent]]
      undecided_trans [OF 1 silent_undecided [OF apply_started_silent]]
      undecided_trans [OF 1 silent_undecided [OF applyFailure_silent]] undecided_trans [OF 1 applyCompletion_undecided]
    by (auto simp: handleRunReport_def Let_def split: if_splits report_body.splits)
qed

lemma handleRunTimeout_silent: "handleRunTimeout u td runId attempt s = Inr (res, s') \<Longrightarrow> silent s s'"
  by (auto simp: handleRunTimeout_def split: option.splits if_splits dest: applyFailure_silent)

lemma failLostAttempt_silent: "failLostAttempt u td observed detail s = Inr (res, s') \<Longrightarrow> silent s s'"
  by (auto simp: failLostAttempt_def split: option.splits if_splits dest: applyFailure_silent)

lemma cancel_active_silent: "silent s (cancel_active u a reason s)"
  by (rule silentI) (simp_all add: cancel_active_def)

lemma release_fold_silent:
  "silent s (fold (\<lambda>r s. audit u actor x y (rn_id r) d (release_inbox (rn_id r) s)) rs s)"
proof (induction rs arbitrary: s)
  case (Cons r rs)
  from silent_trans [OF silent_trans [OF release_inbox_silent audit_fx.is_silent] Cons] show ?case by simp
qed simp

lemma pauseInTransaction_silent:
  assumes "pauseInTransaction u a actor reason s = Inr (res, s')"
  shows "silent s s'"
proof -
  note step = silent_trans [OF silent_trans [OF silent_trans [OF cancel_active_silent release_fold_silent]
      setAgentState_silent] audit_fx.is_silent]
  show ?thesis
    using assms step by (auto simp: pauseInTransaction_def Let_def split: option.splits if_splits sum.splits)
qed

lemma pause_all_silent: "pause_all u actor ids jobs s = Inr (res, s') \<Longrightarrow> silent s s'"
proof (induction ids arbitrary: jobs s)
  case (Cons i ids)
  then show ?case by (auto split: sum.splits dest: silent_trans [OF pauseInTransaction_silent Cons.IH])
qed simp

lemma resumeAgent_silent: "resumeAgent u td a actor s = Inr (res, s') \<Longrightarrow> silent s s'"
  by (auto simp: resumeAgent_def Let_def split: option.splits if_splits sum.splits
      dest: silent_trans [OF silent_trans [OF setAgentState_silent audit_fx.is_silent] scheduleAgent_silent])

lemma redriveRun_silent: "redriveRun u td runId actor s = Inr (res, s') \<Longrightarrow> silent s s'"
proof -
  have "silent s (reopen_inbox i s)" for i by (rule silentI) (simp_all add: reopen_inbox_def)
  note 1 = silent_trans [OF silent_trans [OF this audit_fx.is_silent] scheduleAgent_silent]
  show "redriveRun u td runId actor s = Inr (res, s') \<Longrightarrow> silent s s'"
    by (auto simp: redriveRun_def Let_def split: option.splits if_splits sum.splits schedule_result.splits dest: 1)
qed

lemma routeGrantedMention_silent: "routeGrantedMention u td source a c p s = Inr (res, s') \<Longrightarrow> silent s s'"
  by (auto simp: routeGrantedMention_def Let_def simp del: apply_routes.simps split: option.splits prod.splits sum.splits list.splits if_splits
      dest: apply_routes_silent silent_trans [OF apply_routes_silent scheduleAgent_silent])

lemma same_decisions_keep_authority: "decision_log s' = decision_log s \<Longrightarrow> keeps_authority s s'"
  by (simp add: keeps_authority_def decisions_evolve_refl authorised_def decision_log_def)

lemma applyEnabled_authority:
  assumes "applyEnabled u a st enabled actor s = Inr (res, s')"
  shows "keeps_authority s s'"
proof -
  define reason where "reason = (if enabled then ''enabled'' else ''disabled'') @ '' by '' @ actor"
  define s2 where "s2 = snd (withdrawOpenApprovals u (Some a) reason False (snd (cancelActiveWaits u a s)))"
  have "keeps_authority s (snd (cancelActiveWaits u a s))"
    by (rule same_decisions_keep_authority) (simp add: cancelActiveWaits_def Let_def)
  from keeps_authority_trans [OF this authority.withdraw_step] have s2: "keeps_authority s s2" unfolding s2_def .
  have set_state: "keeps_authority t (setAgentState u a st dst reason t)" for t dst
    by (rule same_decisions_keep_authority) simp
  have "s' = s \<or> (\<exists>dst. s' = setAgentState u a st dst reason s2) \<or> (\<exists>dst. s' = setAgentState u a st dst reason s)"
    using assms unfolding applyEnabled_def Let_def reason_def [symmetric] case_prod_unfold s2_def [symmetric]
    by (auto split: if_splits option.splits sum.splits)
  then show ?thesis using keeps_authority_refl set_state keeps_authority_trans [OF s2 set_state] by auto
qed

interpretation dead_fx: quiet_effect "outbox_dead u i k n m" for u i k n m
  unfolding outbox_dead_def [abs_def] by (rule audit_fx.quiet_effect_axioms)

interpretation deads_fx: core_effect "fold (\<lambda>x. outbox_dead u (i x) (k x) (n x) (m x)) xs" for u i k n m xs
  by (rule fold_core_effect) (rule dead_fx.core_effect_axioms)

lemma reconcile_frame:
  "gw_agents (snd (reconcileOutbox u stale s)) = gw_agents s" "gw_runs (snd (reconcileOutbox u stale s)) = gw_runs s"
  "gw_inbox (snd (reconcileOutbox u stale s)) = gw_inbox s" "gw_ids s \<le> gw_ids (snd (reconcileOutbox u stale s))"
proof -
  show "gw_agents (snd (reconcileOutbox u stale s)) = gw_agents s" "gw_runs (snd (reconcileOutbox u stale s)) = gw_runs s"
    "gw_inbox (snd (reconcileOutbox u stale s)) = gw_inbox s"
    by (simp_all add: reconcileOutbox_def bury_poisoned_def Let_def)
  have "gw_ids s \<le> gw_ids (bury_poisoned u s)"
    unfolding bury_poisoned_def by (rule order_trans [OF _ deads_fx.ids_mono]) simp
  then show "gw_ids s \<le> gw_ids (snd (reconcileOutbox u stale s))"
    unfolding reconcileOutbox_def Let_def snd_conv by (simp add: order_trans [OF _ jobs_fx.ids_mono])
qed

lemma dead_fold_decisions: "decision_log (fold (\<lambda>x. outbox_dead u (i x) (k x) (n x) (m x)) xs s) = decision_log s"
  by (induction xs arbitrary: s) simp_all

lemma reconcile_decides_nothing: "decision_log (snd (reconcileOutbox u stale s)) = decision_log s"
  by (simp add: reconcileOutbox_def bury_poisoned_def Let_def jobs_decide_nothing dead_fold_decisions)

lemma killAll_authority:
  assumes "killAll u actor s = Inr (res, s')"
  shows "keeps_authority s s'"
proof -
  let ?s2 = "audit u actor ''gateway.kill_all'' ''gateway'' ''controls'' [] (s\<lparr>gw_killSwitch := True\<rparr>)"
  have 1: "keeps_authority s ?s2" by (rule same_decisions_keep_authority) simp
  have "silent (snd (withdrawOpenApprovals u None (''kill-all by '' @ actor) False ?s2)) s'"
    using assms by (auto simp: killAll_def Let_def case_prod_unfold dest: pause_all_silent)
  from keeps_authority_trans [OF keeps_authority_trans [OF 1 authority.withdraw_step] undecided_keeps_authority [OF silent_undecided [OF this]]]
  show ?thesis .
qed

lemma withdraw_outbox: "gw_outbox (snd (withdrawOpenApprovals u a r p s)) = gw_outbox s"
  by (simp add: withdrawOpenApprovals_def cancel_pending_def Let_def audit_def)

lemma applyEnabled_outbox: "applyEnabled u a st enabled actor s = Inr (res, s') \<Longrightarrow> gw_outbox s' = gw_outbox s"
  by (auto simp: applyEnabled_def Let_def case_prod_unfold withdraw_outbox cancelActiveWaits_def
      split: if_splits option.splits sum.splits)

lemma killAll_outbox:
  assumes "killAll u actor s = Inr (res, s')"
  shows "outbox_grows s s'"
proof -
  let ?s3 = "snd (withdrawOpenApprovals u None (''kill-all by '' @ actor) False
      (audit u actor ''gateway.kill_all'' ''gateway'' ''controls'' [] (s\<lparr>gw_killSwitch := True\<rparr>)))"
  have "silent ?s3 s'" using assms by (auto simp: killAll_def Let_def case_prod_unfold dest: pause_all_silent)
  moreover have "gw_outbox ?s3 = gw_outbox s" by (simp add: withdraw_outbox) (simp add: audit_def)
  ultimately show ?thesis by (simp add: silent_def undecided_def outbox_grows_def)
qed

end
