(* ===== verification/Control_Plane.thy ===== *)
theory Control_Plane
  imports Authority
begin

text \<open>
  The control plane as a whole: its commands, one per use case, each in a transaction; the states they can
  reach, with the invariant they keep whatever arrives and in whatever order; the gates every started run
  passed; and the kill switch.
\<close>

subsection \<open>Commands and reachable states\<close>

text \<open>One constructor per use case that changes the modelled tables, with the arguments its caller gives.\<close>

datatype command =
    IngestEvent gateway_event
  | GrantedMention string string string string
  | RunReport run_report runtime_adapter_id
  | RunTimeout string nat
  | LostAttempt observed_attempt string
  | ScheduleWork string
  | PauseAgent string string
  | ResumeAgent string string
  | CancelRun string string
  | RedriveRun string string
  | SetEnabled string bool string
  | KillAll string
  | ReleaseKillSwitch string
  | RedriveOutbox string string
  | ReplyToCard approval_reply
  | ReportAction string tool_report
  | SweepApproval string
  | LateCardNotice string
  | WaitTimeout string
  | RevokeActions
  | WithdrawPending string
  | SettleAction string manual_outcome string string
  | BeginAction "string list" string nat string
  | ClaimItem nat string
  | RecordSent string nat json
  | RecordFailure outbox_row bool string
  | ReconcileOutbox nat

definition discard :: "'a uow_result \<Rightarrow> unit uow_result" where
  "discard r = (case r of Inl e \<Rightarrow> Inl e | Inr (_, s) \<Rightarrow> Inr ((), s))"

fun perform :: "uow \<Rightarrow> turn_deps \<Rightarrow> completion_deps \<Rightarrow> grant_deps \<Rightarrow> command \<Rightarrow> gateway \<Rightarrow> unit uow_result" where
  "perform u td cp gd (IngestEvent e) s = discard (ingestEvent u td e s)"
| "perform u td cp gd (GrantedMention source a channelId postId) s =
    discard (routeGrantedMention u td source a channelId postId s)"
| "perform u td cp gd (RunReport report adapter) s = discard (handleRunReport u td cp report adapter s)"
| "perform u td cp gd (RunTimeout runId attempt) s = discard (handleRunTimeout u td runId attempt s)"
| "perform u td cp gd (LostAttempt observed detail) s = discard (failLostAttempt u td observed detail s)"
| "perform u td cp gd (ScheduleWork a) s = discard (scheduleAgent u td a None s)"
| "perform u td cp gd (PauseAgent a actor) s = discard (pauseAgent u a actor s)"
| "perform u td cp gd (ResumeAgent a actor) s = discard (resumeAgent u td a actor s)"
| "perform u td cp gd (CancelRun runId actor) s = discard (cancelRun u runId actor s)"
| "perform u td cp gd (RedriveRun runId actor) s = discard (redriveRun u td runId actor s)"
| "perform u td cp gd (SetEnabled a enabled actor) s =
    (case lockAgent s a of
       None \<Rightarrow> Inr ((), s) | Some agent \<Rightarrow> applyEnabled u a (ag_state agent) enabled actor s)"
| "perform u td cp gd (KillAll actor) s = discard (killAll u actor s)"
| "perform u td cp gd (ReleaseKillSwitch actor) s = Inr ((), releaseKillSwitch u actor s)"
| "perform u td cp gd (RedriveOutbox i actor) s = redriveOutbox u i actor s"
| "perform u td cp gd (ReplyToCard reply) s = discard (handleApprovalReply u td gd reply s)"
| "perform u td cp gd (ReportAction namespace report) s = discard (handleToolReport u td namespace report s)"
| "perform u td cp gd (SweepApproval i) s = discard (sweepOne u td i s)"
| "perform u td cp gd (LateCardNotice i) s = discard (late_notice u i s)"
| "perform u td cp gd (WaitTimeout waitId) s = discard (handleWaitTimeout u td waitId s)"
| "perform u td cp gd RevokeActions s = Inr ((), snd (revokeQueuedActions u gd s))"
| "perform u td cp gd (WithdrawPending reason) s = Inr ((), snd (withdrawOpenApprovals u None reason True s))"
| "perform u td cp gd (SettleAction i outcome actor note) s = discard (settleToolAction u i outcome actor note s)"
| "perform u td cp gd (BeginAction namespaces i attempt hash) s =
    Inr ((), snd (gateway_begin_tool_action (u_now u) (\<lambda>n. n \<in> set namespaces) i attempt hash s))"
| "perform u td cp gd (ClaimItem lease i) s = Inr ((), snd (claim_item u lease i s))"
| "perform u td cp gd (RecordSent i attempts receipt) s = Inr ((), snd (settle_sent u i attempts receipt s))"
| "perform u td cp gd (RecordFailure claimed retryable error) s = Inr ((), snd (settle_failed u claimed retryable error s))"
| "perform u td cp gd (ReconcileOutbox stale) s = Inr ((), snd (reconcileOutbox u stale s))"

text \<open>A gateway before its first command: no work, and no agent busy.\<close>

definition initial :: "gateway \<Rightarrow> bool" where
  "initial s \<longleftrightarrow> gw_runs s = [] \<and> gw_inbox s = [] \<and> gw_approvals s = [] \<and> gw_toolActions s = [] \<and> distinct (map ag_id (gw_agents s)) \<and>
    list_all (\<lambda>a. \<not> busy (ag_state a)) (gw_agents s)"

text \<open>Every command runs in a transaction of its own: one that throws leaves the state as it was. Each has
  its own clock, randomness and turn assembly; they share the supply of ids.\<close>

inductive reachable :: "(nat \<Rightarrow> string) \<Rightarrow> gateway \<Rightarrow> bool" for uuid where
  reachable_initial: "initial s \<Longrightarrow> reachable uuid s"
| reachable_step: "reachable uuid s \<Longrightarrow> u_uuid u = uuid \<Longrightarrow>
    reachable uuid (snd (withTransaction (perform u td cp gd c s) s))"

lemma discard_Inr: "discard r = Inr (x, s') \<longleftrightarrow> (\<exists>y. r = Inr (y, s'))"
  by (auto simp: discard_def split: sum.splits)

lemma perform_consistent:
  assumes "consistent (u_uuid u) s" and "inj (u_uuid u)" and "perform u td cp gd c s = Inr (x, s')"
  shows "consistent (u_uuid u) s'"
proof (cases c)
  case (IngestEvent e)
  with assms(3) ingestEvent_consistent [OF assms(1,2)] show ?thesis by (auto simp: discard_Inr)
next
  case (GrantedMention source a channelId postId)
  with assms(3) routeGrantedMention_consistent [OF assms(1,2)] show ?thesis by (auto simp: discard_Inr)
next
  case (RunReport report adapter)
  with assms(3) handleRunReport_consistent [OF assms(1,2)] show ?thesis by (auto simp: discard_Inr)
next
  case (RunTimeout runId attempt)
  with assms(3) handleRunTimeout_consistent [OF assms(1)] show ?thesis by (auto simp: discard_Inr)
next
  case (LostAttempt observed detail)
  with assms(3) failLostAttempt_consistent [OF assms(1)] show ?thesis by (auto simp: discard_Inr)
next
  case (ScheduleWork a)
  with assms(3) scheduleAgent_consistent [OF assms(1,2)] show ?thesis by (auto simp: discard_Inr)
next
  case (PauseAgent a actor)
  with assms(3) pauseInTransaction_consistent [OF assms(1)] show ?thesis by (auto simp: discard_Inr pauseAgent_def)
next
  case (ResumeAgent a actor)
  with assms(3) resumeAgent_consistent [OF assms(1,2)] show ?thesis by (auto simp: discard_Inr)
next
  case (CancelRun runId actor)
  with assms(3) cancelRun_consistent [OF assms(1)] show ?thesis by (auto simp: discard_Inr)
next
  case (RedriveRun runId actor)
  with assms(3) redriveRun_consistent [OF assms(1,2)] show ?thesis by (auto simp: discard_Inr)
next
  case (SetEnabled a enabled actor)
  with assms(3) applyEnabled_consistent [OF assms(1)] assms(1) show ?thesis by (auto simp: discard_Inr split: option.splits)
next
  case (KillAll actor)
  with assms(3) killAll_consistent [OF assms(1)] show ?thesis by (auto simp: discard_Inr)
next
  case (ReleaseKillSwitch actor)
  with assms(3) releaseKillSwitch_consistent [OF assms(1)] show ?thesis by (auto simp: discard_Inr)
next
  case (RedriveOutbox i actor)
  with assms(3) redriveOutbox_consistent [OF assms(1)] show ?thesis by (auto simp: discard_Inr)
next
  case (ReplyToCard reply)
  with assms consistency.handleApprovalReply_step show ?thesis by (auto simp: discard_Inr keeps_consistency_def)
next
  case (ReportAction namespace report)
  with assms consistency.handleToolReport_step show ?thesis by (auto simp: discard_Inr keeps_consistency_def)
next
  case (SweepApproval i)
  with assms consistency.sweepOne_step show ?thesis by (auto simp: discard_Inr keeps_consistency_def)
next
  case (LateCardNotice i)
  with assms consistency.late_notice_step show ?thesis by (auto simp: discard_Inr keeps_consistency_def)
next
  case (WaitTimeout waitId)
  with assms consistency.handleWaitTimeout_step show ?thesis by (auto simp: discard_Inr keeps_consistency_def)
next
  case RevokeActions
  with assms consistency.revokeQueuedActions_step show ?thesis by (auto simp: keeps_consistency_def)
next
  case (WithdrawPending reason)
  with assms consistency.withdraw_step show ?thesis by (auto simp: keeps_consistency_def)
next
  case (SettleAction i outcome actor remark)
  with assms consistency.settleToolAction_step show ?thesis by (auto simp: discard_Inr keeps_consistency_def)
next
  case (BeginAction namespaces i attempt hash)
  with assms consistency.begin_step show ?thesis by (auto simp: keeps_consistency_def)
next
  case (ClaimItem lease i)
  with assms(3) core_effect.keeps_consistent [OF claim_fx.core_effect_axioms assms(1)] show ?thesis by auto
next
  case (RecordSent i attempts receipt)
  with assms(3) core_effect.keeps_consistent [OF sent_fx.core_effect_axioms assms(1)] show ?thesis by auto
next
  case (RecordFailure claimed retryable error)
  with assms(3) core_effect.keeps_consistent [OF failed_fx.core_effect_axioms assms(1)] show ?thesis by auto
next
  case (ReconcileOutbox stale)
  with assms(3) consistent_same [OF assms(1), of "snd (reconcileOutbox u stale s)"] show ?thesis by (auto simp: reconcile_frame)
qed

text \<open>The same commands keep the authority behind every action, and no decision is revised.\<close>

lemma perform_authority:
  assumes "perform u td cp gd c s = Inr (x, s')"
  shows "keeps_authority s s'"
proof -
  note silent_authority = undecided_keeps_authority [OF silent_undecided]
  show ?thesis
  proof (cases c)
    case (IngestEvent e)
    with assms ingest_undecided undecided_keeps_authority show ?thesis
      by (fastforce simp: discard_Inr ingestEvent_def split: sum.splits)
  next
    case (GrantedMention source a channelId postId)
    with assms silent_authority [OF routeGrantedMention_silent] show ?thesis by (auto simp: discard_Inr)
  next
    case (RunReport report adapter)
    with assms undecided_keeps_authority [OF handleRunReport_undecided] show ?thesis by (auto simp: discard_Inr)
  next
    case (RunTimeout runId attempt)
    with assms silent_authority [OF handleRunTimeout_silent] show ?thesis by (auto simp: discard_Inr)
  next
    case (LostAttempt observed detail)
    with assms silent_authority [OF failLostAttempt_silent] show ?thesis by (auto simp: discard_Inr)
  next
    case (ScheduleWork a)
    with assms silent_authority [OF scheduleAgent_silent] show ?thesis by (auto simp: discard_Inr)
  next
    case (PauseAgent a actor)
    with assms silent_authority [OF pauseInTransaction_silent] show ?thesis by (auto simp: discard_Inr pauseAgent_def)
  next
    case (ResumeAgent a actor)
    with assms silent_authority [OF resumeAgent_silent] show ?thesis by (auto simp: discard_Inr)
  next
    case (CancelRun runId actor)
    with assms silent_authority [OF pauseInTransaction_silent] show ?thesis
      by (auto simp: discard_Inr cancelRun_def split: option.splits if_splits)
  next
    case (RedriveRun runId actor)
    with assms silent_authority [OF redriveRun_silent] show ?thesis by (auto simp: discard_Inr)
  next
    case (SetEnabled a enabled actor)
    with assms applyEnabled_authority keeps_authority_refl show ?thesis by (auto split: option.splits)
  next
    case (KillAll actor)
    with assms killAll_authority show ?thesis by (auto simp: discard_Inr)
  next
    case (ReleaseKillSwitch actor)
    with assms show ?thesis by (auto simp: releaseKillSwitch_def intro: same_decisions_keep_authority)
  next
    case (RedriveOutbox i actor)
    with assms show ?thesis
      by (auto simp: redriveOutbox_def Let_def split: if_splits intro!: same_decisions_keep_authority)
  qed (use assms authority.handleApprovalReply_step authority.handleToolReport_step authority.sweepOne_step
      authority.late_notice_step authority.handleWaitTimeout_step authority.revokeQueuedActions_step
      authority.withdraw_step authority.settleToolAction_step authority.begin_step in
      \<open>auto simp: discard_Inr reconcile_decides_nothing intro: same_decisions_keep_authority\<close>)
qed

text \<open>What was sent stays sent, whatever command comes.\<close>

lemma redriveOutbox_keeps: "redriveOutbox u i actor s = Inr (res, s') \<Longrightarrow> keeps_outbox s s'"
  by (rule items_update [where P = "\<lambda>x. ox_id x = i \<and> ox_status x = ODead \<and> \<not> ox_contentExpired x"
        and f = "\<lambda>x. x\<lparr>ox_status := OPending, ox_maxAttempts := ox_attempts x + OUTBOX_REDRIVE_ATTEMPTS,
          ox_nextAttemptAt := u_now u, ox_lockedUntil := None\<rparr>"])
    (auto simp: redriveOutbox_def Let_def audit_def send_job_def item_evolves_def same_item_def item_ok_def split: if_splits)

lemma perform_outbox:
  assumes "perform u td cp gd c s = Inr (x, s')"
  shows "keeps_outbox s s'"
proof -
  have undecided_outbox: "undecided t t' \<Longrightarrow> keeps_outbox t t'" for t t'
    by (simp add: undecided_def growth_keeps_outbox)
  have cards_outbox: "keeps_cards t t' \<Longrightarrow> keeps_outbox t t'" for t t'
    by (simp add: keeps_cards_def growth_keeps_outbox)
  note silent_outbox = undecided_outbox [OF silent_undecided]
  show ?thesis
  proof (cases c)
    case (IngestEvent e)
    with assms ingest_undecided undecided_outbox show ?thesis
      by (fastforce simp: discard_Inr ingestEvent_def split: sum.splits)
  next
    case (GrantedMention source a channelId postId)
    with assms silent_outbox [OF routeGrantedMention_silent] show ?thesis by (auto simp: discard_Inr)
  next
    case (RunReport report adapter)
    with assms undecided_outbox [OF handleRunReport_undecided] show ?thesis by (auto simp: discard_Inr)
  next
    case (RunTimeout runId attempt)
    with assms silent_outbox [OF handleRunTimeout_silent] show ?thesis by (auto simp: discard_Inr)
  next
    case (LostAttempt observed detail)
    with assms silent_outbox [OF failLostAttempt_silent] show ?thesis by (auto simp: discard_Inr)
  next
    case (ScheduleWork a)
    with assms silent_outbox [OF scheduleAgent_silent] show ?thesis by (auto simp: discard_Inr)
  next
    case (PauseAgent a actor)
    with assms silent_outbox [OF pauseInTransaction_silent] show ?thesis by (auto simp: discard_Inr pauseAgent_def)
  next
    case (ResumeAgent a actor)
    with assms silent_outbox [OF resumeAgent_silent] show ?thesis by (auto simp: discard_Inr)
  next
    case (CancelRun runId actor)
    with assms silent_outbox [OF pauseInTransaction_silent] show ?thesis
      by (auto simp: discard_Inr cancelRun_def split: option.splits if_splits)
  next
    case (RedriveRun runId actor)
    with assms silent_outbox [OF redriveRun_silent] show ?thesis by (auto simp: discard_Inr)
  next
    case (SetEnabled a enabled actor)
    with assms applyEnabled_outbox show ?thesis by (auto split: option.splits intro!: same_outbox_keeps)
  next
    case (KillAll actor)
    with assms growth_keeps_outbox [OF killAll_outbox] show ?thesis by (auto simp: discard_Inr)
  next
    case (ReleaseKillSwitch actor)
    with assms show ?thesis by (auto simp: releaseKillSwitch_def audit_def intro!: same_outbox_keeps)
  next
    case (RedriveOutbox i actor)
    with assms redriveOutbox_keeps show ?thesis by auto
  next
    case (WithdrawPending reason)
    with assms show ?thesis by (auto simp: withdraw_outbox intro!: same_outbox_keeps)
  qed (use assms cards.handleApprovalReply_step cards.handleToolReport_step cards.sweepOne_step
      cards.late_notice_step cards.handleWaitTimeout_step cards.revokeQueuedActions_step
      cards.settleToolAction_step cards.begin_step claim_keeps sent_keeps failed_keeps reconcile_keeps in
      \<open>auto simp: discard_Inr intro: cards_outbox\<close>)
qed

lemma initial_consistent: "initial s \<Longrightarrow> consistent uuid s"
proof (rule consistentI)
  assume i: "initial s"
  then show "distinct (map fst (agent_states s))" by (simp add: initial_def agent_states_def comp_def)
  have "\<not> busy st" if "state_of s a = Some st" for a st
  proof -
    from that have "(a, st) \<in> set (agent_states s)" unfolding state_of_def by (rule map_of_SomeD)
    with i show ?thesis by (auto simp: agent_states_def initial_def list_all_iff)
  qed
  with i show "has_active s a \<longleftrightarrow> (\<exists>st. state_of s a = Some st \<and> busy st)" for a
    by (auto simp: has_active_def initial_def)
qed (simp_all add: initial_def)

lemma withTransaction_cases:
  obtains "snd (withTransaction r s) = s" | x s' where "r = Inr (x, s')" "snd (withTransaction r s) = s'"
  by (cases r) (auto simp: withTransaction_def)

lemma reachable_is_consistent:
  assumes "inj uuid" and "reachable uuid s"
  shows "consistent uuid s"
  using assms(2)
proof induction
  case (reachable_step s u td cp gd c)
  then show ?case
    using perform_consistent [of u s td cp gd c] assms(1)
    by (cases "perform u td cp gd c s" s rule: withTransaction_cases) auto
qed (rule initial_consistent)

lemma reachable_is_authorised: "reachable uuid s \<Longrightarrow> authorised s"
proof (induction rule: reachable.induct)
  case (reachable_step s u td cp gd c)
  then show ?case
    using perform_authority [of u td cp gd c s]
    by (cases "perform u td cp gd c s" s rule: withTransaction_cases) (auto simp: keeps_authority_def)
qed (simp add: initial_def authorised_def)

text \<open>C1: the control plane never loses track of its agents. Whatever events, reports, timeouts and operator
  commands arrive, in any order, each in its transaction: run ids stay unique, an agent has at most one run
  in progress and is QUEUED or RUNNING exactly while it has one, no run exceeds its attempts, claimed work
  belongs to a run that is in progress or failed, and pending work to none.\<close>

theorem reachable_consistent:
  assumes "inj uuid" and "reachable uuid s"
  shows "distinct (map rn_id (gw_runs s)) \<and>
    (\<forall>a. length (filter (\<lambda>r. rn_agentId r = a \<and> in_progress r) (gw_runs s)) =
      (if \<exists>st. state_of s a = Some st \<and> busy st then 1 else 0)) \<and>
    (\<forall>r \<in> set (gw_runs s). 1 \<le> rn_attempt r \<and> rn_attempt r \<le> MAX_RUN_ATTEMPTS) \<and>
    (\<forall>i \<in> set (gw_inbox s).
      (ib_status i = IClaimed \<longrightarrow> (\<exists>r \<in> set (gw_runs s).
        ib_runId i = Some (rn_id r) \<and> rn_status r \<in> {RQueued, RRunning, RFailed})) \<and>
      (ib_status i = IPending \<longrightarrow> ib_runId i = None))"
proof -
  note c = reachable_is_consistent [OF assms]
  note D = consistentD [OF c]
  have one: "length (filter (\<lambda>r. rn_agentId r = a \<and> in_progress r) (gw_runs s)) = (if has_active s a then 1 else 0)" for a
  proof -
    let ?rs = "filter (\<lambda>r. rn_agentId r = a \<and> in_progress r) (gw_runs s)"
    have d: "distinct ?rs" using D(2) by (simp add: distinct_map)
    have "r = r'" if "r \<in> set ?rs" "r' \<in> set ?rs" for r r'
      using that D(5) [of r r'] run_unique [OF c, of r r'] by simp
    then have "card (set ?rs) \<le> Suc 0" by (subst card_le_Suc0_iff_eq) blast+
    then have "length ?rs \<le> 1" unfolding distinct_card [OF d] by simp
    moreover have "?rs \<noteq> [] \<longleftrightarrow> has_active s a" by (auto simp: has_active_def filter_empty_conv)
    ultimately show ?thesis by (cases ?rs) auto
  qed
  show ?thesis
  proof (intro conjI allI ballI)
    show "distinct (map rn_id (gw_runs s))" by (rule D(2))
    show "length (filter (\<lambda>r. rn_agentId r = a \<and> in_progress r) (gw_runs s)) =
        (if \<exists>st. state_of s a = Some st \<and> busy st then 1 else 0)" for a
      unfolding one D(6) [symmetric] ..
    show "1 \<le> rn_attempt r" "rn_attempt r \<le> MAX_RUN_ATTEMPTS" if "r \<in> set (gw_runs s)" for r
      using D(4) [OF that] by (simp_all add: attempt_ok_def)
  qed (use D(7) in \<open>auto simp: entry_ok_def open_run_def in_progress_def\<close>)
qed

definition example_grants :: grant_deps where
  "example_grants =
    \<lparr>gd_toolPolicy = (\<lambda>s agent finance. \<lparr>tl_allow = [], tl_requireHumanApproval = [''publish.*''], tl_deny = []\<rparr>),
     gd_customIssues = (\<lambda>s agentId actionType params. [])\<rparr>"

definition example_step :: "command \<Rightarrow> gateway \<Rightarrow> gateway" where
  "example_step c s = snd (withTransaction (perform (example_uow 2000) example_turn example_completion example_grants c s) s)"

lemma example_step_reachable:
  "reachable (u_uuid (example_uow 2000)) s \<Longrightarrow> reachable (u_uuid (example_uow 2000)) (example_step c s)"
  unfolding example_step_def by (erule reachable_step) (rule refl)

lemma example_fresh_reachable: "reachable uuid example_fresh"
  by (rule reachable_initial) (simp add: initial_def example_fresh_def example_agent_def busy_def)

theorem reachable_consistent_witness:
  "distinct (map rn_id (gw_runs (example_step (PauseAgent ''developer'' ''owner'')
    (example_step (IngestEvent example_mention) example_fresh))))"
  using reachable_consistent [OF example_uow_inj
      example_step_reachable [OF example_step_reachable [OF example_fresh_reachable]]] by (rule conjunct1)

subsection \<open>The gates of the scheduler\<close>

lemma build_and_start_Scheduled:
  assumes "build_and_start u td agent rd t claimed trigger s = Inr (Scheduled runId, s')"
  shows "\<exists>input authority ref. start_run u td agent rd t claimed trigger input authority ref (fresh_id u s) s =
    Inr (Scheduled runId, s') \<and> td_inputBytes td input \<le> MAX_TURN_INPUT_BYTES"
  using assms
  by (fastforce simp: build_and_start_def context_unavailable_def Let_def split: if_splits sum.splits)

lemma inbox_step_quota:
  "inbox_step s s' \<Longrightarrow> hourlyQuotaReached u a s' = hourlyQuotaReached u a s"
  by (simp add: inbox_step_def hourlyQuotaReached_def loadActiveConfig_def split: option.split)

lemma pendingRows_mem:
  assumes "pendingRows s a condition n = (i, e) # rest"
  shows "i \<in> set (gw_inbox s) \<and> ib_agentId i = a \<and> ib_status i = IPending \<and> condition i \<and>
    find_event s (ib_eventId i) = Some e"
proof -
  have "(i, e) \<in> set (pendingRows s a condition n)" using assms by simp
  then show ?thesis
    unfolding pendingRows_def by (auto dest!: in_set_takeD split: option.splits)
qed

lemma budgetHoldFor_None:
  assumes "budgetHoldFor u a s = (None, s')"
  shows "s' = s \<and> (\<forall>budgets. Option.bind (loadActiveConfig s) ac_budgets = Some budgets \<longrightarrow>
    budgetHold (Some budgets) (totals (utcDay (u_now u)) (Some a) (gw_usage s))
      (totals (utcDay (u_now u)) None (gw_usage s)) = None)"
  using assms by (auto simp: budgetHoldFor_def Let_def split: option.splits prod.splits)


text \<open>The second agent has a mention in its inbox.\<close>

definition example_pending :: gateway where
  "example_pending = example_fresh
    \<lparr>gw_events := [\<lparr>er_id = ''r'', er_seq = 0, er_event = example_mention, er_payloadHash = ''h'', er_contentHash = None,
       er_senderAgentId = None, er_receivedAt = 1000, er_contentExpired = False\<rparr>],
     gw_inbox := [\<lparr>ib_id = ''r1'', ib_agentId = ''developer'', ib_eventId = ''r'', ib_status = IPending, ib_priority = 5,
       ib_runId = None, ib_waitId = None, ib_createdAt = 1000\<rparr>],
     gw_directory := [], gw_ids := 2, gw_seq := 1\<rparr>"

lemma example_pending_consistent: "consistent uuid example_pending"
proof (rule consistent_frame [OF initial_consistent])
  show "initial example_fresh" by (simp add: initial_def example_fresh_def example_agent_def busy_def)
qed (simp_all add: example_pending_def agent_states_def example_fresh_def entry_ok_def)

lemma example_scheduled:
  "\<exists>s'. scheduleAgent (example_uow 2000) example_turn ''developer'' None example_pending = Inr (Scheduled ''r11'', s')"
proof -
  let ?a = "example_agent ''developer'' Idle"
  have lock: "lockAgent example_pending ''developer'' = Some ?a"
    by (simp add: lockAgent_def example_pending_def example_fresh_def example_agent_def)
  have a: "ag_id ?a = ''developer''" "ag_state ?a = Idle" by (simp_all add: example_agent_def)
  have access: "named (loadChannelAccess example_pending) = []" by code_simp
  have refresh: "refresh_inbox (example_uow 2000) ?a (loadChannelAccess example_pending) example_pending = example_pending"
    by (simp add: refresh_inbox_def access)
  have others: "pendingRows example_pending ''developer'' c n = take n (if c (hd (gw_inbox example_pending))
      then [(hd (gw_inbox example_pending), hd (gw_events example_pending))] else [])" for c n
    by (simp add: pendingRows_def example_pending_def find_event_def)
  have quota: "\<not> hourlyQuotaReached (example_uow 2000) ''developer'' example_pending"
    and hold: "budgetHoldFor (example_uow 2000) ''developer'' example_pending = (None, example_pending)"
    and life: "loadAgentLifecycleStatus example_pending ''developer'' = None"
    and kill: "\<not> isKillSwitchOn example_pending"
    and id: "fresh_id (example_uow 2000) example_pending = ''r11''"
    and conf: "loadActiveConfig example_pending = Some example_config" and runs: "gw_runs example_pending = []"
    by (simp_all add: hourlyQuotaReached_def budgetHoldFor_def loadAgentLifecycleStatus_def isKillSwitchOn_def
        loadActiveConfig_def fresh_id_def example_pending_def example_fresh_def example_config_def example_uow_def)
      (simp_all add: numeral_2_eq_2)
  have "\<exists>s'. start_run (example_uow 2000) example_turn ?a None Schedule claimed trigger input authority ref ''r11''
      example_pending = Inr (Scheduled ''r11'', s')" for claimed trigger input authority ref
    by (simp add: start_run_def insert_run_def runs a requireTransition_def nextAgentState_def Let_def)
  then have "\<exists>s'. build_and_start (example_uow 2000) example_turn ?a None Schedule ((i, e) # rest) trigger
      example_pending = Inr (Scheduled ''r11'', s')" for i e rest trigger
    by (simp add: build_and_start_def conf id Let_def example_turn_def MAX_TURN_INPUT_BYTES_def)
  then show ?thesis
    by (simp add: scheduleAgent_def lock life schedule_ready_def a schedule_transition_def kill refresh Let_def quota
        others trigger_condition_def hold)
qed


subsection \<open>The kill switch\<close>

lemma pause_one:
  assumes c: "consistent uuid s" and known: "a \<in> fst ` set (agent_states s)"
  shows "\<exists>js s'. pauseInTransaction u a actor reason s = Inr (js, s') \<and> consistent uuid s' \<and>
    map fst (agent_states s') = map fst (agent_states s) \<and>
    (\<forall>b st. state_of s' b = Some st \<and> busy st \<longrightarrow> b \<noteq> a \<and> state_of s b = Some st) \<and>
    gw_approvals s' = gw_approvals s \<and> gw_killSwitch s' = gw_killSwitch s"
proof -
  have "lockAgent s a \<noteq> None" using known by (auto simp: agent_states_def lockAgent_def find_None_iff)
  then obtain agent where lock: "lockAgent s a = Some agent" by blast
  note st = lockAgent_state [OF lock]
  show ?thesis
  proof (cases "ag_state agent \<in> {Paused, Disabled, Failed}")
    case True
    with pause_skips [OF lock True, of u actor reason] c st show ?thesis by (auto simp: busy_def)
  next
    case False
    from pause_effect [OF lock False consistentD(1) [OF c], of u actor reason] obtain s' where
      r: "pauseInTransaction u a actor reason s = Inr (cancel_jobs (active_runs s a), s')"
      and e: "agent_states s' = set_state a Paused (agent_states s)" "gw_approvals s' = gw_approvals s"
        "gw_killSwitch s' = gw_killSwitch s" by blast
    have "b \<noteq> a \<and> state_of s b = Some x" if "state_of s' b = Some x" "busy x" for b x
      using that by (cases "b = a") (auto simp: state_of_def e(1) map_of_set_state busy_def)
    with r e pauseInTransaction_consistent [OF c r] show ?thesis by auto
  qed
qed

lemma pause_all_stops:
  assumes "consistent uuid s" and "set ids \<subseteq> fst ` set (agent_states s)"
  shows "\<exists>js s'. pause_all u actor ids jobs s = Inr (js, s') \<and> consistent uuid s' \<and>
    (\<forall>b st. state_of s' b = Some st \<and> busy st \<longrightarrow> b \<notin> set ids \<and> state_of s b = Some st) \<and>
    gw_approvals s' = gw_approvals s \<and> gw_killSwitch s' = gw_killSwitch s"
  using assms
proof (induction ids arbitrary: s jobs)
  case (Cons a ids)
  from Cons.prems have "a \<in> fst ` set (agent_states s)" by simp
  from pause_one [OF Cons.prems(1) this, of u actor "''kill-all by '' @ actor"] obtain js s1 where
    1: "pauseInTransaction u a actor (''kill-all by '' @ actor) s = Inr (js, s1)" "consistent uuid s1"
      "map fst (agent_states s1) = map fst (agent_states s)"
      "\<forall>b st. state_of s1 b = Some st \<and> busy st \<longrightarrow> b \<noteq> a \<and> state_of s b = Some st"
      "gw_approvals s1 = gw_approvals s" "gw_killSwitch s1 = gw_killSwitch s" by blast
  have "set ids \<subseteq> fst ` set (agent_states s1)" using Cons.prems(2) 1(3) by (metis list.set_map set_subset_Cons subset_trans)
  from Cons.IH [OF 1(2) this, of "jobs @ js"] 1 show ?case by fastforce
qed auto

lemma no_busy_no_active:
  assumes "consistent uuid s" and "\<And>b st. state_of s b = Some st \<Longrightarrow> \<not> busy st" and "r \<in> set (gw_runs s)"
  shows "\<not> in_progress r"
  using assms consistentD(6) [OF assms(1), of "rn_agentId r"] by (auto simp: has_active_def)

lemma killed_starts_nothing:
  "isKillSwitchOn s \<Longrightarrow> scheduleAgent u td a rd s \<noteq> Inr (Scheduled x, s')"
  by (auto simp: scheduleAgent_def schedule_ready_def split: option.splits if_splits)


lemma example_busy_consistent: "consistent (u_uuid (example_uow t)) example_busy"
proof (rule consistentI)
  show "rn_id r \<in> u_uuid (example_uow t) ` {..<gw_ids example_busy}" if "r \<in> set (gw_runs example_busy)" for r
    using that by (auto simp: example_busy_def example_run_def example_uow_def image_iff intro!: bexI [of _ 1])
  show "has_active example_busy i \<longleftrightarrow> (\<exists>st. state_of example_busy i = Some st \<and> busy st)" for i
    by (auto simp: has_active_def state_of_def agent_states_def example_busy_def example_run_def example_agent_def
        in_progress_def busy_def)
qed (simp_all add: example_busy_def example_run_def agent_states_def example_agent_def attempt_ok_def MAX_RUN_ATTEMPTS_def
    entry_ok_def open_run_def in_progress_def)


end
