(* ===== verification/Delivery.thy ===== *)
theory Delivery
  imports Control_Plane
begin

text \<open>
  What the queue and the sources may do to the control plane: deliver a report or an event twice, late, or
  for an attempt that is over. Reports and events take effect exactly once, waits are resolved once, retries
  end, a started run has its time, and a report can throw only for named reasons.
\<close>

subsection \<open>Threads and waits\<close>

text \<open>A thread reference survives being stored. For identifiers Mattermost issues, parsing what
  \<open>formatThreadRef\<close> wrote gives the reference back, and a text that parses is the format of what it
  parses to.\<close>

theorem thread_ref_roundtrip:
  "parseThreadRef (Some t) = Some ref \<longleftrightarrow>
    t = formatThreadRef ref \<and> MattermostIdSchema (tf_channelId ref) \<and> MattermostIdSchema (tf_rootPostId ref)"
proof
  assume p: "parseThreadRef (Some t) = Some ref"
  have "t = take 8 t @ take 26 (drop 8 t) @ take 8 (drop 34 t) @ drop 42 t"
    using append_take_drop_id [of 8 t] append_take_drop_id [of 26 "drop 8 t"] append_take_drop_id [of 8 "drop 34 t"]
    by simp
  with p show "t = formatThreadRef ref \<and> MattermostIdSchema (tf_channelId ref) \<and> MattermostIdSchema (tf_rootPostId ref)"
    by (auto simp: parseThreadRef_def Let_def formatThreadRef_def split: if_splits)
next
  assume "t = formatThreadRef ref \<and> MattermostIdSchema (tf_channelId ref) \<and> MattermostIdSchema (tf_rootPostId ref)"
  then show "parseThreadRef (Some t) = Some ref"
    by (auto simp: parseThreadRef_def Let_def formatThreadRef_def MattermostIdSchema_def)
qed

text \<open>C18: a wait is resolved at most once and ends its siblings. When \<open>resolveWait\<close> resolves a wait, the wait
  was active; afterwards neither it nor any other wait of the same run is active, every other wait is as it
  was, and resolving it again, by whatever event, does nothing.\<close>

theorem wait_resolved_once:
  assumes "resolveWait u waitId eventId timedOut s = (True, s')" and "distinct (map wt_id (gw_waits s))"
  shows "\<exists>w \<in> set (gw_waits s). wt_id w = waitId \<and> wt_status w = WActive \<and>
    (\<forall>x \<in> set (gw_waits s'). wt_createdByRunId x = wt_createdByRunId w \<longrightarrow> wt_status x \<noteq> WActive) \<and>
    filter (\<lambda>x. wt_createdByRunId x \<noteq> wt_createdByRunId w) (gw_waits s') =
      filter (\<lambda>x. wt_createdByRunId x \<noteq> wt_createdByRunId w) (gw_waits s) \<and>
    (\<forall>u' e t. resolveWait u' waitId e t s' = (False, s'))"
proof -
  obtain w where f: "find (active_wait_row waitId) (gw_waits s) = Some w"
    using assms(1) by (auto simp: resolveWait_def split: option.splits)
  then have w: "w \<in> set (gw_waits s)" "wt_id w = waitId" "wt_status w = WActive"
    using find_SomeD [OF f] by (auto simp: active_wait_row_def)
  have only: "x = w" if "x \<in> set (gw_waits s)" "wt_id x = waitId" for x
    using assms(2) that w(1,2) by (auto simp: distinct_map inj_on_def)
  have s': "gw_waits s' = update_where
      (\<lambda>x. wt_createdByRunId x = wt_createdByRunId w \<and> wt_status x = WActive \<and> wt_id x \<noteq> waitId)
      (\<lambda>x. x\<lparr>wt_status := WCancelled, wt_resolvedAt := Some (u_now u)\<rparr>)
      (update_where (active_wait_row waitId)
        (\<lambda>x. x\<lparr>wt_status := (if timedOut then WTimedOut else WMatched), wt_matchedEventId := Some eventId,
               wt_resolvedAt := Some (u_now u)\<rparr>) (gw_waits s))"
    using assms(1) by (auto simp: resolveWait_def f Let_def)
  have over: "wt_status x \<noteq> WActive" if "x \<in> set (gw_waits s')" "wt_createdByRunId x = wt_createdByRunId w" for x
  proof -
    from that(1) obtain y where y: "y \<in> set (gw_waits s)" and x: "x =
      (let z = (if active_wait_row waitId y then y\<lparr>wt_status := (if timedOut then WTimedOut else WMatched),
          wt_matchedEventId := Some eventId, wt_resolvedAt := Some (u_now u)\<rparr> else y)
       in if wt_createdByRunId z = wt_createdByRunId w \<and> wt_status z = WActive \<and> wt_id z \<noteq> waitId
          then z\<lparr>wt_status := WCancelled, wt_resolvedAt := Some (u_now u)\<rparr> else z)"
      unfolding s' set_update_where Let_def by blast
    show ?thesis using that(2) unfolding x
      by (cases "wt_id y = waitId"; cases "wt_status y"; cases "wt_createdByRunId y = wt_createdByRunId w") (simp_all add: Let_def active_wait_row_def)
  qed
  moreover have "find (active_wait_row waitId) (gw_waits s') = None"
    unfolding find_None_iff
  proof
    assume "\<exists>x. x \<in> set (gw_waits s') \<and> active_wait_row waitId x"
    then obtain x where x: "x \<in> set (gw_waits s')" "wt_id x = waitId" "wt_status x = WActive"
      by (auto simp: active_wait_row_def)
    have ids: "map (\<lambda>x. (wt_id x, wt_createdByRunId x)) (gw_waits s') = map (\<lambda>x. (wt_id x, wt_createdByRunId x)) (gw_waits s)"
      by (simp add: s')
    from x(1) have "(wt_id x, wt_createdByRunId x) \<in> set (map (\<lambda>x. (wt_id x, wt_createdByRunId x)) (gw_waits s))"
      unfolding ids [symmetric] by auto
    then have "wt_createdByRunId x = wt_createdByRunId w" using only x(2) by auto
    with over x show False by blast
  qed
  moreover have "filter (\<lambda>x. wt_createdByRunId x \<noteq> wt_createdByRunId w) (gw_waits s') =
      filter (\<lambda>x. wt_createdByRunId x \<noteq> wt_createdByRunId w) (gw_waits s)"
  proof -
    have "filter Q (update_where P g rows) = filter Q rows"
      if "\<And>x. x \<in> set rows \<Longrightarrow> P x \<Longrightarrow> \<not> Q x \<and> \<not> Q (g x)" for P Q g and rows :: "wait_row list"
      using that by (induction rows) (auto simp: update_where_def)
    note skip = this
    show ?thesis unfolding s'
      by (subst skip, force simp: set_update_where active_wait_row_def split: if_splits, subst skip)
        (use only in \<open>auto simp: active_wait_row_def\<close>)
  qed
  ultimately show ?thesis using w by (auto simp: resolveWait_def)
qed

definition example_wait_row :: "string \<Rightarrow> wait_row" where
  "example_wait_row i =
    \<lparr>wt_id = i, wt_agentId = ''developer'', wt_createdByRunId = ''r1'', wt_status = WActive, wt_correlationId = ''thread:x'',
     wt_condition = wait_condition example_wait, wt_threadRootIds = None, wt_timeoutAt = 5000, wt_matchedEventId = None,
     wt_createdAt = 0, wt_resolvedAt = None\<rparr>"

theorem wait_resolved_once_witness:
  "\<exists>s'. resolveWait (example_uow 2000) ''w1'' ''r'' False
      (example_fresh\<lparr>gw_waits := [example_wait_row ''w1'', example_wait_row ''w2'']\<rparr>) = (True, s') \<and>
    resolveWait (example_uow 3000) ''w1'' ''r1'' True s' = (False, s')"
proof -
  let ?s = "example_fresh\<lparr>gw_waits := [example_wait_row ''w1'', example_wait_row ''w2'']\<rparr>"
  obtain s' where s': "resolveWait (example_uow 2000) ''w1'' ''r'' False ?s = (True, s')"
    by (simp add: resolveWait_def active_wait_row_def example_wait_row_def Let_def)
  have "distinct (map wt_id (gw_waits ?s))" by (simp add: example_wait_row_def)
  from wait_resolved_once [OF s' this] s' show ?thesis by blast
qed

subsection \<open>Reports delivered more than once\<close>

text \<open>Scheduling only adds runs; it starts one or leaves agents and runs alone.\<close>

lemma scheduleAgent_adds:
  assumes c: "consistent (u_uuid u) s" and inj: "inj (u_uuid u)" and r: "scheduleAgent u td a rd s = Inr (res, s')"
  shows "(\<exists>rs. gw_runs s' = gw_runs s @ rs) \<and> map fst (agent_states s') = map fst (agent_states s) \<and>
    gw_usage s' = gw_usage s"
proof (cases "lockAgent s a")
  case None
  with r show ?thesis by (auto simp: scheduleAgent_def)
next
  case (Some agent)
  then have id: "ag_id agent = a" using lockAgent_state by blast
  show ?thesis
  proof (cases "loadAgentLifecycleStatus s a \<in> {None, Some LReady}")
    case False
    with r Some show ?thesis by (auto simp: scheduleAgent_def split: option.splits if_splits)
  next
    case True
    with r Some have ready: "schedule_ready u td agent rd s = Inr (res, s')"
      by (auto simp: scheduleAgent_def split: option.splits)
    define s1 where "s1 = refresh_inbox u agent (loadChannelAccess s) s"
    have step: "inbox_step s s1" unfolding s1_def by (rule refresh_inbox_step)
    obtain h s2 where h: "budgetHoldFor u (ag_id agent) s1 = (h, s2)" by fastforce
    then have s2: "s2 = snd (budgetHoldFor u (ag_id agent) s1)" by simp
    have step2: "inbox_step s s2" unfolding s2 by (rule inbox_step_trans [OF step hold_fx.is_inbox_step])
    have same: "gw_runs t = gw_runs s \<and> agent_states t = agent_states s \<and> gw_usage t = gw_usage s"
      if "inbox_step s t" for t using that by (simp add: inbox_step_def agent_states_def)
    have c2: "consistent (u_uuid u) s2" by (rule inbox_step_consistent [OF step2 c])
    have lock2: "lockAgent s2 (ag_id agent) = Some agent" using Some id inbox_step_lockAgent [OF step2] by simp
    have new: "fresh_id u s2 \<notin> rn_id ` set (gw_runs s2)"
      using consistentD(3) [OF c2] inj by (fastforce simp: fresh_id_def inj_on_def)
    have started: ?thesis
      if "start_run u td agent rd t claimed trigger input authority ref (fresh_id u s2) s2 = Inr (res, s')"
      for t claimed trigger input authority ref
      using start_run_effect [OF that lock2 consistentD(1) [OF c2] new] same [OF step2] by auto
    have alert: "inbox_step s (raiseAlert u k m d s2)" for k m d
      by (rule inbox_step_trans [OF step2 raise_fx.is_inbox_step])
    have "?thesis" if "build_and_start u td agent rd t claimed trigger s2 = Inr (res, s')" for t claimed trigger
      using that started same [OF step2] same [OF alert]
      by (auto simp: build_and_start_def context_unavailable_def Let_def split: if_splits sum.splits)
    then show ?thesis
      using ready same [OF step] same [OF step2] h
      by (auto simp: schedule_ready_def Let_def s1_def [symmetric] split: option.splits if_splits list.splits)
  qed
qed

definition current_report :: "gateway \<Rightarrow> run_report \<Rightarrow> runtime_adapter_id \<Rightarrow> bool" where
  "current_report s report adapter \<longleftrightarrow>
    (case lockRun s (rp_runId report) (Some (rp_agentId report)) of
       None \<Rightarrow> False
     | Some (run, agent) \<Rightarrow>
         rn_runtimeAdapter run = adapter \<and> in_progress run \<and> rn_attempt run = rp_attempt report)"

text \<open>A report that is not about the current attempt of its run, from the run's own agent and adapter,
  moves nothing: it is ignored, and at most its usage is booked.\<close>

theorem stale_report_moves_nothing:
  assumes "\<not> current_report s report adapter"
  shows "\<exists>res rows. handleRunReport u td cp report adapter s = Inr (res, s\<lparr>gw_usage := gw_usage s @ rows\<rparr>) \<and>
    res \<in> {RepIgnoredStale, RepIgnoredUnknown} \<and> length rows \<le> 1"
proof (cases "lockRun s (rp_runId report) (Some (rp_agentId report))")
  case None
  then show ?thesis by (auto simp: handleRunReport_def intro!: exI [of _ "[]"])
next
  case (Some p)
  obtain run agent where p: "p = (run, agent)" by fastforce
  have "\<exists>rows. bookUsage u cp report run agent s = s\<lparr>gw_usage := gw_usage s @ rows\<rparr> \<and> length rows \<le> 1"
    by (cases "rp_body report")
      (auto simp: bookUsage_def Let_def recordRunUsage_def intro: exI [of _ "[]"])
  with assms Some p show ?thesis
    by (auto simp: handleRunReport_def current_report_def inProgress_def Let_def intro!: exI [of _ "[]"])
qed

lemma apply_next_state_usage:
  "apply_next_state u td cp run agent result scope prepared v s = Inr s' \<Longrightarrow> gw_usage s' = gw_usage s"
  by (auto simp: apply_next_state_def move_agent_def createApproval_def Let_def
      split: next_state.splits sum.splits option.splits if_splits)

lemma lockAgent_known: "a \<in> fst ` set (agent_states s) \<Longrightarrow> \<exists>agent. lockAgent s a = Some agent \<and> ag_id agent = a"
proof -
  assume "a \<in> fst ` set (agent_states s)"
  then have "lockAgent s a \<noteq> None" by (auto simp: agent_states_def lockAgent_def find_None_iff)
  then show ?thesis using lockAgent_state by blast
qed

lemma lockAgent_listed: "lockAgent s a = Some agent \<Longrightarrow> a \<in> fst ` set (agent_states s)"
  using find_SomeD [of "\<lambda>x. ag_id x = a" "gw_agents s" agent] by (force simp: lockAgent_def agent_states_def)

lemma find_run_appended:
  assumes "gw_runs s' = update_where (\<lambda>r. rn_id r = i) f (gw_runs s) @ rs" and "find_run s i = Some run"
    and "\<And>r. rn_id (f r) = rn_id r"
  shows "find_run s' i = Some (f run)"
proof -
  have "find (\<lambda>r. rn_id r = i) (xs @ ys) = Some x" if "find (\<lambda>r. rn_id r = i) xs = Some x" for xs ys and x :: run_row
    using that by (induction xs) auto
  moreover have "find (\<lambda>r. rn_id r = i) (update_where (\<lambda>r. rn_id r = i) f (gw_runs s)) = Some (f run)"
    using assms(2,3) find_run_SomeD [OF assms(2)] by (simp add: find_update_where find_run_def)
  ultimately show ?thesis by (simp add: find_run_def assms(1))
qed

lemma accept_result_finishes:
  assumes c: "consistent (u_uuid u) s" and inj: "inj (u_uuid u)" and loc: "located s run agent"
    and r: "accept_result u td cp run agent snapshot result scope prepared v s = Inr (RepCompleted, s')"
  shows "\<exists>run' agent'. lockRun s' (rn_id run) (Some (rn_agentId run)) = Some (run', agent') \<and> \<not> in_progress run' \<and>
    rn_id run' = rn_id run \<and> rn_attempt run' = rn_attempt run \<and> rn_runtimeAdapter run' = rn_runtimeAdapter run \<and>
    gw_usage s' = gw_usage s"
proof -
  let ?p = "publish_result u cp run agent snapshot result scope s"
  have cp: "consistent (u_uuid u) ?p" by (rule publish_fx.keeps_consistent [OF c])
  have lp: "located ?p run agent" using loc by (simp add: located_cong [OF publish_fx.runs publish_fx.agents])
  have "apply_next_state u td cp run agent result scope prepared v ?p \<noteq> Inl (Inr (RepCompleted, t))" for t
    using apply_next_state_Inl [OF cp lp, of u td cp result scope prepared v RepCompleted t] by blast
  then obtain s1 where n: "apply_next_state u td cp run agent result scope prepared v ?p = Inr s1"
    using r by (cases "apply_next_state u td cp run agent result scope prepared v ?p") (auto simp: accept_result_def)
  note e = apply_next_state_effect [OF cp lp n]
  let ?f = "finish_run u run result v s1"
  obtain x where sch: "scheduleAgent u td (ag_id agent) None ?f = Inr (x, s')"
    using r n by (auto simp: accept_result_def split: sum.splits)
  have runs: "gw_runs s1 = gw_runs s" using e by simp
  have f: "gw_runs ?f = update_where (\<lambda>r. rn_id r = rn_id run) (finished_row u run result v) (gw_runs s)"
    by (simp add: finish_run_runs runs)
  have cf: "consistent (u_uuid u) ?f"
    by (rule finish_run_consistent [OF cp lp n])
  from scheduleAgent_adds [OF cf inj sch] obtain rs where
    add: "gw_runs s' = gw_runs ?f @ rs" "map fst (agent_states s') = map fst (agent_states ?f)" "gw_usage s' = gw_usage ?f"
    by blast
  from loc have run: "run \<in> set (gw_runs s)" by (simp add: located_def)
  have "find_run s (rn_id run) = Some run"
    using find_key_unique [OF consistentD(2) [OF c] run] by (simp add: find_run_def)
  then have found: "find_run s' (rn_id run) = Some (finished_row u run result v run)"
    by (rule find_run_appended [rotated]) (simp_all add: add(1) f)
  have "fst ` set (agent_states s') = fst ` set (agent_states s)"
  proof -
    have "agent_states ?p = agent_states s" by (rule agent_states_cong) simp
    with add(2) e have "map fst (agent_states s') = map fst (agent_states s)" by (simp add: finish_run_effect)
    then show ?thesis by (metis list.set_map)
  qed
  moreover have "rn_agentId run \<in> fst ` set (agent_states s)"
    using loc lockAgent_listed [of s "rn_agentId run" agent] by (simp add: located_def)
  ultimately obtain agent' where a: "lockAgent s' (rn_agentId run) = Some agent'"
    using lockAgent_known [of "rn_agentId run" s'] by auto
  have "gw_usage s' = gw_usage s"
    using add(3) apply_next_state_usage [OF n] by (simp add: finish_run_def Let_def audit_def update_run_def)
  with found a show ?thesis by (auto simp: lockRun_def)
qed

lemma not_completed:
  assumes c: "consistent uuid s" and loc: "located s run agent"
  shows "applyFailure u td run agent error v usage s \<noteq> Inr (RepCompleted, s')"
    and "refuse_approval u td run agent what t detail v usage s \<noteq> Inr (RepCompleted, s')"
    and "deny_result u td run agent issues v usage s \<noteq> Inr (RepCompleted, s')"
proof -
  show "applyFailure u td run agent error v usage s \<noteq> Inr (RepCompleted, s')"
    using applyFailure_consistent [OF c loc, of u td error v usage RepCompleted s'] by blast
  have quiet: "applyFailure u td run agent error v usage (f s) \<noteq> Inr (RepCompleted, s')" if "core_effect f" for f error
    using applyFailure_consistent [OF core_effect.keeps_consistent [OF that c], of run agent u td error v usage RepCompleted s']
      located_cong [OF core_effect.runs [OF that] core_effect.agents [OF that]] loc by blast
  show "refuse_approval u td run agent what t detail v usage s \<noteq> Inr (RepCompleted, s')"
    unfolding refuse_approval_def by (rule quiet [OF raise_fx.core_effect_axioms])
  show "deny_result u td run agent issues v usage s \<noteq> Inr (RepCompleted, s')"
    unfolding deny_result_def Let_def
    by (rule quiet [OF comp_core_effect [OF deny_fx.core_effect_axioms raise_fx.core_effect_axioms]])
qed

lemma prepare_approval_not_completed:
  assumes c: "consistent uuid s" and loc: "located s run agent"
  shows "prepare_approval u td cp run agent authority requested v usage s \<noteq> Inl (Inr (RepCompleted, s'))"
proof -
  have step: "consistent uuid q \<and> located q run agent \<and>
      consistent uuid (q\<lparr>gw_ids := Suc (gw_ids q)\<rparr>) \<and> located (q\<lparr>gw_ids := Suc (gw_ids q)\<rparr>) run agent"
    if q: "approvalPolicyIssues u run (ag_id agent) authority draft s = (x, q)" for draft x q
  proof -
    have q': "q = snd (approvalPolicyIssues u run (ag_id agent) authority draft s)" using q by simp
    have "located q run agent \<longleftrightarrow> located s run agent" unfolding q' by (rule located_cong) simp_all
    with loc have "consistent uuid q" "located q run agent"
      unfolding q' using policy_fx.keeps_consistent [OF c] by simp_all
    moreover from this(1) have "consistent uuid (q\<lparr>gw_ids := Suc (gw_ids q)\<rparr>)" by (rule consistent_same) simp_all
    moreover have "located (q\<lparr>gw_ids := Suc (gw_ids q)\<rparr>) run agent \<longleftrightarrow> located q run agent"
      by (rule located_cong) simp_all
    ultimately show ?thesis by blast
  qed
  show ?thesis
    using not_completed [OF c loc] not_completed [of uuid _ run agent] step
    by (auto simp: prepare_approval_def Let_def split: sum.splits if_splits prod.splits)
qed

lemma prepare_approval_usage:
  assumes "prepare_approval u td cp run agent authority requested v usage s = Inr (p, s')"
  shows "gw_usage s' = gw_usage s"
proof (cases "cp_prepareCustomDraft cp s (ag_id agent) requested")
  case (Inr draft)
  obtain refusal q where q: "approvalPolicyIssues u run (ag_id agent) authority draft s = (refusal, q)" by fastforce
  then have "gw_usage q = gw_usage s" using policy_fx.usage [of u run "ag_id agent" authority draft s] by simp
  with assms Inr show ?thesis
    by (auto simp: prepare_approval_def q Let_def split: if_splits sum.splits)
qed (use assms in \<open>simp add: prepare_approval_def\<close>)

text \<open>C9: a completion takes effect exactly once. After a completion report has been accepted, the same report
  delivered again, at any later time and to any later worker loop, is recognised as stale and changes nothing
  at all: no post, no usage, no state.\<close>

theorem completion_exactly_once:
  assumes c: "consistent (u_uuid u) s" and inj: "inj (u_uuid u)"
    and r: "handleRunReport u td cp report adapter s = Inr (RepCompleted, s')"
  shows "handleRunReport u' td' cp' report adapter s' = Inr (RepIgnoredStale, s')"
proof -
  obtain run agent where l: "lockRun s (rp_runId report) (Some (rp_agentId report)) = Some (run, agent)"
    using r by (auto simp: handleRunReport_def split: option.splits)
  note L = lockRun_SomeD [OF l]
  let ?s1 = "bookUsage u cp report run agent s"
  have c1: "consistent (u_uuid u) ?s1" by (rule consistent_same [OF c]) simp_all
  have run: "rn_runtimeAdapter run = adapter" "in_progress run" "rn_attempt run = rp_attempt report"
    using r l by (auto simp: handleRunReport_def Let_def inProgress_def split: if_splits)
  have "located s run agent" using L run(2) by (auto simp: located_def)
  then have l1: "located ?s1 run agent" by (subst located_cong [where s = s]) simp_all
  obtain raw where body: "rp_body report = ReportCompleted raw"
    and a: "applyCompletion u td cp run agent raw (rp_runtimeVersion report) ?s1 = Inr (RepCompleted, s')"
    using r l run not_completed(1) [OF c1 l1]
    by (auto simp: handleRunReport_def Let_def inProgress_def split: if_splits report_body.splits)
  have alert: "applyFailure u td run agent error v usage (raiseAlert u k m d ?s1) \<noteq> Inr (RepCompleted, s')"
    for error v usage k m d
    using not_completed(1) [OF raise_fx.keeps_consistent [OF c1]] l1
      located_cong [OF raise_fx.runs raise_fx.agents] by blast
  obtain snapshot result scope prepared t where acc: "accept_result u td cp run agent snapshot result scope prepared
      (rp_runtimeVersion report) t = Inr (RepCompleted, s')" and t: "consistent (u_uuid u) t" "located t run agent"
      "gw_usage t = gw_usage ?s1"
  proof (cases rule: applyCompletion_cases [of u td cp run agent raw "rp_runtimeVersion report" ?s1])
    case (accepted snapshot result prepared t)
    then show ?thesis
      using that [of snapshot result _ prepared t] a c1 l1 prepare_approval_consistent(2) [OF c1 l1]
        prepare_approval_usage by metis
  next
    case invalid
    with a alert show ?thesis by metis
  next
    case denied
    with a not_completed(3) [OF c1 l1] show ?thesis by metis
  next
    case refused
    with a prepare_approval_not_completed [OF c1 l1] show ?thesis by metis
  qed (use a in simp)
  from accept_result_finishes [OF t(1) inj t(2) acc] obtain run' agent' where
    l': "lockRun s' (rp_runId report) (Some (rp_agentId report)) = Some (run', agent')" and
    run': "\<not> in_progress run'" "rn_id run' = rn_id run" "rn_attempt run' = rp_attempt report"
      "rn_runtimeAdapter run' = adapter" and us: "gw_usage s' = gw_usage ?s1"
    using L run t(3) by auto
  have "list_ex (\<lambda>w. uw_runId w = rn_id run \<and> uw_attempt w = rp_attempt report) (gw_usage s')"
    unfolding us by (simp add: bookUsage_def body run(3) Let_def recordRunUsage_def list_ex_iff)
  then have "bookUsage u' cp' report run' agent' s' = s'"
    by (simp add: bookUsage_def body Let_def recordRunUsage_def run')
  with l' run' show ?thesis by (simp add: handleRunReport_def inProgress_def Let_def)
qed

theorem completion_exactly_once_witness:
  "\<exists>s'. example_completed = Inr (RepCompleted, s') \<and>
    handleRunReport (example_uow 9000) example_turn example_completion
      (example_report (ReportCompleted (JStr ''done''))) Mock s' = Inr (RepIgnoredStale, s')"
proof -
  obtain s' where s': "example_completed = Inr (RepCompleted, s')"
    using example_completed_posts by (auto split: sum.splits)
  from completion_exactly_once [OF example_busy_consistent example_uow_inj s' [unfolded example_completed_def]] s'
  show ?thesis by blast
qed

subsection \<open>Which errors a report can raise\<close>

lemma fail_run_total:
  assumes "consistent uuid s" and "located s run agent"
  shows "\<exists>s'. fail_run u run agent error v usage s = Inr (RepFailed, s')"
  using located_busy(1) [OF assms] by (simp add: fail_run_def requireTransition_busy Let_def)

lemma located_core: "core_effect f \<Longrightarrow> located (f s) run agent \<longleftrightarrow> located s run agent"
  by (rule located_cong [OF core_effect.runs core_effect.agents])

lemma applyFailure_errors:
  assumes c: "consistent uuid s" and loc: "located s run agent"
    and r: "applyFailure u td run agent error v usage s = Inl e"
  shows "re_retryable error \<and> e = NoSnapshot (rn_id run) \<and> find_snapshot s (rn_id run) = None"
proof -
  obtain h s1 where h: "budgetHoldFor u (ag_id agent) s = (h, s1)" by fastforce
  have s1: "s1 = snd (budgetHoldFor u (ag_id agent) s)" by (simp add: h)
  have snap: "find_snapshot s1 i = find_snapshot s i" for i
    unfolding s1 by (simp add: budgetHoldFor_def Let_def split: option.split prod.split)
  have c1: "consistent uuid s1" unfolding s1 by (rule hold_fx.keeps_consistent [OF c])
  have l1: "located s1 run agent" unfolding s1 using loc by (simp add: located_core [OF hold_fx.core_effect_axioms])
  note b = requireTransition_busy [OF located_busy(1) [OF c1 l1]]
  from r fail_run_total [OF c loc, of u error v usage] show ?thesis
    by (auto simp: applyFailure_def h deferForBudget_def retry_attempt_def b Let_def snap split: if_splits option.splits)
qed

lemma refused_run_fails:
  assumes c: "consistent uuid s" and loc: "located s run agent"
  shows "refuse_approval u td run agent what t detail v usage s \<noteq> Inl e"
    and "deny_result u td run agent issues v usage s \<noteq> Inl e"
proof -
  have fails: "applyFailure u td run agent error v usage (f s) \<noteq> Inl e" if "core_effect f" "\<not> re_retryable error" for f error
    using applyFailure_errors [OF core_effect.keeps_consistent [OF that(1) c]] loc located_core [OF that(1)] that(2) by blast
  show "refuse_approval u td run agent what t detail v usage s \<noteq> Inl e"
    unfolding refuse_approval_def by (rule fails [OF raise_fx.core_effect_axioms]) simp
  show "deny_result u td run agent issues v usage s \<noteq> Inl e"
    unfolding deny_result_def Let_def
    by (rule fails [OF comp_core_effect [OF deny_fx.core_effect_axioms raise_fx.core_effect_axioms]]) simp
qed

lemma start_run_errors:
  assumes c: "consistent uuid s" and lock: "lockAgent s (ag_id agent) = Some agent"
    and t: "schedule_transition (ag_state agent) rd = Some t"
    and r: "start_run u td agent rd t claimed trigger input authority ref runId s = Inl e"
  shows "e = UniqueViolation ''agent_runs_idempotency_key_unique''"
proof -
  have "nextAgentState (ag_state agent) t = Some Queued" "\<not> busy (ag_state agent)"
    using t by (auto simp: schedule_transition_def nextAgentState_cases busy_def split: if_splits)
  moreover from this(2) have "\<not> has_active s (ag_id agent)" by (rule idle_agent_has_no_run [OF c lock])
  ultimately show ?thesis
    using r by (auto simp: start_run_def insert_run_def requireTransition_def Let_def has_active_def list_ex_iff
        split: if_splits)
qed

lemma scheduleAgent_errors:
  assumes c: "consistent uuid s" and r: "scheduleAgent u td a rd s = Inl e"
  shows "e = UniqueViolation ''agent_runs_idempotency_key_unique''"
proof -
  obtain agent where lock: "lockAgent s a = Some agent" and ready: "schedule_ready u td agent rd s = Inl e"
    using r by (auto simp: scheduleAgent_def split: option.splits if_splits)
  then have id: "ag_id agent = a" using lockAgent_state by blast
  define s1 where "s1 = refresh_inbox u agent (loadChannelAccess s) s"
  obtain h s2 where h: "budgetHoldFor u (ag_id agent) s1 = (h, s2)" by fastforce
  then have s2: "s2 = snd (budgetHoldFor u (ag_id agent) s1)" by simp
  have step: "inbox_step s s2"
    unfolding s2 s1_def by (rule inbox_step_trans [OF refresh_inbox_step hold_fx.is_inbox_step])
  have lock2: "lockAgent s2 (ag_id agent) = Some agent" using lock id inbox_step_lockAgent [OF step] by simp
  note E = start_run_errors [OF inbox_step_consistent [OF step c] lock2]
  show ?thesis
    using ready h E
    by (auto simp: schedule_ready_def build_and_start_def context_unavailable_def Let_def s1_def [symmetric]
        split: option.splits if_splits list.splits sum.splits)
qed

lemma apply_next_state_errors:
  assumes c: "consistent uuid s" and loc: "located s run agent"
    and r: "apply_next_state u td cp run agent result scope prepared v s = Inl (Inl e)"
  shows "e = NoActiveConfig \<and> loadActiveConfig s = None \<or> e = UniqueViolation ''approval_requests''"
proof -
  note b = requireTransition_busy [OF located_busy(1) [OF c loc]]
  show ?thesis
    using r refused_run_fails(1) [OF c loc]
    by (auto simp: apply_next_state_def move_agent_def b createApproval_def Let_def
        split: next_state.splits sum.splits option.splits if_splits)
qed

lemma accept_result_errors:
  assumes c: "consistent uuid s" and loc: "located s run agent"
    and r: "accept_result u td cp run agent snapshot result scope prepared v s = Inl e"
  shows "(e = NoActiveConfig \<and> loadActiveConfig s = None) \<or>
    e \<in> UniqueViolation ` {''agent_runs_idempotency_key_unique'', ''approval_requests''}"
proof -
  let ?p = "publish_result u cp run agent snapshot result scope s"
  have cp: "consistent uuid ?p" by (rule publish_fx.keeps_consistent [OF c])
  have lp: "located ?p run agent" using loc by (simp add: located_core [OF publish_fx.core_effect_axioms])
  show ?thesis
  proof (cases "apply_next_state u td cp run agent result scope prepared v ?p")
    case (Inl x)
    with r have "x = Inl e" by (simp add: accept_result_def)
    note apply_next_state_errors [OF cp lp Inl [unfolded this]]
    then show ?thesis by auto
  next
    case (Inr s1)
    with r scheduleAgent_errors [OF finish_run_consistent [OF cp lp Inr]] show ?thesis
      by (auto simp: accept_result_def split: sum.splits)
  qed
qed

lemma prepare_approval_errors:
  assumes c: "consistent uuid s" and loc: "located s run agent"
  shows "prepare_approval u td cp run agent authority requested v usage s \<noteq> Inl (Inl e)"
proof (cases "cp_prepareCustomDraft cp s (ag_id agent) requested")
  case (Inl issues)
  with refused_run_fails(1) [OF c loc] show ?thesis by (simp add: prepare_approval_def)
next
  case (Inr draft)
  obtain refusal q where q: "approvalPolicyIssues u run (ag_id agent) authority draft s = (refusal, q)" by fastforce
  then have q': "q = snd (approvalPolicyIssues u run (ag_id agent) authority draft s)" by simp
  have cq: "consistent uuid q" unfolding q' by (rule policy_fx.keeps_consistent [OF c])
  have lq: "located q run agent" unfolding q' using loc by (simp add: located_core [OF policy_fx.core_effect_axioms])
  have cn: "consistent uuid (q\<lparr>gw_ids := Suc (gw_ids q)\<rparr>)" by (rule consistent_same [OF cq]) simp_all
  have ln: "located (q\<lparr>gw_ids := Suc (gw_ids q)\<rparr>) run agent" using lq located_cong [of "q\<lparr>gw_ids := Suc (gw_ids q)\<rparr>" q] by simp
  have "applyFailure u td run agent \<lparr>re_code = ERuntimePermanent, re_retryable = False, re_detail = d\<rparr> v usage
      (q\<lparr>gw_ids := Suc (gw_ids q)\<rparr>) \<noteq> Inl e" for d
    using applyFailure_errors [OF cn ln, of u td _ v usage e] by fastforce
  with Inr q refused_run_fails(1) [OF cq lq] refused_run_fails(1) [OF cn ln] show ?thesis
    by (auto simp: prepare_approval_def Let_def split: if_splits sum.splits)
qed

lemma prepare_approval_config:
  assumes "prepare_approval u td cp run agent authority requested v usage s = Inr (p, s')"
  shows "loadActiveConfig s' = loadActiveConfig s"
proof (cases "cp_prepareCustomDraft cp s (ag_id agent) requested")
  case (Inr draft)
  obtain refusal q where q: "approvalPolicyIssues u run (ag_id agent) authority draft s = (refusal, q)" by fastforce
  then have "gw_config q = gw_config s" using policy_fx.config [of u run "ag_id agent" authority draft s] by simp
  with assms Inr show ?thesis
    by (auto simp: prepare_approval_def q Let_def loadActiveConfig_def split: if_splits sum.splits)
qed (use assms in \<open>simp add: prepare_approval_def\<close>)

lemma applyCompletion_errors:
  assumes c: "consistent uuid s" and loc: "located s run agent"
    and r: "applyCompletion u td cp run agent raw v s = Inl e"
  shows "(e = NoSnapshot (rn_id run) \<and> find_snapshot s (rn_id run) = None) \<or>
    (e = NoActiveConfig \<and> loadActiveConfig s = None) \<or>
    e \<in> UniqueViolation ` {''agent_runs_idempotency_key_unique'', ''approval_requests''}"
proof (cases rule: applyCompletion_cases [of u td cp run agent raw v s])
  case (invalid what detail)
  have "located (raiseAlert u k what [] s) run agent" for k
    using loc by (simp add: located_core [OF raise_fx.core_effect_axioms])
  from applyFailure_errors [OF raise_fx.keeps_consistent [OF c] this] r invalid show ?thesis by fastforce
next
  case (accepted snapshot result prepared t)
  have "consistent uuid t \<and> located t run agent \<and> loadActiveConfig t = loadActiveConfig s"
    using accepted(2) c loc prepare_approval_consistent(2) [OF c loc] prepare_approval_config by metis
  with accept_result_errors [of uuid t run agent] accepted(1) r show ?thesis by metis
next
  case denied
  with r refused_run_fails(2) [OF c loc] show ?thesis by metis
next
  case refused
  with r prepare_approval_errors [OF c loc] show ?thesis by metis
qed (use r in simp)

text \<open>C15: no report can drive the state machine into a transition it refuses, or start a second run. In a
  consistent state, the only ways a report can throw are a run without a stored turn, a gateway without an
  active configuration, and a key of a run or of an approval request that is taken; never a refused
  transition, and never the index that allows one active run per agent.\<close>

theorem report_errors:
  assumes c: "consistent uuid s" and r: "handleRunReport u td cp report adapter s = Inl e"
  shows "(e = NoSnapshot (rp_runId report) \<and> find_snapshot s (rp_runId report) = None) \<or>
    (e = NoActiveConfig \<and> loadActiveConfig s = None) \<or>
    e \<in> UniqueViolation ` {''agent_runs_idempotency_key_unique'', ''approval_requests''}"
proof -
  obtain run agent where l: "lockRun s (rp_runId report) (Some (rp_agentId report)) = Some (run, agent)"
    using r by (auto simp: handleRunReport_def split: option.splits)
  let ?s1 = "bookUsage u cp report run agent s"
  have conf: "loadActiveConfig ?s1 = loadActiveConfig s"
    by (simp add: bookUsage_def loadActiveConfig_def Let_def split: report_body.split)
  have id: "rn_id run = rp_runId report" using lockRun_SomeD [OF l] by simp
  have c1: "consistent uuid ?s1" by (rule consistent_same [OF c]) simp_all
  have act: "in_progress run" using r l by (auto simp: handleRunReport_def Let_def inProgress_def split: if_splits)
  have "located s run agent" using lockRun_SomeD [OF l] act by (auto simp: located_def)
  then have l1: "located ?s1 run agent" by (subst located_cong [where s = s]) simp_all
  show ?thesis
    using r l applyFailure_errors [OF c1 l1] applyCompletion_errors [OF c1 l1] id conf
    by (auto simp: handleRunReport_def Let_def split: if_splits report_body.splits)
qed

theorem report_errors_witness:
  "\<exists>e. handleRunReport (example_uow 2000) example_turn example_completion
      (example_report (ReportCompleted (JStr ''done''))) Mock (example_busy\<lparr>gw_snapshots := []\<rparr>) = Inl e \<and>
    e \<in> {NoSnapshot ''r1'', UniqueViolation ''agent_runs_idempotency_key_unique'', UniqueViolation ''approval_requests''}"
proof -
  let ?s = "example_busy\<lparr>gw_snapshots := []\<rparr>"
  have c: "consistent (u_uuid (example_uow 2000)) ?s" by (rule consistent_same [OF example_busy_consistent]) simp_all
  have l: "lockRun ?s ''r1'' (Some ''ceo'') = Some (example_run, example_agent ''ceo'' Running)"
    by (simp add: lockRun_def find_run_def lockAgent_def example_busy_def example_run_def example_agent_def)
  obtain e where e: "handleRunReport (example_uow 2000) example_turn example_completion
      (example_report (ReportCompleted (JStr ''done''))) Mock ?s = Inl e"
    using l by (simp add: handleRunReport_def example_report_def example_run_def inProgress_def in_progress_def Let_def
        loadAgentLifecycleStatus_def example_busy_def example_fresh_def applyCompletion_def example_completion_def
        find_snapshot_def bookUsage_def)
  have "loadActiveConfig ?s \<noteq> None" "rp_runId (example_report x) = ''r1''" for x
    by (simp_all add: loadActiveConfig_def example_busy_def example_fresh_def example_report_def)
  with report_errors [OF c e] e show ?thesis by auto
qed

subsection \<open>Retries end\<close>

definition attempts_left :: "run_row \<Rightarrow> nat" where
  "attempts_left r = (if in_progress r then Suc (rn_maxAttempts r) - rn_attempt r else 0)"

lemma applyFailure_spends:
  assumes c: "consistent uuid s" and loc: "located s run agent"
    and r: "applyFailure u td run agent error v usage s = Inr (res, s')"
  shows "\<exists>run'. find_run s' (rn_id run) = Some run' \<and> attempts_left run' < attempts_left run"
proof -
  from loc have run: "run \<in> set (gw_runs s)" "in_progress run" by (simp_all add: located_def)
  have att: "rn_attempt run \<le> rn_maxAttempts run" using consistentD(4) [OF c run(1)] by (simp add: attempt_ok_def)
  then have left: "0 < attempts_left run" using run(2) by (simp add: attempts_left_def)
  have found: "find_run s (rn_id run) = Some run"
    using find_key_unique [OF consistentD(2) [OF c] run(1)] by (simp add: find_run_def)
  obtain h s1 where h: "budgetHoldFor u (ag_id agent) s = (h, s1)" by fastforce
  have s1: "s1 = snd (budgetHoldFor u (ag_id agent) s)" by (simp add: h)
  have runs1: "gw_runs s1 = gw_runs s" unfolding s1 by (rule hold_fx.runs)
  have "\<exists>f. gw_runs s' = update_where (\<lambda>r. rn_id r = rn_id run) f (gw_runs s) \<and> (\<forall>r. rn_id (f r) = rn_id r) \<and>
      attempts_left (f run) < attempts_left run"
  proof (cases "re_retryable error \<and> rn_attempt run < rn_maxAttempts run")
    case False
    with r obtain dst where "requireTransition (ag_id agent) (ag_state agent) Fail = Inr dst"
      "fail_run u run agent error v usage s = Inr (res, s')" by (auto simp: applyFailure_def fail_run_def split: sum.splits)
    then show ?thesis
      using left
      by (auto simp: fail_run_def Let_def intro!: exI [of _ "\<lambda>r. r\<lparr>rn_status := RFailed, rn_finishedAt := Some (u_now u),
          rn_errorCode := Some (error_code_name (re_code error)), rn_errorDetail := Some (u_redact u (re_detail error)),
          rn_runtimeVersion := Some v, rn_usage := usage\<rparr> :: run_row"])
        (simp add: attempts_left_def in_progress_def)
  next
    case True
    show ?thesis
    proof (cases h)
      case None
      with r True h have "retry_attempt u run agent error (td_inputBytes td) v usage s1 = Inr (res, s')"
        by (simp add: applyFailure_def)
      then show ?thesis
        using True run(2)
        by (auto simp: retry_attempt_def Let_def enqueueAttempt_runs runs1 split: option.splits sum.splits)
          (subst update_where_twice, simp, rule exI, rule conjI, rule refl,
            simp add: attempts_left_def in_progress_def)
    next
      case (Some hold)
      obtain scope reason where "hold = (scope, reason)" by fastforce
      with r True h Some have "deferForBudget u run agent error (u_budget_text u reason) v usage s1 = Inr (res, s')"
        by (simp add: applyFailure_def)
      then show ?thesis
        using left
        by (auto simp: deferForBudget_def Let_def runs1 split: sum.splits)
          (rule exI, rule conjI, rule refl, simp add: attempts_left_def in_progress_def)
    qed
  qed
  then obtain f where f: "gw_runs s' = update_where (\<lambda>r. rn_id r = rn_id run) f (gw_runs s)"
    "\<forall>r. rn_id (f r) = rn_id r" "attempts_left (f run) < attempts_left run" by blast
  have "find_run s' (rn_id run) = Some (f run)"
    by (rule find_run_appended [where rs = "[]", OF _ found]) (use f in simp_all)
  with f(3) show ?thesis by blast
qed

text \<open>C16: a run that keeps failing ends. Every failure that is not ignored, reported by the worker, found by the
  deadline or found by reconciliation, uses up one of the run's attempts; there are at most three.\<close>

theorem failures_spend_attempts:
  assumes c: "consistent uuid s"
    and r: "(\<exists>cp report adapter error usage. rp_body report = ReportFailed error usage \<and> rp_runId report = i \<and>
        handleRunReport u td cp report adapter s = Inr (res, s')) \<or>
      (\<exists>attempt. handleRunTimeout u td i attempt s = Inr (res, s')) \<or>
      (\<exists>observed detail. oa_runId observed = i \<and> failLostAttempt u td observed detail s = Inr (res, s'))"
    and res: "res \<in> {RepRetryScheduled, RepDeferred, RepFailed}"
  shows "\<exists>run run'. find_run s i = Some run \<and> find_run s' i = Some run' \<and>
    attempts_left run' < attempts_left run \<and> attempts_left run \<le> MAX_RUN_ATTEMPTS"
proof -
  have goal: ?thesis if l: "lockRun s i a = Some (run, agent)" "in_progress run"
    and t: "consistent uuid t" "gw_runs t = gw_runs s" "gw_agents t = gw_agents s"
    and f: "applyFailure u td run agent error v us t = Inr (res, s')" for a run agent t error v us
  proof -
    have "located t run agent"
      using lockRun_SomeD [OF l(1)] l(2) t(2,3) by (simp add: located_def lockAgent_def)
    note S = applyFailure_spends [OF t(1) this f]
    have "find_run s i = Some run" using l(1) by (auto simp: lockRun_def split: option.splits if_splits)
    moreover have "attempts_left run \<le> MAX_RUN_ATTEMPTS"
      using consistentD(4) [OF c, of run] lockRun_SomeD [OF l(1)] by (auto simp: attempts_left_def attempt_ok_def)
    ultimately show ?thesis using S lockRun_SomeD [OF l(1)] by auto
  qed
  from r consider
      cp report adapter error us where "rp_body report = ReportFailed error us" "rp_runId report = i"
        "handleRunReport u td cp report adapter s = Inr (res, s')"
    | attempt where "handleRunTimeout u td i attempt s = Inr (res, s')"
    | observed detail where "oa_runId observed = i" "failLostAttempt u td observed detail s = Inr (res, s')" by blast
  then show ?thesis
  proof cases
    case 1
    obtain run agent where l: "lockRun s i (Some (rp_agentId report)) = Some (run, agent)"
      using 1 res by (auto simp: handleRunReport_def split: option.splits)
    have "consistent uuid (bookUsage u cp report run agent s)" by (rule consistent_same [OF c]) simp_all
    with goal [OF l] 1 l res show ?thesis
      by (auto simp: handleRunReport_def Let_def inProgress_def split: if_splits)
  next
    case 2
    with goal [OF _ _ c] res show ?thesis
      by (auto simp: handleRunTimeout_def inProgress_def split: option.splits if_splits)
  next
    case 3
    with goal [OF _ _ c] res show ?thesis
      by (auto simp: failLostAttempt_def in_progress_def split: option.splits if_splits)
  qed
qed

theorem failures_spend_attempts_witness:
  "\<exists>s' run'. handleRunTimeout (example_uow 601000) example_turn ''r1'' 1 example_busy = Inr (RepRetryScheduled, s') \<and>
    find_run s' ''r1'' = Some run' \<and> attempts_left run' < 3"
proof -
  have l: "lockRun example_busy ''r1'' None = Some (example_run, example_agent ''ceo'' Running)"
    by (simp add: lockRun_def find_run_def lockAgent_def example_busy_def example_run_def example_agent_def)
  have hold: "budgetHoldFor u a example_busy = (None, example_busy)" for u a
    by (simp add: budgetHoldFor_def loadActiveConfig_def example_busy_def example_fresh_def example_config_def)
  have snap: "find_snapshot example_busy ''r1'' = Some (hd (gw_snapshots example_busy))"
    by (simp add: find_snapshot_def example_busy_def)
  have run: "rn_id example_run = ''r1''" "rn_status example_run = RRunning" "rn_attempt example_run = 1"
    "rn_maxAttempts example_run = 3" "rn_timeoutAt example_run = 601000" "u_now (example_uow 601000) = 601000"
    "ag_state (example_agent ''ceo'' Running) = Running"
    by (simp_all add: example_run_def example_uow_def example_agent_def)
  obtain s' where s': "handleRunTimeout (example_uow 601000) example_turn ''r1'' 1 example_busy = Inr (RepRetryScheduled, s')"
    by (simp add: handleRunTimeout_def l inProgress_def in_progress_def run applyFailure_def hold retry_attempt_def snap
        requireTransition_def nextAgentState_def Let_def)
  have "find_run example_busy ''r1'' = Some example_run" "attempts_left example_run = 3"
    by (simp_all add: find_run_def example_busy_def example_run_def attempts_left_def in_progress_def)
  moreover have "\<exists>attempt. handleRunTimeout (example_uow 601000) example_turn ''r1'' attempt example_busy =
      Inr (RepRetryScheduled, s')" using s' by (rule exI [of _ 1])
  note failures_spend_attempts [OF example_busy_consistent [of 0] disjI2 [OF disjI1 [OF this]]]
  ultimately show ?thesis using s' by auto
qed

subsection \<open>Deadlines\<close>

text \<open>C17: a started run has its full time. Once a queued run is reported as started, a timeout job of any
  attempt that fires before the run's own timeout has passed since that report changes nothing.\<close>

theorem started_run_has_its_time:
  assumes c: "consistent uuid s"
    and l: "lockRun s (rp_runId report) (Some (rp_agentId report)) = Some (run, agent)" "rn_status run = RQueued"
    and r: "rp_body report = ReportStarted" "handleRunReport u td cp report adapter s = Inr (RepStarted, s')"
    and early: "u_now u' < u_now u + int (rn_timeoutSeconds run) * 1000"
  shows "handleRunTimeout u' td' (rp_runId report) attempt s' = Inr (RepIgnoredStale, s')"
proof -
  let ?s1 = "bookUsage u cp report run agent s"
  have s1: "?s1 = s" by (simp add: bookUsage_def r(1) Let_def)
  have s': "s' = apply_started u run agent (rp_runtimeVersion report) s"
    using r l by (auto simp: handleRunReport_def s1 Let_def split: if_splits)
  note L = lockRun_SomeD [OF l(1)]
  define f where "f = (\<lambda>x. x\<lparr>rn_status := RRunning, rn_startedAt := Some (u_now u),
      rn_timeoutAt := u_now u + int (rn_timeoutSeconds run) * 1000, rn_runtimeVersion := Some (rp_runtimeVersion report)\<rparr> :: run_row)"
  have runs: "gw_runs s' = update_where (\<lambda>x. rn_id x = rp_runId report) f (gw_runs s)"
    using L by (simp add: s' apply_started_def l(2) Let_def enqueueRunDeadline_def f_def)
  have "find_run s (rp_runId report) = Some run" using l(1) by (auto simp: lockRun_def split: option.splits if_splits)
  then have found: "find_run s' (rp_runId report) = Some (f run)"
    by (rule find_run_appended [where rs = "[]", rotated]) (simp_all add: runs f_def)
  have "rn_status (f run) = RRunning" "u_now u' < rn_timeoutAt (f run)" using early by (simp_all add: f_def)
  then show ?thesis
    by (cases "lockAgent s' (rn_agentId (f run))") (simp_all add: handleRunTimeout_def lockRun_def found)
qed

theorem started_run_has_its_time_witness:
  "\<exists>s'. handleRunReport (example_uow 2000) example_turn example_completion (example_report ReportStarted) Mock
      (example_busy\<lparr>gw_runs := [example_run\<lparr>rn_status := RQueued\<rparr>]\<rparr>) = Inr (RepStarted, s') \<and>
    handleRunTimeout (example_uow 601999) example_turn ''r1'' 1 s' = Inr (RepIgnoredStale, s')"
proof -
  let ?run = "example_run\<lparr>rn_status := RQueued\<rparr>"
  let ?s = "example_busy\<lparr>gw_runs := [?run]\<rparr>"
  let ?agent = "example_agent ''ceo'' Running"
  have c: "consistent (u_uuid (example_uow 2000)) ?s"
  proof (rule run_step_consistent [OF example_busy_consistent, where run = example_run and fate = Kept
        and f = "\<lambda>r. r\<lparr>rn_status := RQueued\<rparr>" and dst = Running])
    show "located example_busy example_run ?agent"
      by (simp add: located_def example_busy_def example_run_def in_progress_def lockAgent_def example_agent_def)
  qed (simp_all add: example_busy_def example_run_def update_where_def agent_states_def set_state_def example_agent_def
      in_progress_def busy_def open_run_def)
  have l: "lockRun ?s ''r1'' (Some ''ceo'') = Some (?run, ?agent)"
    by (simp add: lockRun_def find_run_def lockAgent_def example_busy_def example_run_def example_agent_def)
  have rp: "rp_runId (example_report x) = ''r1''" "rp_agentId (example_report x) = ''ceo''"
    "rp_attempt (example_report x) = 1" "rp_body (example_report x) = x" for x
    by (simp_all add: example_report_def)
  have life: "gw_lifecycle ?s = []" "rn_runtimeAdapter ?run = Mock" "rn_attempt ?run = 1" "rn_timeoutSeconds ?run = 600"
    by (simp_all add: example_busy_def example_fresh_def example_run_def)
  obtain s' where s': "handleRunReport (example_uow 2000) example_turn example_completion (example_report ReportStarted) Mock
      ?s = Inr (RepStarted, s')"
    by (simp add: handleRunReport_def l rp inProgress_def in_progress_def Let_def bookUsage_def
        loadAgentLifecycleStatus_def life del: gateway.update_convs)
  have "u_now (example_uow 601999) < u_now (example_uow 2000) + int (rn_timeoutSeconds ?run) * 1000"
    by (simp add: example_uow_def life)
  moreover have "lockRun ?s (rp_runId (example_report ReportStarted)) (Some (rp_agentId (example_report ReportStarted))) =
      Some (?run, ?agent)" using l by (simp only: rp)
  note started_run_has_its_time [OF c this _ rp(4) s', of "example_uow 601999" example_turn 1]
  ultimately show ?thesis using s' by (auto simp: rp)
qed

subsection \<open>Events delivered more than once\<close>

text \<open>An accepted event is stored once, and nothing else is written to the log.\<close>

lemma ingest_log:
  assumes "ingestInTransaction u td e s = Inr (r, s')"
  shows "(ir_status r = IngestAccepted \<and> \<not> list_ex (stored_event e) (gw_events s) \<and>
      ir_eventId r = er_id (event_row_for u e s) \<and> gw_events s' = gw_events s @ [event_row_for u e s]) \<or>
    (list_ex (stored_event e) (gw_events s) \<and> duplicate u e (payloadHash u e) s = Inr (r, s'))"
proof (cases "list_ex (stored_event e) (gw_events s)")
  case True
  with assms show ?thesis by (simp add: ingestInTransaction_def)
next
  case False
  let ?s1 = "insert_event (event_row_for u e s) s"
  have "silent ?s1 s2 \<Longrightarrow> gw_events s2 = gw_events s @ [event_row_for u e s]" for s2
    by (simp add: silent_def insert_event_def)
  with assms False show ?thesis
    by (auto simp: ingestInTransaction_def Let_def split: option.splits sum.splits
        dest: silent_trans [OF apply_routes_silent schedule_each_silent])
qed

text \<open>C10: redelivered events are harmless. Once an event was ingested, ingesting it again, at any time and
  with any other state of the clock, reports a duplicate of the same stored event and changes nothing; in
  particular it wakes no agent a second time.\<close>

theorem redelivery_changes_nothing:
  assumes "ingestEvent u td e s = Inr (r, s')" and "ir_status r \<noteq> IngestConflict" and "u_sha256Hex u' = u_sha256Hex u"
  shows "ingestEvent u' td' e s' = Inr (\<lparr>ir_status = IngestDuplicate, ir_eventId = ir_eventId r, ir_routes = []\<rparr>, s')"
proof -
  have ext: "externalEvent e = Inr e" and i: "ingestInTransaction u td e s = Inr (r, s')"
    using assms(1) by (auto simp: ingestEvent_def externalEvent_def split: sum.splits if_splits)
  have hash: "payloadHash u' e = payloadHash u e" using assms(3) by (simp add: payloadHash_def)
  have "\<exists>x. find (stored_event e) (gw_events s') = Some x \<and> er_id x = ir_eventId r \<and> er_payloadHash x = payloadHash u e"
    using ingest_log [OF i]
  proof (elim disjE conjE)
    let ?row = "event_row_for u e s"
    assume n: "\<not> list_ex (stored_event e) (gw_events s)" and id: "ir_eventId r = er_id ?row"
      and ev: "gw_events s' = gw_events s @ [?row]"
    have "find (stored_event e) xs = None \<Longrightarrow> stored_event e y \<Longrightarrow> find (stored_event e) (xs @ [y]) = Some y" for xs y
      by (induction xs) (auto split: if_splits)
    moreover have "find (stored_event e) (gw_events s) = None" using n by (auto simp: find_None_iff list_ex_iff)
    moreover have "stored_event e ?row" "er_payloadHash ?row = payloadHash u e"
      by (simp_all add: stored_event_def event_row_for_def)
    ultimately show ?thesis using ev id by auto
  next
    assume "duplicate u e (payloadHash u e) s = Inr (r, s')"
    with assms(2) show ?thesis by (auto simp: duplicate_def split: option.splits if_splits)
  qed
  then obtain x where x: "find (stored_event e) (gw_events s') = Some x" "er_id x = ir_eventId r"
    "er_payloadHash x = payloadHash u e" by blast
  then have "list_ex (stored_event e) (gw_events s')" using find_SomeD [OF x(1)] by (auto simp: list_ex_iff)
  with x hash show ?thesis by (simp add: ingestEvent_def ext ingestInTransaction_def duplicate_def)
qed

theorem redelivery_changes_nothing_witness:
  "\<exists>r s'. ingestEvent (example_uow 2000) example_turn example_mention (example_fresh\<lparr>gw_config := None\<rparr>) = Inr (r, s') \<and>
    ingestEvent (example_uow 3000) example_turn example_mention s' =
      Inr (\<lparr>ir_status = IngestDuplicate, ir_eventId = ir_eventId r, ir_routes = []\<rparr>, s')"
proof -
  let ?s = "example_fresh\<lparr>gw_config := None\<rparr>"
  have x: "externalEvent example_mention = Inr example_mention"
    unfolding externalEvent_def by (rule if_not_P) code_simp
  obtain r s' where r: "ingestEvent (example_uow 2000) example_turn example_mention ?s = Inr (r, s')" "ir_status r = IngestAccepted"
    by (simp add: ingestEvent_def x ingestInTransaction_def Let_def loadActiveConfig_def insert_event_def example_fresh_def)
  have "u_sha256Hex (example_uow 3000) = u_sha256Hex (example_uow 2000)" by (simp add: example_uow_def)
  with redelivery_changes_nothing [OF r(1)] r show ?thesis by fastforce
qed

end
