(* ===== verification/Approval_Properties.thy ===== *)
theory Approval_Properties
  imports Delivery
begin

text \<open>
  What approvals and the outbox promise, over any sequence of commands (\<open>leads_to\<close>): no tool action without a
  human's grant, no decision revised, nothing sent twice; and the conditions of the two moments that matter,
  the grant of a request and the beginning of its action.
\<close>

subsection \<open>Sequences of commands\<close>

inductive leads_to :: "(nat \<Rightarrow> string) \<Rightarrow> gateway \<Rightarrow> gateway \<Rightarrow> bool" for uuid where
  leads_to_same: "leads_to uuid s s"
| leads_to_step: "leads_to uuid s s1 \<Longrightarrow> u_uuid u = uuid \<Longrightarrow>
    leads_to uuid s (snd (withTransaction (perform u td cp gd c s1) s1))"

lemma reachable_leads_to: "reachable uuid s' \<Longrightarrow> \<exists>s. initial s \<and> leads_to uuid s s'"
proof (induction rule: reachable.induct)
  case (reachable_initial s)
  then show ?case using leads_to_same by blast
next
  case (reachable_step s u td cp gd c)
  then show ?case using leads_to_step by blast
qed

lemma leads_to_authority: "leads_to uuid s s' \<Longrightarrow> keeps_authority s s'"
proof (induction rule: leads_to.induct)
  case (leads_to_step s s1 u td cp gd c)
  show ?case
    using leads_to_step.IH keeps_authority_trans [OF leads_to_step.IH perform_authority [of u td cp gd c s1]]
    by (cases "perform u td cp gd c s1" s1 rule: withTransaction_cases) auto
qed (rule keeps_authority_refl)

lemma leads_to_outbox: "leads_to uuid s s' \<Longrightarrow> keeps_outbox s s'"
proof (induction rule: leads_to.induct)
  case (leads_to_step s s1 u td cp gd c)
  show ?case
    using leads_to_step.IH keeps_outbox_trans [OF leads_to_step.IH perform_outbox [of u td cp gd c s1]]
    by (cases "perform u td cp gd c s1" s1 rule: withTransaction_cases) auto
qed (simp add: same_outbox_keeps)

subsection \<open>The grant\<close>

lemma deny_notice: "deny u td a reply s = Inr (v, s') \<Longrightarrow> fst v = NDenied"
  by (auto simp: deny_def Let_def split: sum.splits)

lemma refuse_notice: "refuse_grant u td a reply issues s = Inr (v, s') \<Longrightarrow> fst v = NRefused"
  by (auto simp: refuse_grant_def Let_def split: sum.splits)

lemma decide_granted:
  assumes "decide u td gd a reply command s = Inr (v, s')" and "fst v = NGranted"
  shows "notApprover a reply s = None \<and> command = Approve (code_of u a) \<and> aq_status a = APending \<and>
    u_now u < aq_expiresAt a \<and> executionIssues u gd a s = [] \<and> \<not> isKillSwitchOn s \<and>
    (\<exists>namespace config. toolNamespace (aq_actionType a) = Some namespace \<and>
      accept_grant u td a reply namespace config s = Inr (v, s'))"
proof -
  have app: "notApprover a reply s = None" using assms by (auto simp: decide_def Let_def split: option.splits)
  obtain code where c: "command = Approve code" "decide_command u td gd a reply True code s = Inr (v, s')"
    using assms app by (cases command) (auto simp: decide_def decide_command_def split: if_splits dest: deny_notice)
  then have g: "code = code_of u a" "aq_status a = APending" "u_now u < aq_expiresAt a" "grant u td gd a reply s = Inr (v, s')"
    using assms(2) by (auto simp: decide_command_def split: if_splits)
  from g(4) assms(2) have "executionIssues u gd a s = [] \<and> \<not> isKillSwitchOn s \<and>
    (\<exists>namespace config. toolNamespace (aq_actionType a) = Some namespace \<and>
      accept_grant u td a reply namespace config s = Inr (v, s'))"
    by (auto simp: grant_def Let_def split: option.splits if_splits dest: refuse_notice)
  with app c(1) g show ?thesis by simp
qed

lemma accept_grant_action:
  assumes r: "accept_grant u td a reply namespace config s = Inr (v, s')"
  shows "\<exists>t. gw_toolActions s' = gw_toolActions s @ [t] \<and> ta_approvalId t = aq_id a \<and> ta_status t = TQueued \<and>
    ta_namespace t = namespace \<and> ta_agentId t = aq_requestedByAgentId a \<and> ta_actionType t = aq_actionType a \<and>
    ta_actionParams t = aq_actionParams a \<and> ta_immutableActionHash t = aq_immutableActionHash a \<and>
    ta_deadlineAt t = u_now u + TOOL_BEGIN_WINDOW_MS"
proof -
  have keep: "gw_toolActions s' = gw_toolActions s6" if "recordDecision u td b type user s6 = Inr (x, s')" for b type user s6 x
    using ingest_undecided [OF that [unfolded recordDecision_def]] by (simp add: undecided_def)
  have frame: "gw_toolActions (audit u actor x y z d (extendApprovalWait u i until (enqueueToolAction u t
      (record_decision u run agent type verdict reason s2)))) = gw_toolActions s2"
    for actor x y z d i until t run agent type verdict reason s2
    by (rule decision_logD(2)) simp
  show ?thesis
    using r unfolding accept_grant_def Let_def
    by (auto simp: insert_action_def update_approval_def frame split: sum.splits if_splits dest!: keep)
qed

lemma handleApprovalReply_Notice:
  assumes "handleApprovalReply u td gd reply s = Inr (Notice n, s')"
  obtains command i cpost a action v s1 where "parseApprovalCommand (rep_message reply) = Some command"
    "approvalByCardPost s (rep_rootPostId reply) (rep_rootCardKey reply) = Card i cpost"
    "ck_channelId cpost = rep_channelId reply" "lockApproval s i = Some (a, action)"
    "decide u td gd a reply command s = Inr (v, s1)" "n = fst v" "s' = answer_reply u a reply cpost v s1"
    "\<not> list_ex (\<lambda>y. ay_postId y = rep_postId reply) (gw_replies s)"
proof (cases "parseApprovalCommand (rep_message reply)")
  case None
  with assms show thesis by (simp add: handleApprovalReply_def)
next
  case (Some command)
  show thesis
  proof (cases "approvalByCardPost s (rep_rootPostId reply) (rep_rootCardKey reply)")
    case (Card i cpost)
    with assms Some show thesis
      by (auto simp: handleApprovalReply_def split: if_splits option.splits sum.splits intro: that)
  qed (use assms Some in \<open>simp_all add: handleApprovalReply_def\<close>)
qed

lemma answer_reply_actions [simp]: "gw_toolActions (answer_reply u a reply cpost v s) = gw_toolActions s"
  unfolding answer_reply_def by (subst decision_logD(2) [OF notice_fx.decisions]) simp

lemma answer_reply_replies:
  "\<exists>y \<in> set (gw_replies (answer_reply u a reply cpost v s)). ay_postId y = rep_postId reply"
  unfolding answer_reply_def by (subst decision_logD(3) [OF notice_fx.decisions]) simp

text \<open>C5: a grant is a human owner's exact word on a live request. If a reply grants a request, then it
  was posted in the thread and channel of the request's delivered card, by an active human account that is
  no integration, is among the request's approvers and still an owner; it is \<open>approve\<close> with the code of that
  very request; the request was pending and not expired; the policy of the moment permits the action, whose
  parameters still match the approved hash; and the kill switch is off. Exactly one tool action is queued,
  and it carries the approved action.\<close>

theorem grant_conditions:
  assumes r: "handleApprovalReply u td gd reply s = Inr (Notice NGranted, s')"
  shows "\<exists>a cpost t. approvalByCardPost s (rep_rootPostId reply) (rep_rootCardKey reply) = Card (aq_id a) cpost \<and>
    ck_channelId cpost = rep_channelId reply \<and> find_approval s (aq_id a) = Some a \<and>
    parseApprovalCommand (rep_message reply) = Some (Approve (code_of u a)) \<and>
    \<not> auth_isBot (rep_author reply) \<and> \<not> auth_automated (rep_author reply) \<and> auth_active (rep_author reply) \<and>
    rep_userId reply \<in> set (aq_allowedApproverUserIds a) \<inter> set (loadOwnerUserIds s) \<and>
    aq_status a = APending \<and> u_now u < aq_expiresAt a \<and> executionIssues u gd a s = [] \<and> \<not> isKillSwitchOn s \<and>
    approvalActionHash (u_sha256Hex u) (aq_actionType a) (aq_actionParams a) = aq_immutableActionHash a \<and>
    gw_toolActions s' = gw_toolActions s @ [t] \<and> ta_status t = TQueued \<and> ta_approvalId t = aq_id a \<and>
    ta_actionType t = aq_actionType a \<and> ta_actionParams t = aq_actionParams a \<and>
    ta_immutableActionHash t = aq_immutableActionHash a"
proof -
  from r obtain command i cpost a action v s1 where h:
    "parseApprovalCommand (rep_message reply) = Some command"
    "approvalByCardPost s (rep_rootPostId reply) (rep_rootCardKey reply) = Card i cpost"
    "ck_channelId cpost = rep_channelId reply" "lockApproval s i = Some (a, action)"
    "decide u td gd a reply command s = Inr (v, s1)" "NGranted = fst v" "s' = answer_reply u a reply cpost v s1"
    by (rule handleApprovalReply_Notice)
  have a: "find_approval s (aq_id a) = Some a" "aq_id a = i"
    using h(4) lockApproval_SomeD(2) [OF h(4)] by (auto simp: lockApproval_def)
  note d = decide_granted [OF h(5) h(6) [symmetric]]
  obtain namespace config where acc: "accept_grant u td a reply namespace config s = Inr (v, s1)" using d by blast
  have who: "\<not> auth_isBot (rep_author reply) \<and> \<not> auth_automated (rep_author reply) \<and> auth_active (rep_author reply) \<and>
      rep_userId reply \<in> set (aq_allowedApproverUserIds a) \<inter> set (loadOwnerUserIds s)"
    using d by (auto simp: notApprover_def split: if_splits)
  have hash: "approvalActionHash (u_sha256Hex u) (aq_actionType a) (aq_actionParams a) = aq_immutableActionHash a"
    using d by (auto simp: executionIssues_def split: option.splits if_splits)
  from accept_grant_action [OF acc] obtain t where "gw_toolActions s1 = gw_toolActions s @ [t]" "ta_approvalId t = aq_id a"
    "ta_status t = TQueued" "ta_actionType t = aq_actionType a" "ta_actionParams t = aq_actionParams a"
    "ta_immutableActionHash t = aq_immutableActionHash a" by blast
  with h a d who hash show ?thesis by (intro exI [of _ a] exI [of _ cpost] exI [of _ t]) simp
qed

text \<open>A request of the first agent, its card delivered, and the owner's answer.\<close>

definition example_request :: approval_row where
  "example_request =
    \<lparr>aq_id = ''a1'', aq_requestedByAgentId = ''ceo'', aq_runId = ''r1'', aq_actionType = ''publish.post'',
     aq_actionParams = [\<lparr>ap_name = ''title'', ap_value = ''News''\<rparr>],
     aq_immutableActionHash = approvalActionHash (\<lambda>x. x) ''publish.post'' [\<lparr>ap_name = ''title'', ap_value = ''News''\<rparr>],
     aq_actionSummary = ''Publish the news'', aq_riskLevel = RHigh, aq_status = APending,
     aq_allowedApproverUserIds = [''u0000000000000000000000001''], aq_nonce = ''nonce'', aq_createdAt = 1000,
     aq_expiresAt = 90000, aq_decidedByUserId = None, aq_decidedAt = None, aq_decisionPostId = None,
     aq_resolvedAt = None\<rparr>"

definition example_card :: outbox_row where
  "example_card =
    \<lparr>ox_id = ''o1'', ox_destination = ''channel/town'',
     ox_payload = MattermostApproval \<lparr>cd_approvalId = ''a1'', cd_channelName = ''town'', cd_channelId = None,
       cd_requestedByAgentId = ''ceo'', cd_actionType = ''publish.post'', cd_actionSummary = ''Publish the news'',
       cd_actionParams = aq_actionParams example_request, cd_riskLevel = RHigh,
       cd_immutableActionHash = aq_immutableActionHash example_request, cd_expiresAt = 90000,
       cd_approvalCode = ''0000-0000-0000'', cd_customRequestPreview = None\<rparr>,
     ox_idempotencyKey = ''approval-card:a1'', ox_status = OSent, ox_attempts = 1, ox_maxAttempts = 8,
     ox_nextAttemptAt = 1000, ox_lockedUntil = None, ox_lastErrorRedacted = None,
     ox_receipt = Some (JObj [(''postId'', JStr ''p1''), (''channelId'', JStr ''c1'')]),
     ox_runId = Some ''r1'', ox_createdAt = 1000, ox_sentAt = Some 1000, ox_contentExpired = False\<rparr>"

definition example_asked :: gateway where
  "example_asked = example_fresh\<lparr>gw_agents := [example_agent ''ceo'' Waiting],
     gw_approvals := [example_request], gw_outbox := [example_card]\<rparr>"

definition example_answer :: approval_reply where
  "example_answer = \<lparr>rep_postId = ''p2'', rep_rootPostId = ''p1'', rep_rootCardKey = None, rep_channelId = ''c1'',
     rep_userId = ''u0000000000000000000000001'', rep_message = ''approve 0000-0000-0000'',
     rep_author = \<lparr>auth_isBot = False, auth_active = True, auth_automated = False\<rparr>\<rparr>"

text \<open>The event of a decision wakes nobody: it is reserved, addresses nobody, and no wait is left.\<close>

lemma decision_ingest:
  assumes "ev_type e \<in> {ApprovalGranted, ApprovalDenied}" and "gw_waits s = []"
  shows "\<exists>r s'. ingestInTransaction u td e s = Inr (r, s')"
proof (cases "list_ex (stored_event e) (gw_events s)")
  case True
  then obtain x where "find (stored_event e) (gw_events s) = Some x"
    by (cases "find (stored_event e) (gw_events s)") (auto simp: find_None_iff list_ex_iff)
  with True show ?thesis by (simp add: ingestInTransaction_def duplicate_def)
next
  case False
  have post: "mattermostPost e = None" "isReservedEventType (ev_type e)" "ev_type e \<noteq> AgentWaitTimeout"
    using assms(1) by (auto simp: mattermostPost_def MATTERMOST_POST_EVENT_TYPES_def isReservedEventType_def startsWith_def)
  have "routeEvent (u_uuid_ok u) \<lparr>ri_event = e, ri_agents = agents, ri_waits = [], ri_limits = l, ri_stats = st, ri_now = n\<rparr> = []"
    for agents l st n
  proof -
    have "waitCandidates (u_uuid_ok u) \<lparr>ri_event = e, ri_agents = agents, ri_waits = [], ri_limits = l, ri_stats = st, ri_now = n\<rparr> = []"
      using post(3) by (simp add: waitCandidates_def byAgent_waits_def)
    moreover have "wakeCandidates \<lparr>ri_event = e, ri_agents = agents, ri_waits = [], ri_limits = l, ri_stats = st, ri_now = n\<rparr> T = []" for T
      using post(1,2) by (auto simp: wakeCandidates_def eventTargets_def subscribes_def)
    ultimately show ?thesis by (simp add: routeEvent_def routeCandidates_def)
  qed
  moreover have "candidateWaits u e (insert_event x s) = []" for x
    using assms(2) by (simp add: candidateWaits_def insert_event_def toActiveWaits_def Let_def)
  ultimately show ?thesis
    using False by (auto simp: ingestInTransaction_def Let_def toSchedule_def js_set_def split: option.split)
qed

lemma accept_grant_total:
  assumes "list_all (\<lambda>x. ta_id x \<noteq> fresh_id u s \<and> ta_approvalId x \<noteq> aq_id a \<and>
      ta_idempotencyKey x \<noteq> toolActionIdempotencyKey (aq_id a) (aq_immutableActionHash a)) (gw_toolActions s)"
    and "gw_waits s = []"
  shows "\<exists>s'. accept_grant u td a reply namespace config s = Inr ((NGranted, None), s')"
proof -
  have total: "recordDecision u td b ApprovalGranted user t \<noteq> Inl e" if "gw_waits t = []" for b user t e
  proof -
    have "\<exists>r s'. recordDecision u td b ApprovalGranted user t = Inr (r, s')"
      unfolding recordDecision_def by (rule decision_ingest) (use that in \<open>simp_all add: approval_event_def internalEvent_def\<close>)
    then show ?thesis by auto
  qed
  have waits: "gw_waits (extendApprovalWait u i until t) = []" if "gw_waits t = []" for i until t
    using that by (simp add: extendApprovalWait_def)
  have insert: "insert_action t x = Inr (x\<lparr>gw_toolActions := gw_toolActions x @ [t], gw_ids := Suc (gw_ids x)\<rparr>)"
    if "\<not> list_ex (\<lambda>y. ta_id y = ta_id t \<or> ta_approvalId y = ta_approvalId t \<or> ta_idempotencyKey y = ta_idempotencyKey t)
      (gw_toolActions x)" for t x
    using that by (simp add: insert_action_def)
  show ?thesis
    using assms unfolding accept_grant_def Let_def
    by (subst insert) (auto simp: update_approval_def fresh_id_def list_ex_iff list_all_iff total waits
        enqueueToolAction_def split: sum.split prod.split)
qed

lemma zero_shifted: "(push_bit k ^^ n) (0 :: nat) = 0"
  by (induction n) simp_all

lemma example_code: "code_of (example_uow 2000) a = ''0000-0000-0000''"
proof -
  have "digest_bits (replicate 32 0) = 0" by (simp add: digest_bits_def zero_shifted)
  moreover have "grouped (code_chars 0) = ''0000-0000-0000''"
    by (simp add: grouped_def code_chars_def CODE_LENGTH_def CROCKFORD_def upt_rec)
  ultimately show ?thesis by (simp add: code_of_def approvalCode_def example_uow_def)
qed

lemma example_decision:
  "parseApprovalCommand (rep_message example_answer) = Some (Approve ''0000-0000-0000'')"
  "approvalByCardPost example_asked ''p1'' None = Card ''a1'' \<lparr>ck_postId = ''p1'', ck_channelId = ''c1''\<rparr>"
  "notApprover example_request example_answer example_asked = None"
  "executionIssues (example_uow 2000) example_grants example_request example_asked = []"
  "toolNamespace ''publish.post'' = Some ''publish''"
  by code_simp+

lemma example_asked_simps:
  "lockApproval example_asked ''a1'' = Some (example_request, None)" "gw_replies example_asked = []"
  "gw_toolActions example_asked = []" "gw_waits example_asked = []" "isKillSwitchOn example_asked = False"
  "loadActiveConfig example_asked = Some example_config" "gw_approvals example_asked = [example_request]"
  "gw_outbox example_asked = [example_card]"
  by (simp_all add: lockApproval_def find_approval_def action_of_def example_asked_def example_fresh_def example_request_def
      isKillSwitchOn_def loadActiveConfig_def)

lemma example_answer_simps:
  "rep_rootPostId example_answer = ''p1''" "rep_rootCardKey example_answer = None" "rep_channelId example_answer = ''c1''"
  "rep_postId example_answer = ''p2''"
  by (simp_all add: example_answer_def)

lemma example_granted:
  "\<exists>s' t. handleApprovalReply (example_uow 2000) example_turn example_grants example_answer example_asked =
      Inr (Notice NGranted, s') \<and> gw_toolActions s' = [t]"
proof -
  let ?u = "example_uow 2000"
  have row: "aq_status example_request = APending" "aq_expiresAt example_request = 90000"
    "aq_actionType example_request = ''publish.post''" "u_now ?u = 2000"
    by (simp_all add: example_request_def example_uow_def)
  obtain s1 where acc: "accept_grant ?u example_turn example_request example_answer ''publish'' example_config example_asked =
      Inr ((NGranted, None), s1)"
    using accept_grant_total [of ?u example_asked example_request example_turn example_answer "''publish''" example_config]
    by (auto simp: example_asked_simps)
  have "decide ?u example_turn example_grants example_request example_answer (Approve ''0000-0000-0000'') example_asked =
      Inr ((NGranted, None), s1)"
    using acc by (simp add: decide_def example_decision example_code decide_command_def row grant_def example_asked_simps)
  then have "handleApprovalReply ?u example_turn example_grants example_answer example_asked =
      Inr (Notice NGranted, answer_reply ?u example_request example_answer \<lparr>ck_postId = ''p1'', ck_channelId = ''c1''\<rparr>
        (NGranted, None) s1)"
    by (simp add: handleApprovalReply_def example_decision(1,2) example_answer_simps example_asked_simps)
  with accept_grant_action [OF acc] show ?thesis by (auto simp: example_asked_simps)
qed

theorem grant_conditions_witness:
  "\<exists>s' a t. handleApprovalReply (example_uow 2000) example_turn example_grants example_answer example_asked =
      Inr (Notice NGranted, s') \<and> find_approval example_asked (aq_id a) = Some a \<and> u_now (example_uow 2000) < aq_expiresAt a \<and>
    gw_toolActions s' = [t] \<and> ta_immutableActionHash t = aq_immutableActionHash a"
proof -
  from example_granted obtain s' where s': "handleApprovalReply (example_uow 2000) example_turn example_grants example_answer
      example_asked = Inr (Notice NGranted, s')" by blast
  from grant_conditions [OF s'] s' show ?thesis by (auto simp: example_asked_simps)
qed

subsection \<open>Over any sequence of commands\<close>

lemma leads_to_one:
  "u_uuid u = uuid \<Longrightarrow> perform u td cp gd c s = Inr (x, s') \<Longrightarrow> leads_to uuid s s'"
  using leads_to_step [OF leads_to_same, of u uuid s td cp gd c] by (simp add: withTransaction_def)

lemma example_asked_authorised: "authorised example_asked"
  by (simp add: authorised_def example_asked_simps approval_ok_def fresh_request_def example_request_def)

text \<open>The answer as a command.\<close>

lemma example_reached:
  "\<exists>s' t. leads_to (u_uuid (example_uow 2000)) example_asked s' \<and> gw_toolActions s' = [t]"
proof -
  from example_granted obtain s' t where s': "handleApprovalReply (example_uow 2000) example_turn example_grants example_answer
      example_asked = Inr (Notice NGranted, s')" "gw_toolActions s' = [t]" by blast
  then have "perform (example_uow 2000) example_turn example_completion example_grants (ReplyToCard example_answer) example_asked =
      Inr ((), s')" by (simp add: discard_Inr)
  from leads_to_one [OF refl this] s'(2) show ?thesis by blast
qed

text \<open>C4: no tool action without a human's grant. Starting from any state whose actions are authorised (every
  initial state is one), after any sequence of commands every tool action belongs to a request that is granted,
  decided by a user the request names as an approver; it carries that request's agent, type, parameters and
  hash; and it is the only action of that request.\<close>

theorem actions_need_a_grant:
  assumes "authorised s" and "leads_to uuid s s'" and "t \<in> set (gw_toolActions s')"
  shows "\<exists>a \<in> set (gw_approvals s'). aq_id a = ta_approvalId t \<and> aq_status a = AGranted \<and>
    (\<exists>user \<in> set (aq_allowedApproverUserIds a). aq_decidedByUserId a = Some user) \<and>
    ta_agentId t = aq_requestedByAgentId a \<and> ta_actionType t = aq_actionType a \<and>
    ta_actionParams t = aq_actionParams a \<and> ta_immutableActionHash t = aq_immutableActionHash a \<and>
    (\<forall>t' \<in> set (gw_toolActions s'). ta_approvalId t' = aq_id a \<longrightarrow> t' = t)"
proof -
  have ok: "authorised s'" using leads_to_authority [OF assms(2)] assms(1) by (simp add: keeps_authority_def)
  then obtain a where a: "a \<in> set (gw_approvals s')" "action_for a t" using assms(3) by (auto simp: authorised_def)
  moreover have "granted_by_approver a" using ok a by (auto simp: authorised_def approval_ok_def action_for_def)
  moreover have "\<forall>t' \<in> set (gw_toolActions s'). ta_approvalId t' = aq_id a \<longrightarrow> t' = t"
    using ok unique_by_key [of ta_approvalId "gw_toolActions s'"] assms(3) a(2) by (auto simp: authorised_def action_for_def)
  ultimately show ?thesis by (intro bexI [of _ a]) (auto simp: action_for_def granted_by_approver_def)
qed

theorem actions_need_a_grant_witness:
  "\<exists>s' t a. leads_to (u_uuid (example_uow 2000)) example_asked s' \<and> t \<in> set (gw_toolActions s') \<and>
    a \<in> set (gw_approvals s') \<and> aq_id a = ta_approvalId t \<and> aq_status a = AGranted"
proof -
  from example_reached obtain s' t where "leads_to (u_uuid (example_uow 2000)) example_asked s'" "gw_toolActions s' = [t]" by blast
  with actions_need_a_grant [OF example_asked_authorised this(1), of t] show ?thesis by (metis list.set_intros(1))
qed

text \<open>C11: decisions are final. After any sequence of commands every request is still there, unchanged but for
  its decision; one that was decided keeps its verdict, one that names who decided it keeps that name, and a
  recorded resolution stays; every tool action is still there, carrying the same action, and its status has
  only moved along the transitions the database admits.\<close>

theorem decisions_are_final:
  assumes "authorised s" and "leads_to uuid s s'"
  shows "(\<forall>a \<in> set (gw_approvals s). \<exists>a' \<in> set (gw_approvals s'). same_request a a' \<and>
      (aq_status a \<noteq> APending \<longrightarrow> aq_status a' = aq_status a) \<and>
      (aq_decidedByUserId a \<noteq> None \<longrightarrow> aq_decidedByUserId a' = aq_decidedByUserId a) \<and>
      (aq_resolvedAt a \<noteq> None \<longrightarrow> aq_resolvedAt a' = aq_resolvedAt a)) \<and>
    (\<forall>t \<in> set (gw_toolActions s). \<exists>t' \<in> set (gw_toolActions s'). same_action t t' \<and>
      forward_move\<^sup>*\<^sup>* (ta_status t) (ta_status t'))"
proof -
  have "decisions_evolve s s'" using leads_to_authority [OF assms(2)] assms(1) by (simp add: keeps_authority_def)
  then have "\<exists>a' \<in> set (gw_approvals s'). approval_requests_guard a a'" if "a \<in> set (gw_approvals s)" for a
    using evolves_mem that by (auto simp: decisions_evolve_def)
  moreover have "\<exists>t' \<in> set (gw_toolActions s'). action_evolves t t'" if "t \<in> set (gw_toolActions s)" for t
    using \<open>decisions_evolve s s'\<close> evolves_mem that by (auto simp: decisions_evolve_def)
  ultimately show ?thesis
    unfolding approval_requests_guard_def written_once_def action_evolves_def onward_is_closure by blast
qed

theorem decisions_are_final_witness:
  "\<exists>s' t a'. leads_to (u_uuid (example_uow 2000)) example_asked s' \<and> gw_toolActions s' = [t] \<and>
    a' \<in> set (gw_approvals s') \<and> same_request example_request a'"
proof -
  from example_reached obtain s' t where s': "leads_to (u_uuid (example_uow 2000)) example_asked s'" "gw_toolActions s' = [t]" by blast
  with decisions_are_final [OF example_asked_authorised s'(1)] show ?thesis by (auto simp: example_asked_simps)
qed

text \<open>C12: a reply counts once. Once a reply to a card was answered, handling the same post again, whatever the
  clock and the policy by then, is recognised as a replay and changes nothing at all.\<close>

theorem replayed_reply_changes_nothing:
  assumes "authorised s" and r: "handleApprovalReply u td gd reply s = Inr (Notice n, s')"
  shows "handleApprovalReply u' td' gd' reply s' = Inr (Replayed, s')"
proof -
  from r obtain command i cpost a action v s1 where h:
    "parseApprovalCommand (rep_message reply) = Some command"
    "approvalByCardPost s (rep_rootPostId reply) (rep_rootCardKey reply) = Card i cpost"
    "ck_channelId cpost = rep_channelId reply" "lockApproval s i = Some (a, action)"
    "s' = answer_reply u a reply cpost v s1"
    by (rule handleApprovalReply_Notice)
  have found: "approvalByCardPost s' (rep_rootPostId reply) (rep_rootCardKey reply) = Card i cpost"
    by (rule keeps_card_lookup [OF cards.handleApprovalReply_step [OF r] h(2)])
  have "a \<in> set (gw_approvals s)" "aq_id a = i" using lockApproval_SomeD [OF h(4)] by auto
  moreover have "decisions_evolve s s'"
    using authority.handleApprovalReply_step [OF r] assms(1) by (simp add: keeps_authority_def)
  ultimately obtain a' where "a' \<in> set (gw_approvals s')" "aq_id a' = i"
    using evolves_mem by (fastforce simp: decisions_evolve_def approval_requests_guard_def same_request_def)
  then obtain b where "find_approval s' i = Some b"
    by (cases "find_approval s' i") (auto simp: find_approval_def find_None_iff)
  moreover have "list_ex (\<lambda>y. ay_postId y = rep_postId reply) (gw_replies s')"
    using answer_reply_replies h(5) by (auto simp: list_ex_iff)
  ultimately show ?thesis
    using h(1,3) found by (simp add: handleApprovalReply_def lockApproval_def)
qed

theorem replayed_reply_changes_nothing_witness:
  "\<exists>s'. handleApprovalReply (example_uow 2000) example_turn example_grants example_answer example_asked =
      Inr (Notice NGranted, s') \<and>
    handleApprovalReply (example_uow 9000) example_turn example_grants example_answer s' = Inr (Replayed, s')"
  using example_granted replayed_reply_changes_nothing [OF example_asked_authorised, of "example_uow 2000"] by blast

subsection \<open>Beginning an action\<close>

lemma find_action_unique:
  assumes "authorised s" and "t \<in> set (gw_toolActions s)"
  shows "find_action s (ta_id t) = Some t"
proof -
  obtain x where x: "find_action s (ta_id t) = Some x"
    using assms(2) by (cases "find_action s (ta_id t)") (auto simp: find_action_def find_None_iff)
  with find_action_SomeD [OF x] assms unique_by_key [of ta_id "gw_toolActions s" x t] show ?thesis
    by (simp add: authorised_def)
qed

lemma begin_verdict_Begin:
  assumes "begin_verdict_of now serves i attempt hash s = Begin key"
  obtains t where "find_action s i = Some t" "serves (ta_namespace t)" "\<not> gw_killSwitch s" "ta_status t = TQueued"
    "ta_attempt t = attempt" "ta_immutableActionHash t = hash" "ta_cancelRequestedAt t = None" "now < ta_deadlineAt t"
    "map_option aq_status (find_approval s (ta_approvalId t)) = Some AGranted"
    "map_option ag_enabled (lockAgent s (ta_agentId t)) = Some True" "key = ta_idempotencyKey t"
  using assms by (auto simp: begin_verdict_of_def split: option.splits if_splits)

lemma begun_never_again:
  assumes ok: "authorised s" and r: "gateway_begin_tool_action now serves i attempt hash s = (Begin key, s')"
    and l: "leads_to uuid s' s''"
  shows "begin_verdict_of now' serves' i attempt' hash' s'' \<noteq> Begin key'"
proof -
  have v: "begin_verdict_of now serves i attempt hash s = Begin key"
    and s': "s' = update_action i (\<lambda>t. t\<lparr>ta_status := TRunning, ta_startedAt := Some now\<rparr>) s"
    using r by (auto simp: gateway_begin_tool_action_def Let_def)
  obtain t where "find_action s i = Some t" using v by (rule begin_verdict_Begin)
  then have t: "t \<in> set (gw_toolActions s)" "ta_id t = i" using find_action_SomeD by auto
  have "authorised s'"
    using authority.begin_step [of s now serves i attempt hash] ok r by (simp add: keeps_authority_def)
  with leads_to_authority [OF l] have ok: "authorised s''" "decisions_evolve s' s''" by (simp_all add: keeps_authority_def)
  let ?t = "t\<lparr>ta_status := TRunning, ta_startedAt := Some now\<rparr>"
  have "?t \<in> set (gw_toolActions s')" using t s' by (auto simp: update_action_def set_update_where)
  then obtain t' where t': "t' \<in> set (gw_toolActions s'')" "action_evolves ?t t'"
    using ok(2) evolves_mem by (fastforce simp: decisions_evolve_def)
  then have "ta_status t' \<noteq> TQueued" "ta_id t' = i" using t(2) by (auto simp: action_evolves_def same_action_def)
  with find_action_unique [OF ok(1) t'(1)] show ?thesis by (auto simp: begin_verdict_of_def)
qed

text \<open>C6: what begins was approved, and begins once. If a runner is told to begin an action, the kill switch is
  off, the action is queued at the attempt the runner holds, within its deadline, not cancelled and in a namespace
  of the runner, its agent is enabled, and its request was granted by one of its approvers for exactly the hash the
  runner presented, the type and the parameters stored; and after that no sequence of commands lets anyone begin
  that action again.\<close>

theorem begin_conditions:
  assumes ok: "authorised s" and r: "gateway_begin_tool_action now serves i attempt hash s = (Begin key, s')"
  shows "(\<exists>t \<in> set (gw_toolActions s). \<exists>a \<in> set (gw_approvals s). ta_id t = i \<and> key = ta_idempotencyKey t \<and>
      ta_status t = TQueued \<and> ta_attempt t = attempt \<and> serves (ta_namespace t) \<and> ta_cancelRequestedAt t = None \<and>
      now < ta_deadlineAt t \<and> (\<exists>agent. lockAgent s (ta_agentId t) = Some agent \<and> ag_enabled agent) \<and>
      aq_id a = ta_approvalId t \<and> aq_status a = AGranted \<and>
      (\<exists>user \<in> set (aq_allowedApproverUserIds a). aq_decidedByUserId a = Some user) \<and>
      hash = aq_immutableActionHash a \<and> ta_actionParams t = aq_actionParams a \<and> ta_actionType t = aq_actionType a) \<and>
    \<not> gw_killSwitch s \<and>
    (\<forall>uuid s'' now' serves' attempt' hash' key'. leads_to uuid s' s'' \<longrightarrow>
      begin_verdict_of now' serves' i attempt' hash' s'' \<noteq> Begin key')"
proof -
  have "begin_verdict_of now serves i attempt hash s = Begin key"
    using r by (auto simp: gateway_begin_tool_action_def Let_def)
  then obtain t where t: "find_action s i = Some t" "serves (ta_namespace t)" "\<not> gw_killSwitch s" "ta_status t = TQueued"
    "ta_attempt t = attempt" "ta_immutableActionHash t = hash" "ta_cancelRequestedAt t = None" "now < ta_deadlineAt t"
    "map_option ag_enabled (lockAgent s (ta_agentId t)) = Some True" "key = ta_idempotencyKey t"
    by (rule begin_verdict_Begin)
  from t(1) have mem: "t \<in> set (gw_toolActions s)" "ta_id t = i" using find_action_SomeD by auto
  obtain a where a: "a \<in> set (gw_approvals s)" "action_for a t" using ok mem by (auto simp: authorised_def)
  then have "granted_by_approver a" using ok by (auto simp: authorised_def approval_ok_def action_for_def)
  with a t mem begun_never_again [OF ok r] show ?thesis
    by (intro conjI bexI [of _ t] bexI [of _ a]) (auto simp: action_for_def granted_by_approver_def)
qed

definition example_action :: tool_action_row where
  "example_action =
    \<lparr>ta_id = ''t1'', ta_approvalId = ''a1'', ta_agentId = ''ceo'', ta_namespace = ''publish'', ta_actionType = ''publish.post'',
     ta_actionParams = aq_actionParams example_request, ta_immutableActionHash = aq_immutableActionHash example_request,
     ta_idempotencyKey = ''k1'', ta_status = TQueued, ta_attempt = 1, ta_configVersion = ''v1'', ta_deadlineAt = 50000,
     ta_cancelRequestedAt = None, ta_startedAt = None, ta_completedAt = None, ta_receipt = None, ta_errorRedacted = None,
     ta_createdAt = 2000\<rparr>"

definition example_approved :: gateway where
  "example_approved = example_asked\<lparr>gw_toolActions := [example_action],
     gw_approvals := [example_request\<lparr>aq_status := AGranted, aq_decidedByUserId := Some ''u0000000000000000000000001'',
       aq_decidedAt := Some 2000, aq_decisionPostId := Some ''p2''\<rparr>]\<rparr>"

theorem begin_conditions_witness:
  "\<exists>s'. gateway_begin_tool_action 3000 (\<lambda>n. n = ''publish'') ''t1'' 1 (aq_immutableActionHash example_request) example_approved =
      (Begin ''k1'', s') \<and> \<not> gw_killSwitch example_approved \<and>
    begin_verdict_of 4000 (\<lambda>n. n = ''publish'') ''t1'' 1 (aq_immutableActionHash example_request) s' \<noteq> Begin ''k1''"
proof -
  have ok: "authorised example_approved"
    by (simp add: authorised_def example_approved_def example_action_def approval_ok_def granted_by_approver_def action_for_def)
      (simp add: example_request_def)
  have "begin_verdict_of 3000 (\<lambda>n. n = ''publish'') ''t1'' 1 (aq_immutableActionHash example_request) example_approved = Begin ''k1''"
    by (simp add: begin_verdict_of_def find_action_def find_approval_def lockAgent_def example_approved_def example_asked_def
        example_action_def example_fresh_def example_agent_def) (simp add: example_request_def)
  then obtain s' where r: "gateway_begin_tool_action 3000 (\<lambda>n. n = ''publish'') ''t1'' 1 (aq_immutableActionHash example_request)
      example_approved = (Begin ''k1'', s')" by (simp add: gateway_begin_tool_action_def Let_def)
  from begin_conditions [OF ok r] leads_to_same [of "\<lambda>_. []" s'] r show ?thesis by blast
qed

subsection \<open>Delivery\<close>



lemma update_claimable:
  assumes "distinct (map ox_id xs)" and "find (claimable now i) xs = Some x"
  shows "update_where (claimable now i) f xs = map (\<lambda>z. if ox_id z = i then f x else z) xs"
proof -
  have x: "claimable now i x" "x \<in> set xs" using find_SomeD [OF assms(2)] by auto
  then have "z = x" if "z \<in> set xs" "ox_id z = i" for z
    using that unique_by_key [OF assms(1), of z x] by (auto simp: claimable_def)
  with x show ?thesis by (auto simp: update_where_def claimable_def)
qed

text \<open>The table \<open>xs\<close> with the row of id \<open>i\<close> replaced, and what settling a claim does to it.\<close>

abbreviation with_row :: "string \<Rightarrow> outbox_row \<Rightarrow> outbox_row list \<Rightarrow> outbox_row list" where
  "with_row i y xs \<equiv> map (\<lambda>z. if ox_id z = i then y else z) xs"

lemma claimed_table:
  assumes "distinct (map ox_id (gw_outbox s))" and "find (claimable (u_now u) i) (gw_outbox s) = Some x"
  obtains s1 where "claim_item u lease i s = (Some (claimed_row (u_now u + int lease * 1000) x), s1)"
    "gw_outbox s1 = with_row i (claimed_row (u_now u + int lease * 1000) x) (gw_outbox s)"
  using update_claimable [OF assms] assms(2) by (simp add: claim_item_def Let_def)

lemma settled_table:
  assumes "owned i n c" and "z \<in> set xs" and "ox_id z = i"
  shows "update_where (owned i n) f (with_row i c xs) = with_row i (f c) xs" "list_ex (owned i n) (with_row i c xs)"
proof -
  show "update_where (owned i n) f (with_row i c xs) = with_row i (f c) xs"
    using assms(1) by (auto simp: update_where_def owned_def)
  show "list_ex (owned i n) (with_row i c xs)"
    unfolding list_ex_iff set_map bex_simps using assms by (intro bexI [of _ z]) simp_all
qed

lemma settle_failed_table:
  assumes c: "owned (ox_id c) (ox_attempts c) c" "0 < ox_attempts c" and z: "z \<in> set xs" "ox_id z = ox_id c"
    and s1: "gw_outbox s1 = with_row (ox_id c) c xs" and r: "settle_failed u c retryable error s1 = (res, s2)"
  shows "\<exists>y. same_item c y \<and> ox_attempts y = ox_attempts c \<and> gw_outbox s2 = with_row (ox_id c) y xs \<and>
    (res = Some DeadItem \<and> ox_status y = ODead \<or>
     res = None \<and> ox_status y = OPending \<and> ox_attempts y < ox_maxAttempts y \<and>
       u_now u + 5000 \<le> ox_nextAttemptAt y \<and> ox_nextAttemptAt y \<le> u_now u + 300000)"
proof -
  let ?dead = "\<not> retryable \<or> ox_maxAttempts c \<le> ox_attempts c"
  let ?y = "c\<lparr>ox_status := (if ?dead then ODead else OPending), ox_lockedUntil := None,
      ox_lastErrorRedacted := Some (u_redact u error),
      ox_nextAttemptAt := u_now u + int (retryDelaySeconds (ox_attempts c)) * 1000\<rparr>"
  have "gw_outbox s2 = with_row (ox_id c) ?y xs" "res = (if ?dead then Some DeadItem else None)"
    using r settled_table [OF c(1) z] by (auto simp: settle_failed_def Let_def s1 outbox_dead_def audit_def split: if_splits)
  with retryDelaySeconds_bounds [of "ox_attempts c"] c(2) show ?thesis
    by (intro exI [of _ ?y]) (auto simp: same_item_def)
qed

text \<open>C14: every delivery is accounted for. With one item per id, delivering an item that is neither due nor
  abandoned changes nothing. Otherwise exactly that item changes, with one more attempt, and its new status says
  what happened: sent with the receipt of its deliverer; dead, if the failure is final or it was the last attempt;
  or, where the queue is told of the failure, pending with attempts left and due again in 5 to 300 seconds.\<close>

theorem delivery_accounted:
  assumes d: "distinct (map ox_id (gw_outbox s))" and r: "deliverOutboxItem u u' lease ds i s = (outcome, s')"
  shows "if \<exists>x \<in> set (gw_outbox s). claimable (u_now u) i x
    then \<exists>x \<in> set (gw_outbox s). \<exists>y. claimable (u_now u) i x \<and> same_item x y \<and> ox_attempts y = Suc (ox_attempts x) \<and>
      gw_outbox s' = map (\<lambda>z. if ox_id z = i then y else z) (gw_outbox s) \<and>
      (outcome = Inr Sent \<and> ox_status y = OSent \<and> (\<exists>deliver receipt. ds (ox_payload x) = Some deliver \<and>
           deliver (claimed_row (u_now u + int lease * 1000) x) = Inr receipt \<and> ox_receipt y = Some receipt) \<or>
       outcome = Inr DeadItem \<and> ox_status y = ODead \<or>
       (\<exists>error. outcome = Inl error) \<and> ox_status y = OPending \<and> ox_attempts y < ox_maxAttempts y \<and>
         u_now u' + 5000 \<le> ox_nextAttemptAt y \<and> ox_nextAttemptAt y \<le> u_now u' + 300000)
    else (outcome = Inr NotDue \<or> outcome = Inr SkippedItem) \<and> s' = s"
proof (cases "find (claimable (u_now u) i) (gw_outbox s)")
  case None
  then have no: "\<not> claimable (u_now u) i x" if "x \<in> set (gw_outbox s)" for x using that by (simp add: find_None_iff)
  then have "update_where (claimable (u_now u) i) f (gw_outbox s) = gw_outbox s" for f
    by (simp add: update_where_def map_idI)
  then have "claim_item u lease i s = (None, s)" using None by (simp add: claim_item_def Let_def)
  with r no show ?thesis by (auto simp: deliverOutboxItem_def split: option.splits if_splits)
next
  case (Some x)
  let ?c = "claimed_row (u_now u + int lease * 1000) x"
  obtain s1 where s1: "claim_item u lease i s = (Some ?c, s1)" "gw_outbox s1 = with_row i ?c (gw_outbox s)"
    by (rule claimed_table [OF d Some])
  have x: "x \<in> set (gw_outbox s)" "claimable (u_now u) i x" "ox_id x = i" using find_SomeD [OF Some] by (auto simp: claimable_def)
  have c: "owned i (ox_attempts ?c) ?c" "same_item x ?c" "ox_attempts ?c = Suc (ox_attempts x)" "ox_payload ?c = ox_payload x" "ox_id ?c = i"
    using x by (simp_all add: claimed_row_def owned_def same_item_def)
  have "\<exists>y. same_item x y \<and> ox_attempts y = Suc (ox_attempts x) \<and> gw_outbox s' = with_row i y (gw_outbox s) \<and>
      (outcome = Inr Sent \<and> ox_status y = OSent \<and>
        (\<exists>deliver receipt. ds (ox_payload x) = Some deliver \<and> deliver ?c = Inr receipt \<and> ox_receipt y = Some receipt) \<or>
       outcome = Inr DeadItem \<and> ox_status y = ODead \<or>
       (\<exists>error. outcome = Inl error) \<and> ox_status y = OPending \<and> ox_attempts y < ox_maxAttempts y \<and>
         u_now u' + 5000 \<le> ox_nextAttemptAt y \<and> ox_nextAttemptAt y \<le> u_now u' + 300000)"
  proof (cases "case ds (ox_payload ?c) of None \<Rightarrow> Inl (False, ''no deliverer for '' @ quoted (payload_kind (ox_payload ?c)))
      | Some deliver \<Rightarrow> deliver ?c")
    case (Inr receipt)
    with r s1 c settled_table [OF c(1) x(1,3)] show ?thesis
      by (intro exI [of _ "?c\<lparr>ox_status := OSent, ox_receipt := Some receipt, ox_sentAt := Some (u_now u'),
          ox_lockedUntil := None, ox_lastErrorRedacted := None\<rparr>"])
        (auto simp: deliverOutboxItem_def settle_sent_def Let_def same_item_def split: option.splits)
  next
    case (Inl p)
    obtain res s2 where f: "settle_failed u' ?c (fst p) (snd p) s1 = (res, s2)" by (cases "settle_failed u' ?c (fst p) (snd p) s1")
    then have "s' = s2" "outcome = (case res of Some v \<Rightarrow> Inr v | None \<Rightarrow> Inl (snd p))"
      using r s1(1) Inl by (auto simp: deliverOutboxItem_def Let_def case_prod_unfold split: option.splits)
    with settle_failed_table [OF _ _ x(1) _ _ f] c x(3) s1(2) show ?thesis
      by (auto simp: same_item_def intro: exI)
  qed
  with x show ?thesis by (subst if_P) blast+
qed

definition example_item :: outbox_row where
  "example_item = example_card\<lparr>ox_status := OPending, ox_attempts := 0, ox_receipt := None, ox_sentAt := None\<rparr>"

definition example_due :: gateway where
  "example_due = example_fresh\<lparr>gw_outbox := [example_item]\<rparr>"

definition example_outage :: deliverers where
  "example_outage payload = Some (\<lambda>x. Inl (True, ''down''))"

theorem delivery_accounted_witness:
  "\<exists>s' y. deliverOutboxItem (example_uow 2000) (example_uow 2500) 60 example_outage ''o1'' example_due = (Inl ''down'', s') \<and>
    gw_outbox s' = [y] \<and> ox_status y = OPending \<and> ox_attempts y = 1 \<and> 7500 \<le> ox_nextAttemptAt y"
proof -
  have d: "distinct (map ox_id (gw_outbox example_due))" "gw_outbox example_due = [example_item]" by (simp_all add: example_due_def)
  have row: "ox_id example_item = ''o1''" "claimable 2000 ''o1'' example_item" "ox_attempts example_item = 0" "ox_maxAttempts example_item = 8"
    by (simp_all add: claimable_def example_item_def example_card_def)
  have now: "u_now (example_uow t) = t" for t by (simp add: example_uow_def)
  obtain s' where r: "deliverOutboxItem (example_uow 2000) (example_uow 2500) 60 example_outage ''o1'' example_due = (Inl ''down'', s')"
    using d(2) row by (simp add: deliverOutboxItem_def claim_item_def settle_failed_def Let_def now claimed_row_def
        owned_def update_where_def example_outage_def)
  have "\<exists>x \<in> set (gw_outbox example_due). claimable 2000 ''o1'' x" using d(2) row by simp
  with delivery_accounted [OF d(1) r] have "\<exists>y. ox_attempts y = 1 \<and> gw_outbox s' = [y] \<and> ox_status y = OPending \<and> 7500 \<le> ox_nextAttemptAt y"
    by (simp add: now d(2) row) blast
  with r show ?thesis by blast
qed

end
