(* ===== verification/Tool_Runner.thy ===== *)
theory Tool_Runner
  imports Approval_Properties
begin

text \<open>
  The tool runner, \<open>packages/tool-broker/src/tool-job.ts\<close>: the process that holds the provider's credentials
  and performs approved actions. It trusts nothing in a job: it recomputes the hash of the action, checks the
  parameters, and asks the database to begin the action (\<open>gateway_begin_tool_action\<close>) before an executor runs.

  Executors, the parse of a job and of a receipt, and redaction are parameters. An executor is a function of
  its parameters and the idempotency key that answers or throws; that it may be aborted meanwhile is part of
  what it answers. \<open>processToolJob\<close> returns, beside its outcome and its report, the calls it made, so that
  the theorems can speak of side effects. Jobs may be forged, repeated and delivered in any order, between
  any commands of the control plane (\<open>executes\<close>).
\<close>

subsection \<open>The job\<close>

datatype execution = ExecSucceeded "(string \<times> json) list" | ExecFailed string | ExecThrew string

record runner_deps =
  rd_namespace :: string
  rd_executors :: "string \<Rightarrow> ((string \<Rightarrow> string option) \<Rightarrow> string \<Rightarrow> execution) option"
  rd_dynamicExecutor :: "(tool_action_job \<Rightarrow> string \<Rightarrow> execution) option"
  rd_parseJob :: "json \<Rightarrow> tool_action_job option"
  rd_parseReceipt :: "(string \<times> json) list \<Rightarrow> (string \<times> json) list option"
  rd_redact500 :: "string \<Rightarrow> string"
  rd_sha256Hex :: "string \<Rightarrow> string"

text \<open>In Latin-1 the unsafe characters are the controls but tab, newline and carriage return; the one format
  character, the soft hyphen, is allowed.\<close>

definition isUnsafeTextCharacter :: "char \<Rightarrow> bool" where
  "isUnsafeTextCharacter c \<longleftrightarrow>
    c \<notin> {CHR 0x09, CHR 0x0A, CHR 0x0D} \<and>
    (let code = (of_char c :: nat) in code < 32 \<or> 127 \<le> code \<and> code < 160)"

definition withoutUnsafeCharacters :: "string \<Rightarrow> string" where
  "withoutUnsafeCharacters value = filter (\<lambda>c. \<not> isUnsafeTextCharacter c) value"

definition js_trim :: "string \<Rightarrow> string" where
  "js_trim s = rev (dropWhile is_space (rev (dropWhile is_space s)))"

definition errorText :: "runner_deps \<Rightarrow> string \<Rightarrow> string" where
  "errorText rd msg =
    (let shown = js_trim (withoutUnsafeCharacters (rd_redact500 rd msg)) in if shown = [] then ''no detail'' else shown)"

record tool_call =
  tc_actionId :: string
  tc_actionType :: string
  tc_actionParams :: "action_param list"
  tc_idempotencyKey :: string

record job_result =
  jr_outcome :: string
  jr_report :: "tool_report option"
  jr_calls :: "tool_call list"
  jr_state :: gateway

fun verdict_name :: "begin_verdict \<Rightarrow> string" where
  "verdict_name UnknownAction = ''unknown_action''"
| "verdict_name WrongNamespace = ''wrong_namespace''"
| "verdict_name KillSwitchOn = ''kill_switch''"
| "verdict_name NotQueued = ''not_queued''"
| "verdict_name StaleAttempt = ''stale_attempt''"
| "verdict_name HashMismatch = ''hash_mismatch''"
| "verdict_name CancelRequested = ''cancel_requested''"
| "verdict_name DeadlinePassed = ''deadline_passed''"
| "verdict_name NotGranted = ''not_granted''"
| "verdict_name AgentDisabled = ''agent_disabled''"
| "verdict_name (Begin _) = ''begin''"

definition executor_for :: "runner_deps \<Rightarrow> tool_action_job \<Rightarrow> (string \<Rightarrow> execution) option" where
  "executor_for rd job =
    (case rd_executors rd (tj_actionType job) of
       Some run \<Rightarrow> Some (run (map_of (rev (map (\<lambda>p. (ap_name p, ap_value p)) (tj_actionParams job)))))
     | None \<Rightarrow> map_option (\<lambda>run. run job) (rd_dynamicExecutor rd))"

definition execute :: "runner_deps \<Rightarrow> (string \<Rightarrow> execution) \<Rightarrow> string \<Rightarrow> tool_report_body" where
  "execute rd run idempotencyKey =
    (case run idempotencyKey of
       ExecFailed e \<Rightarrow> ToolFailed (errorText rd e)
     | ExecSucceeded receipt \<Rightarrow>
         ToolSucceeded (case rd_parseReceipt rd receipt of Some r \<Rightarrow> r | None \<Rightarrow> [(''receipt_withheld'', JBool True)])
     | ExecThrew e \<Rightarrow> ToolUnknown (errorText rd (''the executor stopped without an answer: '' @ e)))"

definition call_of :: "tool_action_job \<Rightarrow> string \<Rightarrow> tool_call" where
  "call_of job key =
    \<lparr>tc_actionId = tj_actionId job, tc_actionType = tj_actionType job, tc_actionParams = tj_actionParams job,
     tc_idempotencyKey = key\<rparr>"

definition send_report ::
    "tool_action_job \<Rightarrow> tool_report_body \<Rightarrow> tool_call list \<Rightarrow> gateway \<Rightarrow> job_result" where
  "send_report job body calls s =
    \<lparr>jr_outcome = tool_report_kind body,
     jr_report = Some \<lparr>tp_actionId = tj_actionId job, tp_attempt = tj_attempt job, tp_body = body\<rparr>,
     jr_calls = calls, jr_state = s\<rparr>"

text \<open>After \<open>begin\<close> agreed: \<open>aborted\<close> tells that the runner is stopping before the executor ran.\<close>

definition run_begun ::
    "runner_deps \<Rightarrow> bool \<Rightarrow> tool_action_job \<Rightarrow> string \<Rightarrow> gateway \<Rightarrow> job_result" where
  "run_begun rd aborted job key s =
    (let failed = (\<lambda>e. send_report job (ToolFailed (errorText rd e)) [] s) in
     case executor_for rd job of
       None \<Rightarrow> failed (''no executor for '' @ quoted (tj_actionType job) @ '' in this tool runner'')
     | Some run \<Rightarrow>
         if aborted then failed ''the tool runner stopped before the executor ran''
         else send_report job (execute rd run key) [call_of job key] s)"

definition processToolJob ::
    "runner_deps \<Rightarrow> bool \<Rightarrow> millis \<Rightarrow> (string \<Rightarrow> bool) \<Rightarrow> json \<Rightarrow> gateway \<Rightarrow> job_result" where
  "processToolJob rd aborted now serves data s =
    (case rd_parseJob rd data of
       None \<Rightarrow> \<lparr>jr_outcome = ''invalid_job'', jr_report = None, jr_calls = [], jr_state = s\<rparr>
     | Some job \<Rightarrow>
         let refuse = (\<lambda>reason. send_report job (ToolRefused (errorText rd reason)) [] s);
             hash = approvalActionHash (rd_sha256Hex rd) (tj_actionType job) (tj_actionParams job);
             issues = actionParamIssues (tj_actionType job) (tj_actionParams job)
         in if toolNamespace (tj_actionType job) \<noteq> Some (rd_namespace rd)
            then refuse (quoted (tj_actionType job) @ '' is not in this runner'' @ CHR 0x27 # ''s namespace '' @
              quoted (rd_namespace rd))
            else if hash \<noteq> tj_immutableActionHash job then refuse ''the action does not match its approval hash''
            else if issues \<noteq> []
            then refuse (errorText rd (''parameters refused: '' @ js_join ''; '' issues))
            else case gateway_begin_tool_action now serves (tj_actionId job) (tj_attempt job) hash s of
              (Begin key, s1) \<Rightarrow> run_begun rd aborted job key s1
            | (verdict, _) \<Rightarrow> refuse (''not begun: '' @ verdict_name verdict))"

subsection \<open>Executions\<close>

text \<open>What happened so far, as the calls executors received: any commands of the control plane, and any jobs
  given to any runners.\<close>

inductive executes :: "(nat \<Rightarrow> string) \<Rightarrow> (string \<Rightarrow> string) \<Rightarrow> gateway \<Rightarrow> tool_call list \<Rightarrow> gateway \<Rightarrow> bool" for uuid sha s0 where
  executes_start: "executes uuid sha s0 [] s0"
| executes_command: "executes uuid sha s0 calls s \<Longrightarrow> u_uuid u = uuid \<Longrightarrow>
    executes uuid sha s0 calls (snd (withTransaction (perform u td cp gd c s) s))"
| executes_job: "executes uuid sha s0 calls s \<Longrightarrow> rd_sha256Hex rd = sha \<Longrightarrow>
    executes uuid sha s0 (calls @ jr_calls (processToolJob rd aborted now serves data s))
      (jr_state (processToolJob rd aborted now serves data s))"

text \<open>A job either leaves everything alone, or begins its action and makes at most the one call.\<close>

lemma processToolJob_cases:
  obtains (nothing) "jr_state (processToolJob rd aborted now serves data s) = s"
      "jr_calls (processToolJob rd aborted now serves data s) = []"
  | (began) job key s1 where "rd_parseJob rd data = Some job"
      "gateway_begin_tool_action now serves (tj_actionId job) (tj_attempt job)
        (approvalActionHash (rd_sha256Hex rd) (tj_actionType job) (tj_actionParams job)) s = (Begin key, s1)"
      "processToolJob rd aborted now serves data s = run_begun rd aborted job key s1"
proof (cases "rd_parseJob rd data")
  case None
  then show thesis by (intro that(1)) (simp_all add: processToolJob_def)
next
  case (Some job)
  obtain v s1 where v: "gateway_begin_tool_action now serves (tj_actionId job) (tj_attempt job)
      (approvalActionHash (rd_sha256Hex rd) (tj_actionType job) (tj_actionParams job)) s = (v, s1)" by force
  show thesis
  proof (cases "toolNamespace (tj_actionType job) = Some (rd_namespace rd) \<and>
      approvalActionHash (rd_sha256Hex rd) (tj_actionType job) (tj_actionParams job) = tj_immutableActionHash job \<and>
      actionParamIssues (tj_actionType job) (tj_actionParams job) = [] \<and> (\<exists>key. v = Begin key)")
    case True
    then obtain key where "v = Begin key" by blast
    with True Some v show thesis by (intro that(2) [of job key s1]) (auto simp: processToolJob_def Let_def)
  next
    case False
    with Some v show thesis
      by (intro that(1)) (cases v; auto simp: processToolJob_def Let_def send_report_def)+
  qed
qed

lemma run_begun_state [simp]: "jr_state (run_begun rd aborted job key s) = s"
  by (simp add: run_begun_def send_report_def Let_def split: option.split)

lemma run_begun_calls:
  "jr_calls (run_begun rd aborted job key s) = [] \<or> jr_calls (run_begun rd aborted job key s) = [call_of job key]"
  by (simp add: run_begun_def send_report_def Let_def split: option.split)

lemma job_authority: "keeps_authority s (jr_state (processToolJob rd aborted now serves data s))"
proof (cases rule: processToolJob_cases [of rd aborted now serves data s])
  case nothing
  then show ?thesis by (simp add: keeps_authority_refl)
next
  case (began job key s1)
  with authority.begin_step show ?thesis by (metis run_begun_state snd_conv)
qed

lemma executes_authority: "executes uuid sha s0 calls s \<Longrightarrow> keeps_authority s0 s"
proof (induction rule: executes.induct)
  case (executes_command calls s u td cp gd c)
  show ?case
    using executes_command.IH keeps_authority_trans [OF executes_command.IH perform_authority [of u td cp gd c s]]
    by (cases "perform u td cp gd c s" s rule: withTransaction_cases) auto
next
  case (executes_job calls s rd aborted now serves data)
  show ?case by (rule keeps_authority_trans [OF executes_job.IH job_authority])
qed (rule keeps_authority_refl)

text \<open>The trace a call leaves: its action, no longer queued, with the hash of what was executed.\<close>

definition accounted :: "(string \<Rightarrow> string) \<Rightarrow> gateway \<Rightarrow> tool_call \<Rightarrow> tool_action_row \<Rightarrow> bool" where
  "accounted sha s c t \<longleftrightarrow> t \<in> set (gw_toolActions s) \<and> ta_id t = tc_actionId c \<and> ta_status t \<noteq> TQueued \<and>
    ta_idempotencyKey t = tc_idempotencyKey c \<and>
    ta_immutableActionHash t = approvalActionHash sha (tc_actionType c) (tc_actionParams c)"

lemma accounted_evolves:
  assumes "accounted sha s c t" and "decisions_evolve s s'"
  shows "\<exists>t'. accounted sha s' c t'"
proof -
  obtain t' where "t' \<in> set (gw_toolActions s')" "action_evolves t t'"
    using assms evolves_mem by (fastforce simp: accounted_def decisions_evolve_def)
  with assms(1) have "accounted sha s' c t'"
    by (cases "ta_status t") (auto simp: accounted_def action_evolves_def same_action_def)
  then show ?thesis by blast
qed

lemma begun_accounted:
  assumes "gateway_begin_tool_action now serves (tj_actionId job) attempt
      (approvalActionHash sha (tj_actionType job) (tj_actionParams job)) s = (Begin key, s')"
  shows "\<exists>t. find_action s (tj_actionId job) = Some t \<and> ta_status t = TQueued \<and>
    accounted sha s' (call_of job key) (t\<lparr>ta_status := TRunning, ta_startedAt := Some now\<rparr>)"
proof -
  let ?hash = "approvalActionHash sha (tj_actionType job) (tj_actionParams job)"
  have v: "begin_verdict_of now serves (tj_actionId job) attempt ?hash s = Begin key"
    and s': "s' = update_action (tj_actionId job) (\<lambda>t. t\<lparr>ta_status := TRunning, ta_startedAt := Some now\<rparr>) s"
    using assms by (auto simp: gateway_begin_tool_action_def Let_def)
  from v obtain t where t: "find_action s (tj_actionId job) = Some t" "ta_status t = TQueued"
    "ta_immutableActionHash t = ?hash" "key = ta_idempotencyKey t" by (rule begin_verdict_Begin)
  with find_action_SomeD [OF t(1)] s' show ?thesis
    by (auto simp: accounted_def call_of_def update_action_def set_update_where)
qed

lemma executes_accounted:
  assumes "executes uuid sha s0 calls s" and "authorised s0"
  shows "distinct (map tc_actionId calls) \<and> (\<forall>c \<in> set calls. \<exists>t. accounted sha s c t)"
  using assms(1)
proof (induction rule: executes.induct)
  case (executes_command calls s u td cp gd c)
  have ok: "authorised s" using executes_authority [OF executes_command.hyps(1)] assms(2) by (simp add: keeps_authority_def)
  have "keeps_authority s (snd (withTransaction (perform u td cp gd c s) s))"
    using perform_authority [of u td cp gd c s] keeps_authority_refl [of s]
    by (cases "perform u td cp gd c s" s rule: withTransaction_cases) auto
  with ok executes_command.IH accounted_evolves show ?case unfolding keeps_authority_def by blast
next
  case (executes_job calls s rd aborted now serves data)
  let ?r = "processToolJob rd aborted now serves data s"
  have ok: "authorised s" using executes_authority [OF executes_job.hyps(1)] assms(2) by (simp add: keeps_authority_def)
  with job_authority have old: "\<forall>c \<in> set calls. \<exists>t. accounted sha (jr_state ?r) c t"
    using executes_job.IH accounted_evolves unfolding keeps_authority_def by blast
  show ?case
  proof (cases rule: processToolJob_cases [of rd aborted now serves data s])
    case nothing
    with executes_job.IH show ?thesis by simp
  next
    case (began job key s1)
    from begun_accounted [OF began(2)] obtain t t' where t: "find_action s (tj_actionId job) = Some t" "ta_status t = TQueued"
      "accounted sha s1 (call_of job key) t'" using executes_job.hyps(2) by auto
    have "tc_actionId c \<noteq> tj_actionId job" if "c \<in> set calls" for c
      using executes_job.IH that find_action_unique [OF ok] t(1,2) by (fastforce simp: accounted_def)
    with old began(3) t(3) executes_job.IH run_begun_calls [of rd aborted job key s1] show ?thesis
      by (fastforce simp: call_of_def)
  qed
qed simp

text \<open>C3: executors act at most once, and only as approved. Start from any state whose actions are authorised; let
  any commands happen and any jobs, forged, repeated or reordered, reach any runners. No action is ever executed
  twice. Every call was made for an action whose request is granted, by a user the request names as an approver;
  it carried the stored idempotency key, and a type and parameters with exactly the approved hash. If that hash was
  taken of the request's own action and the hash function has no collisions, what was executed is what was approved.\<close>

theorem executed_once_as_approved:
  assumes ok: "authorised s0" and x: "executes uuid sha s0 calls s"
  shows "distinct (map tc_actionId calls) \<and>
    (\<forall>c \<in> set calls. \<exists>t \<in> set (gw_toolActions s). \<exists>a \<in> set (gw_approvals s).
      ta_id t = tc_actionId c \<and> ta_approvalId t = aq_id a \<and> ta_idempotencyKey t = tc_idempotencyKey c \<and>
      aq_status a = AGranted \<and> (\<exists>user \<in> set (aq_allowedApproverUserIds a). aq_decidedByUserId a = Some user) \<and>
      aq_immutableActionHash a = approvalActionHash sha (tc_actionType c) (tc_actionParams c) \<and>
      ((\<forall>x y. sha x = sha y \<longrightarrow> x = y) \<and> aq_immutableActionHash a = approvalActionHash sha (aq_actionType a) (aq_actionParams a) \<longrightarrow>
        tc_actionType c = aq_actionType a \<and> set (tc_actionParams c) = set (aq_actionParams a)))"
proof (intro conjI ballI)
  show "distinct (map tc_actionId calls)" using executes_accounted [OF x ok] by blast
  fix c assume "c \<in> set calls"
  then obtain t where t: "accounted sha s c t" using executes_accounted [OF x ok] by blast
  have ok': "authorised s" using executes_authority [OF x] ok by (simp add: keeps_authority_def)
  then obtain a where a: "a \<in> set (gw_approvals s)" "action_for a t" using t by (auto simp: authorised_def accounted_def)
  then have who: "granted_by_approver a" using ok' by (auto simp: authorised_def approval_ok_def action_for_def)
  have hash: "aq_immutableActionHash a = approvalActionHash sha (tc_actionType c) (tc_actionParams c)"
    using a(2) t by (simp add: action_for_def accounted_def)
  have same: "tc_actionType c = aq_actionType a \<and> set (tc_actionParams c) = set (aq_actionParams a)"
    if "\<forall>x y. sha x = sha y \<longrightarrow> x = y" "aq_immutableActionHash a = approvalActionHash sha (aq_actionType a) (aq_actionParams a)"
  proof -
    from that hash have "canonicalJson (action_json (tc_actionType c) (tc_actionParams c)) =
        canonicalJson (action_json (aq_actionType a) (aq_actionParams a))"
      unfolding approvalActionHash_def canonicalHash_def by metis
    from action_text_inj [OF this] show ?thesis by (metis set_sort)
  qed
  from t a who hash same show "\<exists>t \<in> set (gw_toolActions s). \<exists>a \<in> set (gw_approvals s).
      ta_id t = tc_actionId c \<and> ta_approvalId t = aq_id a \<and> ta_idempotencyKey t = tc_idempotencyKey c \<and>
      aq_status a = AGranted \<and> (\<exists>user \<in> set (aq_allowedApproverUserIds a). aq_decidedByUserId a = Some user) \<and>
      aq_immutableActionHash a = approvalActionHash sha (tc_actionType c) (tc_actionParams c) \<and>
      ((\<forall>x y. sha x = sha y \<longrightarrow> x = y) \<and> aq_immutableActionHash a = approvalActionHash sha (aq_actionType a) (aq_actionParams a) \<longrightarrow>
        tc_actionType c = aq_actionType a \<and> set (tc_actionParams c) = set (aq_actionParams a))"
    by (intro bexI [of _ t] bexI [of _ a]) (auto simp: accounted_def action_for_def granted_by_approver_def)
qed

text \<open>A runner whose executor publishes, and a job for the approved action.\<close>

definition example_job :: tool_action_job where
  "example_job = \<lparr>tj_actionId = ''t1'', tj_approvalId = ''a1'', tj_attempt = 1, tj_agentId = ''ceo'',
     tj_actionType = ''publish.post'', tj_actionParams = aq_actionParams example_request,
     tj_immutableActionHash = aq_immutableActionHash example_request, tj_deadline = 50000\<rparr>"

definition example_runner :: runner_deps where
  "example_runner = \<lparr>rd_namespace = ''publish'', rd_executors = (\<lambda>type. Some (\<lambda>params key. ExecSucceeded [(''url'', JStr key)])),
     rd_dynamicExecutor = None, rd_parseJob = (\<lambda>data. Some example_job), rd_parseReceipt = Some, rd_redact500 = (\<lambda>x. x),
     rd_sha256Hex = (\<lambda>x. x)\<rparr>"

lemma example_approved_authorised: "authorised example_approved"
  by (simp add: authorised_def example_approved_def example_action_def approval_ok_def granted_by_approver_def action_for_def)
    (simp add: example_request_def)

lemma example_executed:
  "jr_calls (processToolJob example_runner False 3000 (\<lambda>n. n = ''publish'') JNull example_approved) =
    [\<lparr>tc_actionId = ''t1'', tc_actionType = ''publish.post'', tc_actionParams = aq_actionParams example_request,
      tc_idempotencyKey = ''k1''\<rparr>]"
proof -
  have "begin_verdict_of 3000 (\<lambda>n. n = ''publish'') ''t1'' 1 (aq_immutableActionHash example_request) example_approved = Begin ''k1''"
    by (simp add: begin_verdict_of_def find_action_def find_approval_def lockAgent_def example_approved_def example_asked_def
        example_action_def example_fresh_def example_agent_def) (simp add: example_request_def)
  moreover have "toolNamespace ''publish.post'' = Some ''publish''" by (rule example_decision)
  moreover have "actionParamIssues ''publish.post'' (aq_actionParams example_request) = []" by code_simp
  moreover have "approvalActionHash (\<lambda>x. x) ''publish.post'' (aq_actionParams example_request) = aq_immutableActionHash example_request"
    by (simp add: example_request_def)
  ultimately show ?thesis
    by (simp add: processToolJob_def example_runner_def example_job_def gateway_begin_tool_action_def Let_def
        run_begun_def executor_for_def send_report_def call_of_def)
qed

theorem executed_once_as_approved_witness:
  "\<exists>c s. executes (u_uuid (example_uow 2000)) (\<lambda>x. x) example_approved [c] s \<and>
    (\<exists>a \<in> set (gw_approvals s). aq_status a = AGranted \<and>
      aq_immutableActionHash a = approvalActionHash (\<lambda>x. x) (tc_actionType c) (tc_actionParams c))"
proof -
  let ?r = "processToolJob example_runner False 3000 (\<lambda>n. n = ''publish'') JNull example_approved"
  have "rd_sha256Hex example_runner = (\<lambda>x. x)" by (simp add: example_runner_def)
  from executes_job [OF executes_start this, of "u_uuid (example_uow 2000)" example_approved False 3000 "\<lambda>n. n = ''publish''" JNull]
  have x: "executes (u_uuid (example_uow 2000)) (\<lambda>x. x) example_approved (jr_calls ?r) (jr_state ?r)" by simp
  then obtain c where c: "executes (u_uuid (example_uow 2000)) (\<lambda>x. x) example_approved [c] (jr_state ?r)"
    by (simp add: example_executed)
  from executed_once_as_approved [OF example_approved_authorised c] c show ?thesis by (simp; blast)
qed



end
