(* ===== verification/Spec2Isabelle.thy ===== *)
theory Spec2Isabelle
  imports Compile Ip_Guard Custom_Tools Thread_Context Tool_Runner
begin

text \<open>
  \<^bold>\<open>Verification of the Agent Gateway control plane.\<close>

  The Agent Gateway runs a team of language-model agents in a Mattermost workspace. Events (posts, mails,
  approvals) are ingested into a durable log and routed to agents; an agent with pending work gets a run,
  which a worker executes in attempts; the worker reports back a turn result, which the control plane
  checks, publishes and turns into the agent's next state. Humans approve risky actions; operators pause,
  resume, redrive and stop agents. The model covers the rules and the transactions of the control plane
  (\<open>src/packages/core\<close>, \<open>policy\<close>, \<open>contracts\<close>, \<open>events\<close>, \<open>context\<close>); it is written from the TypeScript
  sources, one definition per function, with the same names.

  \<^bold>\<open>The pure rules.\<close>
  \<^item> \<open>Gateway_Prelude\<close>: JavaScript strings, maps and sets, JSON, and the collections of simplification
    rules that the other theories share.
  \<^item> \<open>Agent_State\<close> (\<open>core/src/state-machine.ts\<close>): the transition table of an agent as a locale-based
    machine; a failed agent stays failed until an operator acts.
  \<^item> \<open>Contracts\<close> (\<open>contracts\<close>, \<open>events/envelope.ts\<close>): identifiers, event types, trust, post data.
  \<^item> \<open>Waits\<close> (\<open>core/src/waits.ts\<close>) and \<open>Routing\<close> (\<open>core/src/routing.ts\<close>): which event satisfies a wait and
    whom an event wakes: only known, enabled, permitted agents, within every loop limit.
  \<^item> \<open>Channel_Access\<close>, \<open>Mentions\<close>, \<open>Turn_Authority\<close>, \<open>Outcome\<close>: what a turn may say, to whom, and in which
    threads; the checks are shown equal to abstract authorisation predicates.
  \<^item> \<open>Tool_Patterns\<close>, \<open>Tool_Policy\<close>, \<open>Compile\<close> (\<open>policy/src/tools.ts\<close>, \<open>action-specs.ts\<close>, \<open>compile.ts\<close>): tool
    patterns as sets of names, the verdict on a tool, typed finance actions, and the permission compiler as
    a least closure.
  \<^item> \<open>Budget\<close> (\<open>policy/src/budget.ts\<close>, \<open>core/src/services/budgets.ts\<close>): holds, and the usage ledger.
  \<^item> \<open>Approval_Code\<close> (\<open>policy/src/approval-code.ts\<close>, \<open>events/src/canonical.ts\<close>): the hash that binds an
    approval to its action, the code a human types, the reading of a reply.
  \<^item> \<open>Ip_Guard\<close> (\<open>policy/src/ip-guard.ts\<close>): the egress guard on 32-bit and 128-bit addresses.
  \<^item> \<open>Thread_Summary\<close> (\<open>context/src/summary.ts\<close>): the bounded rolling summary of a thread.

  \<^bold>\<open>The transactions.\<close> The database is one record, \<open>gateway\<close>, with a list of row records per table
  (\<open>db/src/schema.ts\<close>), in insertion order; an \<open>update ... where\<close> is \<open>update_where\<close>. A service function takes
  the unit of work \<open>uow\<close> (clock, ids, randomness, hash functions) and the state, and returns an error or a
  result with the new state; \<open>withTransaction\<close> undoes the writes of one that throws. Unique indexes the code
  relies on are explicit error branches.
  \<^item> \<open>Gateway_Store\<close> (\<open>store.ts\<close>), \<open>Event_Log\<close> (event hashes, threads, loop statistics), \<open>Wait_Store\<close>
    (\<open>wait-store.ts\<close>), \<open>Scheduler\<close> (\<open>scheduler.ts\<close>), \<open>Runs\<close> (\<open>runs.ts\<close>), \<open>Operations\<close> (operator commands of
    \<open>admin.ts\<close>), \<open>Ingest\<close> (\<open>ingest.ts\<close>): the definitions.
  \<^item> The locales \<open>core_effect\<close>, \<open>side_effect\<close> and \<open>quiet_effect\<close> of \<open>Gateway_Store\<close> are the interface of the
    writes that leave the core tables alone; every such write is an interpretation.
  \<^item> \<open>Consistency\<close>, \<open>Scheduler_Safety\<close>, \<open>Run_Safety\<close>, \<open>Operation_Safety\<close>: the invariant \<open>consistent\<close> of agents,
    runs and inbox, and that every operation keeps it.
  \<^item> \<open>Publication\<close>: only an authorised, in-scope result of the current attempt publishes anything.
  \<^item> \<open>Control_Plane\<close>: all commands as one transition function, reachable states by rule induction, the gates
    of a started run, the kill switch.
  \<^item> \<open>Delivery\<close>: at-least-once delivery made exactly-once, the errors a report can raise, the end of
    retries, deadlines, waits.
  \<^item> \<open>Approvals\<close> (\<open>approvals.ts\<close>, \<open>approval-store.ts\<close>): the decision on a request by a reply, what is checked
    at the moment of the grant, expiry, revocation and late cards; \<open>Tool_Actions\<close>: the tool action of a
    grant, its reports, its sweep, and the database function through which a runner begins it;
    \<open>Outbox\<close> (\<open>outbox/src/deliver.ts\<close>): claims under a lease, fenced settling, retries, dead letters.
  \<^item> \<open>Approval_Safety\<close>, \<open>Authority\<close>: the locale of the writes that keep approvals and actions authorised, with an
    interpretation for every command; \<open>Approval_Properties\<close>: what a grant and a begun action presuppose, that
    decisions are final, and that the outbox sends nothing twice and loses nothing.
  \<^item> \<open>Tool_Runner\<close> (\<open>tool-broker/src/tool-job.ts\<close>): the processing of a tool job, composed with all commands: an
    action is executed at most once and exactly as it was approved, and reports are truthful.
  \<^item> \<open>Example_World\<close>: the concrete gateway the witnesses use.

  \<^bold>\<open>Tools and context.\<close>
  \<^item> \<open>Custom_Tools\<close> (\<open>policy/src/custom-tool.ts\<close>, \<open>contracts/src/custom-tool.ts\<close>): definitions of HTTPS tools, the
    checks of the values of a call, and the request they give, which stays inside the template.
  \<^item> \<open>Thread_Context\<close> (\<open>context/src/thread.ts\<close>, \<open>memory.ts\<close>, \<open>text.ts\<close>): the posts of a thread as its events leave
    them, the bounded thread, and the memory a turn is shown.

  \<^bold>\<open>Parameters.\<close> SHA-256, \<open>isIP\<close> of node:net, UUIDs and their validation, redaction, random numbers, the
  normalisation of a message, the assembly of a turn's input (\<open>td_build\<close>, \<open>td_inputBytes\<close>) and the Zod parse
  of results, usage, cards, jobs and receipts (\<open>cp_*\<close>, \<open>rd_parseJob\<close>, \<open>rd_parseReceipt\<close>) are arguments of the
  definitions; so are the effective tool lists of an agent and the pinned definition of a custom tool at the
  moment of a grant (\<open>grant_deps\<close>), the executors of a runner, the deliverers of the outbox, the reading of a
  decimal number, the collation of ids and the mark of a cut text. Hypotheses on them are named where they are
  used: ids do not repeat (\<open>inj\<close>), and the action hash does not collide.

  \<^bold>\<open>Conventions.\<close> Times are integers (milliseconds), a UTC day is its number, costs are rationals, text is
  a list of Latin-1 characters. Row locks, logs and trace headers have no counterpart; commands are atomic
  and interleave in any order. Recursion is structural or ends by a measure; no fuel is used.

  \<^bold>\<open>Not modelled.\<close> The runtime adapters, the worker and controller processes, the Mattermost and Gmail
  clients, the egress of custom tools, the CLI and the console (process control, network and user interface);
  the catalog, management and agent-lifecycle services, whose transactions surround the modelled rules; the
  queries that collect the input of a turn.
\<close>

end
